(* ===== verification/Platform.thy ===== *)
theory Platform
  imports Prelude "HOL-Library.Word"
begin

text \<open>
  What the program takes from outside the repository.

  JSON values are \<open>serde_json::Value\<close>; parsing and printing them, SHA-256, UUIDs, RFC 3339 time
  stamps, URLs, DNS and the Rego engine are third-party code and therefore fields of the record
  \<open>lib\<close>, an argument of every definition that uses them. What the program relies on is stated
  below as named predicates over \<open>lib\<close>. The lossy UTF-8 decoder is the standard library's.
\<close>

section \<open>JSON values\<close>

text \<open>
  A \<open>serde_json::Number\<close> is an integer (the constructors \<open>PosInt(u64)\<close> and \<open>NegInt(i64)\<close>, the latter
  always negative, are the two ranges of one integer) or a double, given by the rational it denotes.
\<close>

datatype json_number = Integral int | Double rat

datatype json =
    JNull
  | JBool bool
  | JNum json_number
  | JStr string
  | JArr "json list"
  | JObj "(string \<times> json) list"

text \<open>
  An object is the association list of its \<open>serde_json::Map\<close>, a \<open>BTreeMap\<close>: keys ascending.
  \<open>obj_insert\<close> is \<open>Map::insert\<close>, \<open>json_obj\<close> the \<open>json!\<close> macro and \<open>serde_json::to_value\<close> of a struct.
\<close>

fun obj_insert :: "string \<Rightarrow> json \<Rightarrow> (string \<times> json) list \<Rightarrow> (string \<times> json) list" where
  "obj_insert k v [] = [(k, v)]"
| "obj_insert k v ((k', v') # m) =
     (if k < k' then (k, v) # (k', v') # m
      else if k = k' then (k, v) # m
      else (k', v') # obj_insert k v m)"

definition json_obj :: "(string \<times> json) list \<Rightarrow> json" where
  "json_obj kvs = JObj (fold (\<lambda>(k, v). obj_insert k v) kvs [])"

text \<open>\<open>Value::get(key)\<close>, \<open>Value::as_str\<close>, \<open>Value::as_array\<close> and \<open>Value::pointer\<close> over object keys.\<close>

fun json_get :: "string \<Rightarrow> json \<Rightarrow> json option" where
  "json_get k (JObj m) = map_of m k"
| "json_get k _ = None"

fun as_str :: "json \<Rightarrow> string option" where
  "as_str (JStr s) = Some s"
| "as_str _ = None"

fun as_array :: "json \<Rightarrow> json list option" where
  "as_array (JArr xs) = Some xs"
| "as_array _ = None"

fun json_path :: "string list \<Rightarrow> json \<Rightarrow> json option" where
  "json_path [] v = Some v"
| "json_path (k # ks) v = (case json_get k v of None \<Rightarrow> None | Some w \<Rightarrow> json_path ks w)"

definition jopt :: "('a \<Rightarrow> json) \<Rightarrow> 'a option \<Rightarrow> json" where
  "jopt f x = (case x of None \<Rightarrow> JNull | Some y \<Rightarrow> f y)"

abbreviation jstrs :: "string list \<Rightarrow> json" where
  "jstrs xs \<equiv> JArr (map JStr xs)"

lemma map_of_obj_insert [simp]: "map_of (obj_insert k v m) = (map_of m)(k \<mapsto> v)"
  by (induction m) (auto simp: fun_eq_iff)

lemma map_of_fold_obj_insert:
  "map_of (fold (\<lambda>(k, v). obj_insert k v) kvs m) k =
     (case map_of (rev kvs) k of None \<Rightarrow> map_of m k | Some v \<Rightarrow> Some v)"
  by (induction kvs arbitrary: m)
     (auto simp: map_add_def fun_eq_iff split: option.splits if_splits)

lemma json_get_obj [simp]: "json_get k (json_obj kvs) = map_of (rev kvs) k"
  by (auto simp: json_obj_def map_of_fold_obj_insert split: option.splits)

definition keys_sorted :: "(string \<times> json) list \<Rightarrow> bool" where
  "keys_sorted m \<longleftrightarrow> sorted_wrt (<) (map fst m)"

lemma set_obj_insert: "set (obj_insert k v m) \<subseteq> insert (k, v) (set m)"
  by (induction m) (auto split: if_splits)

lemma keys_obj_insert: "fst ` set (obj_insert k v m) = insert k (fst ` set m)"
  by (induction k v m rule: obj_insert.induct) (simp_all add: insert_commute)

lemma keys_sorted_insert: "keys_sorted m \<Longrightarrow> keys_sorted (obj_insert k v m)"
proof (induction m)
  case Nil
  then show ?case by (simp add: keys_sorted_def)
next
  case (Cons p m)
  obtain k' v' where p: "p = (k', v')" by fastforce
  from Cons have IH: "keys_sorted (obj_insert k v m)"
    by (simp add: keys_sorted_def)
  have lt: "\<forall>x \<in> fst ` set m. k' < x"
    using Cons.prems by (simp add: keys_sorted_def p)
  show ?case
  proof (cases "k < k'")
    case True
    with Cons.prems lt show ?thesis by (auto simp: keys_sorted_def p)
  next
    case False
    with IH lt Cons.prems keys_obj_insert [of k v m] show ?thesis
      by (auto simp: keys_sorted_def p)
  qed
qed

lemma keys_sorted_fold: "keys_sorted m \<Longrightarrow> keys_sorted (fold (\<lambda>(k, v). obj_insert k v) kvs m)"
  by (induction kvs arbitrary: m) (auto simp: keys_sorted_insert)

subsection \<open>Values that survive printing and parsing\<close>

text \<open>
  \<open>serde_json\<close> refuses to parse values nested 128 levels deep or more, and without its feature
  \<open>float_roundtrip\<close> (not enabled in \<open>Cargo.toml\<close>) reading back a printed float may return a neighbour.
  \<open>storable\<close> are the remaining values. \<open>json_wf\<close> are the values whose integers are in the range of a
  \<open>Number\<close>.
\<close>

definition int_ok :: "int \<Rightarrow> bool" where
  "int_ok i \<longleftrightarrow> - (2 ^ 63) \<le> i \<and> i < 2 ^ 64"

fun json_wf :: "json \<Rightarrow> bool" where
  "json_wf (JNum (Integral i)) = int_ok i"
| "json_wf (JArr xs) = (\<forall>x \<in> set xs. json_wf x)"
| "json_wf (JObj m) = (\<forall>kv \<in> set m. json_wf (snd kv))"
| "json_wf _ = True"

fun json_depth :: "json \<Rightarrow> nat" where
  "json_depth (JArr xs) = Suc (foldr max (map json_depth xs) 0)"
| "json_depth (JObj m) = Suc (foldr max (map (\<lambda>kv. json_depth (snd kv)) m) 0)"
| "json_depth _ = 0"

fun json_exact :: "json \<Rightarrow> bool" where
  "json_exact (JNum (Double q)) = False"
| "json_exact (JNum (Integral i)) = int_ok i"
| "json_exact (JArr xs) = (\<forall>x \<in> set xs. json_exact x)"
| "json_exact (JObj m) = (keys_sorted m \<and> (\<forall>kv \<in> set m. json_exact (snd kv)))"
| "json_exact _ = True"

definition storable :: "json \<Rightarrow> bool" where
  "storable v \<longleftrightarrow> json_exact v \<and> json_depth v < 128"

lemma foldr_max_bound: "foldr max xs 0 \<le> (n::nat) \<longleftrightarrow> (\<forall>x \<in> set xs. x \<le> n)"
  by (induction xs) auto

lemma fold_obj_insert_subset:
  "set (fold (\<lambda>(k, v). obj_insert k v) kvs m) \<subseteq> set m \<union> set kvs"
proof (induction kvs arbitrary: m)
  case Nil
  show ?case by simp
next
  case (Cons p kvs)
  obtain k v where p: "p = (k, v)" by fastforce
  from Cons.IH [of "obj_insert k v m"] set_obj_insert [of k v m] show ?case
    by (fastforce simp: p)
qed

lemma json_exact_obj:
  assumes "\<And>k v. (k, v) \<in> set kvs \<Longrightarrow> json_exact v"
  shows "json_exact (json_obj kvs)"
proof -
  have "keys_sorted (fold (\<lambda>(k, v). obj_insert k v) kvs [])"
    by (rule keys_sorted_fold) (simp add: keys_sorted_def)
  with assms fold_obj_insert_subset [of kvs "[]"] show ?thesis
    by (fastforce simp: json_obj_def)
qed

lemma json_depth_obj:
  assumes "\<And>k v. (k, v) \<in> set kvs \<Longrightarrow> json_depth v \<le> n"
  shows "json_depth (json_obj kvs) \<le> Suc n"
  using assms fold_obj_insert_subset [of kvs "[]"]
  by (fastforce simp: json_obj_def foldr_max_bound)

lemma json_exact_strs [simp]: "json_exact (jstrs xs)"
  by auto

lemma json_depth_strs [simp]: "json_depth (jstrs xs) \<le> 1"
  using foldr_max_bound [of "map (json_depth \<circ> JStr) xs" 0] by auto

lemma storable_strs: "storable (jstrs xs)"
proof -
  have "json_depth (jstrs xs) < 128" using json_depth_strs [of xs] by linarith
  then show ?thesis using json_exact_strs [of xs] unfolding storable_def by blast
qed

section \<open>Third-party code\<close>

type_synonym uuid = "128 word"

text \<open>A \<open>DateTime<Utc>\<close>: nanoseconds since the epoch (leap seconds, which chrono tells apart, are left out).\<close>

type_synonym time = int

text \<open>\<open>std::net::IpAddr\<close>: four octets, or eight 16-bit segments.\<close>

datatype ip_addr = V4 "nat list" | V6 "nat list"

text \<open>\<open>url::Host\<close> and the components of a \<open>url::Url\<close> that the program reads.\<close>

datatype host = Domain string | Ip ip_addr

record url =
  u_scheme :: string
  u_username :: string
  u_password :: "string option"
  u_host :: "host option"
  u_port :: "nat option"
  u_path :: string
  u_query :: "string option"
  u_fragment :: "string option"

text \<open>The values of \<open>regorus::Value\<close> that \<open>policy.rs\<close> tells apart.\<close>

datatype rego_value =
    RBool bool
  | RString string
  | RSet "rego_value list"
  | RArray "rego_value list"
  | ROther

record lib =
  sha256_hex :: "string \<Rightarrow> string"
  parse_json :: "string \<Rightarrow> json option"
  print_json :: "json \<Rightarrow> string"
  parse_uuid :: "string \<Rightarrow> uuid option"
  show_uuid :: "uuid \<Rightarrow> string"
  uuid_v5 :: "string \<Rightarrow> uuid"
  parse_time :: "string \<Rightarrow> time option"
  show_time :: "time \<Rightarrow> string"
  json_time :: "time \<Rightarrow> string"
  show_millis :: "time \<Rightarrow> string"
  parse_url :: "string \<Rightarrow> url option"
  show_url :: "url \<Rightarrow> string"
  join_url :: "url \<Rightarrow> string \<Rightarrow> url option"
  port_or_default :: "url \<Rightarrow> nat option"
  set_host :: "url \<Rightarrow> string \<Rightarrow> url option"
  set_path :: "url \<Rightarrow> string \<Rightarrow> url"
  show_ip :: "ip_addr \<Rightarrow> string"
  set_input_json :: "string \<Rightarrow> (string, unit) result"
  eval_rule :: "time \<Rightarrow> string \<Rightarrow> string \<Rightarrow> (string, rego_value) result"

text \<open>
  \<open>sha256_hex\<close> is \<open>hex::encode(Sha256::digest(_))\<close>; \<open>parse_json\<close>, \<open>print_json\<close> are \<open>from_slice\<close>/\<open>from_str\<close> and
  \<open>to_string\<close>/\<open>to_vec\<close>; \<open>show_time\<close> and \<open>parse_time\<close> are \<open>to_rfc3339\<close> and \<open>parse_from_rfc3339\<close> of a
  \<open>DateTime<Utc>\<close> given in nanoseconds since the epoch, \<open>json_time\<close> its serde form and \<open>show_millis\<close>
  \<open>to_rfc3339_opts(Millis, true)\<close>; \<open>uuid_v5\<close> is
  \<open>Uuid::new_v5(NAMESPACE_URL, _)\<close>; the URL functions are those of the \<open>url\<close> crate, \<open>show_ip\<close> is \<open>IpAddr::to_string\<close>;
  \<open>set_input_json\<close> is the check of the policy engine's input and \<open>eval_rule now rule input\<close> is \<open>Engine::eval_rule\<close> after
  \<open>set_input_json(input)\<close> at wall-clock time \<open>now\<close>.
\<close>

text \<open>RFC 3339 has four-digit years: the times of the years 0 to 9999.\<close>

definition time_ok :: "time \<Rightarrow> bool" where
  "time_ok t \<longleftrightarrow> - 62167219200000000000 \<le> t \<and> t < 253402300800000000000"

definition codec_ok :: "lib \<Rightarrow> bool" where
  "codec_ok L \<longleftrightarrow>
     (\<forall>u. parse_uuid L (show_uuid L u) = Some u) \<and>
     (\<forall>t. time_ok t \<longrightarrow> parse_time L (show_time L t) = Some t) \<and>
     (\<forall>v. storable v \<longrightarrow> parse_json L (print_json L v) = Some v)"

text \<open>The RFC 3339 texts of UTC times compare like the times.\<close>

definition time_order_ok :: "lib \<Rightarrow> bool" where
  "time_order_ok L \<longleftrightarrow>
     (\<forall>s t. time_ok s \<longrightarrow> time_ok t \<longrightarrow> (show_time L s < show_time L t \<longleftrightarrow> s < t))"

text \<open>Printing distinguishes values, and what the parser returns is a value.\<close>

definition print_inj :: "lib \<Rightarrow> bool" where
  "print_inj L \<longleftrightarrow> inj_on (print_json L) {v. json_wf v} \<and> inj (show_uuid L) \<and> inj (json_time L) \<and>
     (\<forall>s v. parse_json L s = Some v \<longrightarrow> json_wf v)"

text \<open>A digest is printed in hexadecimal.\<close>

definition hex_digest :: "lib \<Rightarrow> bool" where
  "hex_digest L \<longleftrightarrow> (\<forall>x. set (sha256_hex L x) \<subseteq> set ''0123456789abcdef'')"

section \<open>Lossy UTF-8 decoding\<close>

text \<open>
  \<open>String::from_utf8_lossy\<close>: each maximal ill-formed prefix becomes U+FFFD (bytes EF BF BD).
  \<open>utf8_chunk\<close> says whether the string starts with a well-formed character, and how many bytes
  that character or the ill-formed prefix has.
\<close>

definition byte_at :: "string \<Rightarrow> nat \<Rightarrow> nat" where
  "byte_at s i = (if i < length s then of_char (s ! i) else 0)"

definition is_cont :: "nat \<Rightarrow> bool" where
  "is_cont b \<longleftrightarrow> 128 \<le> b \<and> b \<le> 191"

definition utf8_width :: "nat \<Rightarrow> nat" where
  "utf8_width b =
     (if b < 128 then 1 else if 194 \<le> b \<and> b \<le> 223 then 2
      else if 224 \<le> b \<and> b \<le> 239 then 3 else if 240 \<le> b \<and> b \<le> 244 then 4 else 0)"

definition second_ok :: "nat \<Rightarrow> nat \<Rightarrow> bool" where
  "second_ok b c \<longleftrightarrow>
     is_cont c \<and> (b = 224 \<longrightarrow> 160 \<le> c) \<and> (b = 237 \<longrightarrow> c \<le> 159) \<and>
     (b = 240 \<longrightarrow> 144 \<le> c) \<and> (b = 244 \<longrightarrow> c \<le> 143)"

definition utf8_chunk :: "string \<Rightarrow> bool \<times> nat" where
  "utf8_chunk s =
     (let b = byte_at s 0; w = utf8_width b in
      if w = 1 then (True, 1)
      else if w = 0 \<or> \<not> second_ok b (byte_at s 1) then (False, 1)
      else if w = 2 then (True, 2)
      else if \<not> is_cont (byte_at s 2) then (False, 2)
      else if w = 3 then (True, 3)
      else if \<not> is_cont (byte_at s 3) then (False, 3)
      else (True, 4))"

lemma utf8_chunk_pos: "0 < snd (utf8_chunk s)"
  by (simp add: utf8_chunk_def Let_def)

function from_utf8_lossy :: "string \<Rightarrow> string" where
  "from_utf8_lossy [] = []"
| "from_utf8_lossy (c # s) =
     (let (ok, n) = utf8_chunk (c # s) in
      (if ok then take n (c # s) else [CHR 0xEF, CHR 0xBF, CHR 0xBD]) @
      from_utf8_lossy (drop n (c # s)))"
  by pat_completeness auto
termination
proof (relation "measure length", simp)
  fix c s p ok n
  assume "p = utf8_chunk (c # s)" "(ok, n) = p"
  then have "0 < n" using utf8_chunk_pos [of "c # s"] by (metis snd_conv)
  then show "(drop n (c # s), c # s) \<in> measure length"
    by (cases n) auto
qed

lemma utf8_chunk_ascii: "is_ascii c \<Longrightarrow> utf8_chunk (c # s) = (True, 1)"
  by (simp add: utf8_chunk_def byte_at_def utf8_width_def is_ascii_def)

lemma from_utf8_lossy_ascii: "\<forall>c \<in> set s. is_ascii c \<Longrightarrow> from_utf8_lossy s = s"
  by (induction s) (simp_all add: utf8_chunk_ascii)

end
