(* ===== verification/Heuristics.thy ===== *)
theory Heuristics
  imports Platform
begin

text \<open>
  The embedded heuristic Brain (\<open>src/heuristics.rs\<close>): the needle scan, the dangerous-tool list and
  the verdict built from them. Scores are the decimal literals of the source as rationals; they
  reach the policy engine in decimal JSON form.
\<close>

section \<open>The model\<close>

record heuristic_verdict =
  hv_authorized :: bool
  hv_intent_category :: string
  hv_intent_score :: rat
  hv_reasoning :: string
  hv_injection_detected :: bool
  hv_injection_confidence :: rat
  hv_matched_signals :: "string list"

definition INJECTION_NEEDLES :: "string list" where
  "INJECTION_NEEDLES =
     [''ignore previous instructions'',
      ''ignore all previous instructions'',
      ''ignore all instructions'',
      ''disregard previous instructions'',
      ''forget your instructions'',
      ''forget everything you know'',
      ''you are now'',
      ''act as'',
      ''system prompt'',
      ''reveal your prompt'',
      ''developer mode'',
      ''jailbreak'',
      ''do anything now'',
      ''dan mode'']"

definition DANGEROUS_TOOL_NAMES :: "string list" where
  "DANGEROUS_TOOL_NAMES =
     [''shell_exec'', ''sql_execute'', ''rm_rf'', ''drop_database'', ''exfiltrate'']"

record injection_inner =
  ii_detected :: bool
  ii_confidence :: rat
  ii_matched_signals :: "string list"

definition detect_injection :: "string \<Rightarrow> injection_inner" where
  "detect_injection text =
     (let lower = to_lowercase text;
          matched = filter (contains_str lower) INJECTION_NEEDLES;
          confidence = (case length matched of
              0 \<Rightarrow> 0
            | Suc 0 \<Rightarrow> 6 / 10
            | Suc (Suc 0) \<Rightarrow> 85 / 100
            | _ \<Rightarrow> 95 / 100)
      in \<lparr>ii_detected = (matched \<noteq> []), ii_confidence = confidence,
          ii_matched_signals = matched\<rparr>)"

definition inspect :: "string \<Rightarrow> string \<Rightarrow> heuristic_verdict" where
  "inspect tool_type payload_text =
     (let injection = detect_injection payload_text;
          dangerous_tool = tool_type \<in> set DANGEROUS_TOOL_NAMES;
          (score, category, reason) =
            (if ii_detected injection then
               (9 / 10, ''PromptInjection'',
                ''Heuristic injection match: '' @ join_str '', '' (ii_matched_signals injection))
             else if dangerous_tool then
               (5 / 10, ''DangerousTool'',
                ''Tool name '' @ [CHR 0x27] @ tool_type @ [CHR 0x27] @ '' is on the dangerous-tool denylist.'')
             else
               (5 / 100, ''Routine'', ''No heuristic signals matched; treating as routine.''))
      in \<lparr>hv_authorized = (\<not> ii_detected injection \<and> \<not> dangerous_tool),
          hv_intent_category = category, hv_intent_score = score, hv_reasoning = reason,
          hv_injection_detected = ii_detected injection,
          hv_injection_confidence = ii_confidence injection,
          hv_matched_signals = ii_matched_signals injection\<rparr>)"

section \<open>Lemmas\<close>

lemma to_lowercase_ascii_Cons: "is_ascii c \<Longrightarrow> to_lowercase (c # s) = ascii_lower c # to_lowercase s"
  by (rule to_lowercase_cases(3)) (auto simp: is_ascii_def)

lemma to_lowercase_ascii_append:
  "\<forall>c \<in> set w. is_ascii c \<Longrightarrow> to_lowercase (w @ b) = to_ascii_lowercase w @ to_lowercase b"
  by (induction w) (simp_all add: to_lowercase_ascii_Cons to_ascii_lowercase_def)

text \<open>No multi-byte character straddles the boundary before an ASCII character.\<close>

lemma take_boundary:
  assumes "is_ascii c" "\<forall>k \<in> set ks. \<not> is_ascii k"
  shows "take n (a @ c # s) = ks \<longleftrightarrow> take n a = ks \<and> n \<le> length a"
proof (cases "n \<le> length a")
  case True
  then show ?thesis by simp
next
  case False
  then have "c \<in> set (take n (a @ c # s))"
    by (cases "n - length a") auto
  with assms False show ?thesis by auto
qed

lemma to_lowercase_split:
  "is_ascii c \<Longrightarrow> to_lowercase (a @ c # s) = to_lowercase a @ to_lowercase (c # s)"
proof (induction a rule: to_lowercase.induct)
  case 1
  show ?case by simp
next
  case (2 x a)
  have b3: "take 3 (x # a @ c # s) = [CHR 0xE2, CHR 0x84, CHR 0xAA] \<longleftrightarrow>
      take 3 (x # a) = [CHR 0xE2, CHR 0x84, CHR 0xAA] \<and> 3 \<le> length (x # a)"
    using take_boundary [OF 2(4), of "[CHR 0xE2, CHR 0x84, CHR 0xAA]" 3 "x # a" s]
    by (simp add: is_ascii_def)
  have b2: "take 2 (x # a @ c # s) = [CHR 0xC4, CHR 0xB0] \<longleftrightarrow>
      take 2 (x # a) = [CHR 0xC4, CHR 0xB0] \<and> 2 \<le> length (x # a)"
    using take_boundary [OF 2(4), of "[CHR 0xC4, CHR 0xB0]" 2 "x # a" s]
    by (simp add: is_ascii_def)
  consider (kelvin) "take 3 (x # a) = [CHR 0xE2, CHR 0x84, CHR 0xAA]"
    | (dotted) "take 3 (x # a) \<noteq> [CHR 0xE2, CHR 0x84, CHR 0xAA]" "take 2 (x # a) = [CHR 0xC4, CHR 0xB0]"
    | (plain) "take 3 (x # a) \<noteq> [CHR 0xE2, CHR 0x84, CHR 0xAA]" "take 2 (x # a) \<noteq> [CHR 0xC4, CHR 0xB0]"
    by blast
  then show ?case
  proof cases
    case kelvin
    then have "length (take 3 (x # a)) = 3" by simp
    then have l: "3 \<le> length (x # a)" by simp
    with kelvin b3 have "take 3 (x # a @ c # s) = [CHR 0xE2, CHR 0x84, CHR 0xAA]" by blast
    from to_lowercase_cases(1) [OF this] to_lowercase_cases(1) [OF kelvin] 2(1) [OF kelvin 2(4)] l
    show ?thesis by simp
  next
    case dotted
    then have "length (take 2 (x # a)) = 2" by simp
    then have l: "2 \<le> length (x # a)" by simp
    from dotted b3 have "take 3 (x # a @ c # s) \<noteq> [CHR 0xE2, CHR 0x84, CHR 0xAA]" by blast
    moreover from dotted b2 l have "take 2 (x # a @ c # s) = [CHR 0xC4, CHR 0xB0]" by blast
    ultimately show ?thesis
      using to_lowercase_cases(2) to_lowercase_cases(2) [OF dotted] 2(2) [OF dotted 2(4)] l by simp
  next
    case plain
    from plain b3 have "take 3 (x # a @ c # s) \<noteq> [CHR 0xE2, CHR 0x84, CHR 0xAA]" by blast
    moreover from plain b2 have "take 2 (x # a @ c # s) \<noteq> [CHR 0xC4, CHR 0xB0]" by blast
    ultimately show ?thesis
      using to_lowercase_cases(3) to_lowercase_cases(3) [OF plain] 2(3) [OF plain 2(4)] by simp
  qed
qed

lemma needles_ne: "[] \<notin> set INJECTION_NEEDLES"
  by (simp add: INJECTION_NEEDLES_def)

lemma inspect_injection_iff:
  "hv_injection_detected (inspect t p) \<longleftrightarrow>
     (\<exists>n \<in> set INJECTION_NEEDLES. sublist n (to_lowercase p))"
  by (auto simp: inspect_def detect_injection_def Let_def contains_str_iff filter_empty_conv)

lemma inspect_authorized:
  "hv_authorized (inspect t p) \<longleftrightarrow>
     t \<notin> set DANGEROUS_TOOL_NAMES \<and> \<not> hv_injection_detected (inspect t p)"
  by (auto simp: inspect_def Let_def)

lemma inspect_score_cases:
  "hv_intent_score (inspect t p) =
     (if hv_injection_detected (inspect t p) then 9 / 10
      else if t \<in> set DANGEROUS_TOOL_NAMES then 5 / 10 else 5 / 100)"
  by (simp add: inspect_def Let_def)

lemma inspect_category_cases:
  "hv_intent_category (inspect t p) =
     (if hv_injection_detected (inspect t p) then ''PromptInjection''
      else if t \<in> set DANGEROUS_TOOL_NAMES then ''DangerousTool'' else ''Routine'')"
  by (simp add: inspect_def Let_def)

section \<open>Properties\<close>

text \<open>
  C22. A needle written in any mix of ASCII letter cases is detected wherever it stands in the
  payload: whatever bytes surround it, including multi-byte characters cut at its edges.
\<close>

theorem needle_detected_anywhere:
  assumes "to_ascii_lowercase w \<in> set INJECTION_NEEDLES" and "\<forall>c \<in> set w. is_ascii c"
  shows "hv_injection_detected (inspect t (a @ w @ b)) \<and>
         \<not> hv_authorized (inspect t (a @ w @ b)) \<and>
         hv_intent_category (inspect t (a @ w @ b)) = ''PromptInjection''"
proof -
  from assms(1) needles_ne obtain c w' where w: "w = c # w'"
    by (cases w) (auto simp: to_ascii_lowercase_def)
  with assms(2) have "to_lowercase (a @ w @ b) = to_lowercase a @ to_lowercase (w @ b)"
    using to_lowercase_split [of c a "w' @ b"] by simp
  also have "\<dots> = to_lowercase a @ to_ascii_lowercase w @ to_lowercase b"
    using assms(2) by (simp add: to_lowercase_ascii_append)
  finally have "sublist (to_ascii_lowercase w) (to_lowercase (a @ w @ b))" by simp
  with assms(1) have "hv_injection_detected (inspect t (a @ w @ b))"
    by (auto simp: inspect_injection_iff)
  then show ?thesis by (simp add: inspect_authorized inspect_category_cases)
qed

theorem needle_detected_anywhere_witness:
  "hv_injection_detected (inspect ''ping'' ([CHR 0xE2, CHR 0x84] @ ''JailBreak'' @ [CHR 0xAA]))"
proof -
  have h: "to_ascii_lowercase ''JailBreak'' \<in> set INJECTION_NEEDLES" by code_simp
  have "\<forall>c \<in> set ''JailBreak''. is_ascii c" by code_simp
  from needle_detected_anywhere [OF h this] show ?thesis by blast
qed

text \<open>
  C23. On an ASCII payload the verdict is exactly the intended one: the request is authorized if and
  only if its tool is not on the denylist and no piece of the payload spells a needle up to letter
  case; and authorization, the score relative to the policy threshold 0.2 and the category
  \<open>Routine\<close> say the same thing.
\<close>

theorem inspect_ascii_spec:
  assumes "\<forall>c \<in> set p. is_ascii c"
  shows "(hv_authorized (inspect t p) \<longleftrightarrow>
            t \<notin> set DANGEROUS_TOOL_NAMES \<and>
            \<not> (\<exists>a w b. p = a @ w @ b \<and> to_ascii_lowercase w \<in> set INJECTION_NEEDLES)) \<and>
         (hv_authorized (inspect t p) \<longleftrightarrow> hv_intent_score (inspect t p) < 2 / 10) \<and>
         (hv_authorized (inspect t p) \<longleftrightarrow> hv_intent_category (inspect t p) = ''Routine'')"
proof -
  let ?spelt = "\<exists>a w b. p = a @ w @ b \<and> to_ascii_lowercase w \<in> set INJECTION_NEEDLES"
  have key: "sublist n (map ascii_lower p) \<longleftrightarrow> (\<exists>a w b. p = a @ w @ b \<and> map ascii_lower w = n)" for n
  proof
    assume "sublist n (map ascii_lower p)"
    then obtain x y where "map ascii_lower p = x @ n @ y" by (auto simp: sublist_def)
    then obtain a r where r: "p = a @ r" "map ascii_lower r = n @ y"
      by (rule map_append_split)
    from r(2) obtain w b where "r = w @ b" "map ascii_lower w = n"
      by (rule map_append_split)
    with r show "\<exists>a w b. p = a @ w @ b \<and> map ascii_lower w = n" by blast
  next
    assume "\<exists>a w b. p = a @ w @ b \<and> map ascii_lower w = n"
    then obtain a w b where "p = a @ w @ b" "map ascii_lower w = n" by blast
    then have "map ascii_lower p = map ascii_lower a @ n @ map ascii_lower b" by simp
    then show "sublist n (map ascii_lower p)" unfolding sublist_def by blast
  qed
  have "hv_injection_detected (inspect t p) \<longleftrightarrow> ?spelt"
    unfolding inspect_injection_iff to_lowercase_ascii [OF assms] to_ascii_lowercase_def key
    by blast
  then show ?thesis
    by (simp add: inspect_authorized inspect_score_cases inspect_category_cases)
qed

theorem inspect_ascii_spec_witness:
  "hv_authorized (inspect ''ping'' ''hi'') \<longleftrightarrow> hv_intent_score (inspect ''ping'' ''hi'') < 2 / 10"
proof -
  have "\<forall>c \<in> set ''hi''. is_ascii c" by code_simp
  from inspect_ascii_spec [OF this, of "''ping''"] show ?thesis by blast
qed

end
