(* ===== verification/Db.thy ===== *)
theory Db
  imports Platform
begin

text \<open>
  The SQLite connection of \<open>src/ledger.rs\<close> and what its operations read from their environment.

  A table is the list of its rows in insertion order. Every rusqlite call, every acquisition of the
  connection worker and every commit may fail; the environment decides. The clock, the random UUIDs
  and the failures are functions of the number of environment calls made so far, so a theorem over
  all connections covers every clock, every UUID source and every pattern of storage failures.
\<close>

section \<open>Rows\<close>

record entry_row =
  er_id :: string
  er_seq :: int
  er_timestamp :: string
  er_agent_id :: string
  er_method :: string
  er_intent_category :: string
  er_authorized :: int
  er_reasoning :: string
  er_policy_decision :: "string option"
  er_prev_hash :: string
  er_entry_hash :: string
  er_chain_version :: int
  er_correlation_id :: "string option"

record pending_row =
  pr_correlation_id :: string
  pr_tenant :: string
  pr_agent_id :: string
  pr_tool_type :: string
  pr_method :: string
  pr_review_reasons_json :: string
  pr_requested_at :: string
  pr_decided_at :: "string option"
  pr_decision :: "string option"
  pr_decider_note :: "string option"
  pr_callback_url :: "string option"

record execution_row =
  xr_agent_id :: string
  xr_idempotency_id :: string
  xr_execution_id :: string
  xr_correlation_id :: string
  xr_route :: string
  xr_method :: string
  xr_tool_name :: string
  xr_submitted_sha256 :: string
  xr_effective_sha256 :: string
  xr_state :: string
  xr_response_status :: "int option"
  xr_response_content_type :: "string option"
  xr_response_body :: "string option"
  xr_result_sha256 :: "string option"
  xr_receipt_json :: "string option"
  xr_created_at :: string
  xr_completed_at :: "string option"
  xr_reconciliation_state :: string
  xr_reconciliation_attempts :: int
  xr_last_reconciled_at :: "string option"
  xr_reconciliation_error :: "string option"
  xr_reconciliation_resolved_at :: "string option"
  xr_owner_instance :: "string option"

record outbox_row =
  ob_event_id :: string
  ob_execution_id :: string
  ob_payload_json :: string
  ob_created_at :: string
  ob_delivered_at :: "string option"

section \<open>The connection\<close>

record conn =
  clock :: "nat \<Rightarrow> time"
  fresh :: "nat \<Rightarrow> uuid"
  fault :: "nat \<Rightarrow> bool"
  calls :: nat
  instance_id :: string
  t_entries :: "entry_row list"
  t_pendings :: "pending_row list"
  t_executions :: "execution_row list"
  t_outbox :: "outbox_row list"

datatype sql_error =
    SqliteFailure
  | ConstraintViolation
  | ConversionFailure nat
  | QueryReturnedNoRows
  | InvalidQuery

type_synonym ('e, 'a) db = "conn \<Rightarrow> ('e, 'a) result \<times> conn"

definition tick :: "conn \<Rightarrow> conn" where
  "tick c = c\<lparr>calls := Suc (calls c)\<rparr>"

definition return_db :: "'a \<Rightarrow> ('e, 'a) db" where
  "return_db x c = (Inr x, c)"

definition fail_db :: "'e \<Rightarrow> ('e, 'a) db" where
  "fail_db e c = (Inl e, c)"

definition bind_db :: "('e, 'a) db \<Rightarrow> ('a \<Rightarrow> ('e, 'b) db) \<Rightarrow> ('e, 'b) db" where
  "bind_db m f c = (case m c of (Inl e, c') \<Rightarrow> (Inl e, c') | (Inr x, c') \<Rightarrow> f x c')"

text \<open>The \<open>From<rusqlite::Error>\<close> conversion of the operator \<open>?\<close>.\<close>

definition map_err :: "('e \<Rightarrow> 'f) \<Rightarrow> ('e, 'a) db \<Rightarrow> ('f, 'a) db" where
  "map_err g m c =
     (case m c of (Inl e, c') \<Rightarrow> (Inl (g e), c') | (Inr x, c') \<Rightarrow> (Inr x, c'))"

definition lift_result :: "('e, 'a) result \<Rightarrow> ('e, 'a) db" where
  "lift_result r c = (r, c)"

definition utc_now :: "('e, time) db" where
  "utc_now c = (Inr (clock c (calls c)), tick c)"

definition new_v4 :: "('e, uuid) db" where
  "new_v4 c = (Inr (fresh c (calls c)), tick c)"

text \<open>One rusqlite call on the connection, which the environment may fail.\<close>

definition sql :: "(sql_error, 'a) db \<Rightarrow> (sql_error, 'a) db" where
  "sql m c = (if fault c (calls c) then (Inl SqliteFailure, tick c) else m (tick c))"

text \<open>
  \<open>with_connection_result\<close>: the worker permit, the blocking task and the connection lock can each
  fail before the operation starts; \<open>e\<close> is the converted \<open>sqlite_worker_error\<close>. The permit
  admits one operation at a time, so an operation runs to its end without interleaving.
\<close>

definition with_connection_result :: "'e \<Rightarrow> ('e, 'a) db \<Rightarrow> ('e, 'a) db" where
  "with_connection_result e m c =
     (if fault c (calls c) then (Inl e, tick c) else m (tick c))"

definition with_connection :: "(sql_error, 'a) db \<Rightarrow> (sql_error, 'a) db" where
  "with_connection m = with_connection_result SqliteFailure m"

text \<open>
  A transaction: \<open>BEGIN\<close>, the body, and \<open>COMMIT\<close> when the body asks for it. Dropping the transaction
  (an error, or an early return) restores the tables.
\<close>

datatype 'a tx = Commit 'a | Drop 'a

definition rollback_to :: "conn \<Rightarrow> conn \<Rightarrow> conn" where
  "rollback_to c c' = c'\<lparr>t_entries := t_entries c, t_pendings := t_pendings c,
     t_executions := t_executions c, t_outbox := t_outbox c\<rparr>"

definition transaction :: "(sql_error, 'a tx) db \<Rightarrow> (sql_error, 'a) db" where
  "transaction body c =
     (case sql (return_db ()) c of
        (Inl e, c1) \<Rightarrow> (Inl e, c1)
      | (Inr _, c1) \<Rightarrow>
          (case body c1 of
             (Inl e, c2) \<Rightarrow> (Inl e, rollback_to c1 c2)
           | (Inr (Drop x), c2) \<Rightarrow> (Inr x, rollback_to c1 c2)
           | (Inr (Commit x), c2) \<Rightarrow>
               (case sql (return_db ()) c2 of
                  (Inl e, c3) \<Rightarrow> (Inl e, rollback_to c1 c3)
                | (Inr _, c3) \<Rightarrow> (Inr x, c3))))"

section \<open>Statements\<close>

text \<open>\<open>SELECT\<close>: the rows a function computes from the tables.\<close>

definition select :: "(conn \<Rightarrow> 'a) \<Rightarrow> (sql_error, 'a) db" where
  "select q = sql (\<lambda>c. (Inr (q c), c))"

text \<open>\<open>INSERT INTO entries\<close>: \<open>id\<close> is the primary key, \<open>seq\<close> is unique.\<close>

definition insert_entry :: "entry_row \<Rightarrow> (sql_error, unit) db" where
  "insert_entry r = sql (\<lambda>c.
     if \<exists>r' \<in> set (t_entries c). er_id r' = er_id r \<or> er_seq r' = er_seq r
     then (Inl ConstraintViolation, c)
     else (Inr (), c\<lparr>t_entries := t_entries c @ [r]\<rparr>))"

text \<open>\<open>INSERT INTO pendings\<close>: \<open>correlation_id\<close> is the primary key.\<close>

definition insert_pending :: "pending_row \<Rightarrow> (sql_error, unit) db" where
  "insert_pending r = sql (\<lambda>c.
     if \<exists>r' \<in> set (t_pendings c). pr_correlation_id r' = pr_correlation_id r
     then (Inl ConstraintViolation, c)
     else (Inr (), c\<lparr>t_pendings := t_pendings c @ [r]\<rparr>))"

text \<open>\<open>INSERT INTO server_executions\<close>: keyed by agent and idempotency id, \<open>execution_id\<close> unique.\<close>

definition insert_execution :: "execution_row \<Rightarrow> (sql_error, unit) db" where
  "insert_execution r = sql (\<lambda>c.
     if \<exists>r' \<in> set (t_executions c).
          xr_agent_id r' = xr_agent_id r \<and> xr_idempotency_id r' = xr_idempotency_id r \<or>
          xr_execution_id r' = xr_execution_id r
     then (Inl ConstraintViolation, c)
     else (Inr (), c\<lparr>t_executions := t_executions c @ [r]\<rparr>))"

text \<open>\<open>INSERT INTO server_execution_outbox\<close>: \<open>event_id\<close> and \<open>execution_id\<close> are unique.\<close>

definition insert_outbox :: "outbox_row \<Rightarrow> (sql_error, unit) db" where
  "insert_outbox r = sql (\<lambda>c.
     if \<exists>r' \<in> set (t_outbox c).
          ob_event_id r' = ob_event_id r \<or> ob_execution_id r' = ob_execution_id r
     then (Inl ConstraintViolation, c)
     else (Inr (), c\<lparr>t_outbox := t_outbox c @ [r]\<rparr>))"

text \<open>\<open>UPDATE \<dots> WHERE p\<close>: the number of rows changed.\<close>

definition update_pendings ::
    "(pending_row \<Rightarrow> bool) \<Rightarrow> (pending_row \<Rightarrow> pending_row) \<Rightarrow> (sql_error, nat) db" where
  "update_pendings p f = sql (\<lambda>c.
     (Inr (length (filter p (t_pendings c))),
      c\<lparr>t_pendings := map (\<lambda>r. if p r then f r else r) (t_pendings c)\<rparr>))"

definition update_executions ::
    "(execution_row \<Rightarrow> bool) \<Rightarrow> (execution_row \<Rightarrow> execution_row) \<Rightarrow> (sql_error, nat) db" where
  "update_executions p f = sql (\<lambda>c.
     (Inr (length (filter p (t_executions c))),
      c\<lparr>t_executions := map (\<lambda>r. if p r then f r else r) (t_executions c)\<rparr>))"

section \<open>Frame facts\<close>

text \<open>The clock stays within the years that RFC 3339 can write.\<close>

definition clock_ok :: "conn \<Rightarrow> bool" where
  "clock_ok c \<longleftrightarrow> (\<forall>n. time_ok (clock c n))"

text \<open>The tables of two connections agree; the environment functions never change.\<close>

definition same_tables :: "conn \<Rightarrow> conn \<Rightarrow> bool" where
  "same_tables c c' \<longleftrightarrow>
     t_entries c' = t_entries c \<and> t_pendings c' = t_pendings c \<and>
     t_executions c' = t_executions c \<and> t_outbox c' = t_outbox c"

definition same_env :: "conn \<Rightarrow> conn \<Rightarrow> bool" where
  "same_env c c' \<longleftrightarrow> clock c' = clock c \<and> fresh c' = fresh c \<and> fault c' = fault c \<and>
     instance_id c' = instance_id c"

named_theorems db_simps \<open>unfolding of the connection monad\<close>

lemma tick_sel [simp]:
  "clock (tick c) = clock c" "fresh (tick c) = fresh c" "fault (tick c) = fault c"
  "instance_id (tick c) = instance_id c"
  "t_entries (tick c) = t_entries c" "t_pendings (tick c) = t_pendings c"
  "t_executions (tick c) = t_executions c" "t_outbox (tick c) = t_outbox c"
  "calls (tick c) = Suc (calls c)"
  by (simp_all add: tick_def)

lemma rollback_sel [simp]:
  "t_entries (rollback_to c c') = t_entries c" "t_pendings (rollback_to c c') = t_pendings c"
  "t_executions (rollback_to c c') = t_executions c" "t_outbox (rollback_to c c') = t_outbox c"
  "clock (rollback_to c c') = clock c'" "fresh (rollback_to c c') = fresh c'"
  "fault (rollback_to c c') = fault c'" "instance_id (rollback_to c c') = instance_id c'"
  "calls (rollback_to c c') = calls c'"
  by (simp_all add: rollback_to_def)

lemmas [db_simps] = return_db_def fail_db_def bind_db_def map_err_def lift_result_def utc_now_def
  new_v4_def sql_def with_connection_result_def with_connection_def select_def

lemma same_tables_refl [simp]: "same_tables c c"
  by (simp add: same_tables_def)

lemma same_tables_tick [simp]: "same_tables c (tick c)"
  by (simp add: same_tables_def)

lemma same_tables_trans: "same_tables a b \<Longrightarrow> same_tables b c \<Longrightarrow> same_tables a c"
  by (simp add: same_tables_def)

lemma bind_db_Inr:
  "bind_db m f c = (Inr y, c') \<longleftrightarrow> (\<exists>x c1. m c = (Inr x, c1) \<and> f x c1 = (Inr y, c'))"
  by (auto simp: bind_db_def split: prod.splits sum.splits)

lemma bind_db_Inl:
  "bind_db m f c = (Inl e, c') \<longleftrightarrow>
     m c = (Inl e, c') \<or> (\<exists>x c1. m c = (Inr x, c1) \<and> f x c1 = (Inl e, c'))"
  by (auto simp: bind_db_def split: prod.splits sum.splits)

lemma sql_Inr: "sql m c = (Inr x, c') \<longleftrightarrow> \<not> fault c (calls c) \<and> m (tick c) = (Inr x, c')"
  by (simp add: sql_def)

lemma sql_Inl:
  "sql m c = (Inl e, c') \<longleftrightarrow>
     fault c (calls c) \<and> e = SqliteFailure \<and> c' = tick c \<or>
     \<not> fault c (calls c) \<and> m (tick c) = (Inl e, c')"
  by (auto simp: sql_def)

lemma with_connection_Inr:
  "with_connection m c = (Inr x, c') \<longleftrightarrow> \<not> fault c (calls c) \<and> m (tick c) = (Inr x, c')"
  by (simp add: with_connection_def with_connection_result_def)

lemma with_connection_Inl:
  "with_connection m c = (Inl e, c') \<longleftrightarrow>
     fault c (calls c) \<and> e = SqliteFailure \<and> c' = tick c \<or>
     \<not> fault c (calls c) \<and> m (tick c) = (Inl e, c')"
  by (auto simp: with_connection_def with_connection_result_def)

lemma select_Inr:
  "select q c = (Inr x, c') \<longleftrightarrow> \<not> fault c (calls c) \<and> x = q (tick c) \<and> c' = tick c"
  by (auto simp: select_def sql_def)

lemma select_tables: "select q c = (r, c') \<Longrightarrow> same_tables c c'"
  by (auto simp: select_def sql_def split: if_splits)

text \<open>A transaction that does not commit leaves the tables as they were.\<close>

lemma transaction_Inl: "transaction body c = (Inl e, c') \<Longrightarrow> same_tables c c'"
  by (auto simp: transaction_def sql_def return_db_def same_tables_def
      split: prod.splits sum.splits tx.splits if_splits)

lemma transaction_Inr:
  assumes "transaction body c = (Inr x, c')"
  shows "(\<exists>c2. body (tick c) = (Inr (Drop x), c2) \<and> same_tables c c') \<or>
         (\<exists>c2. body (tick c) = (Inr (Commit x), c2) \<and> c' = tick c2)"
  using assms
  by (auto simp: transaction_def sql_def return_db_def same_tables_def
      split: prod.splits sum.splits tx.splits if_splits)

section \<open>Relations kept by every operation\<close>

text \<open>
  \<open>keeps R m\<close>: whatever the operation \<open>m\<close> returns, the connection before and after are related by
  \<open>R\<close>. The locale \<open>db_relation\<close> has the rules that reduce this to the statements of \<open>m\<close>, for every
  \<open>R\<close> that composes and that holds when no table changes.
\<close>

definition keeps :: "(conn \<Rightarrow> conn \<Rightarrow> bool) \<Rightarrow> ('e, 'a) db \<Rightarrow> bool" where
  "keeps R m \<longleftrightarrow> (\<forall>c r c'. clock_ok c \<longrightarrow> m c = (r, c') \<longrightarrow> R c c')"

lemma keepsI: "(\<And>c r c'. clock_ok c \<Longrightarrow> m c = (r, c') \<Longrightarrow> R c c') \<Longrightarrow> keeps R m"
  by (simp add: keeps_def)

lemma keepsD: "keeps R m \<Longrightarrow> clock_ok c \<Longrightarrow> m c = (r, c') \<Longrightarrow> R c c'"
  by (simp add: keeps_def)

lemma same_env_refl [simp]: "same_env c c"
  by (simp add: same_env_def)

lemma same_env_tick [simp]: "same_env c (tick c)"
  by (simp add: same_env_def)

lemma same_env_trans: "same_env a b \<Longrightarrow> same_env b c \<Longrightarrow> same_env a c"
  by (simp add: same_env_def)

lemma same_env_clock_ok: "same_env c c' \<Longrightarrow> clock_ok c' \<longleftrightarrow> clock_ok c"
  by (simp add: same_env_def clock_ok_def)

lemma same_env_rollback: "same_env a b \<Longrightarrow> same_env a (rollback_to c b)"
  by (simp add: same_env_def)

locale db_relation =
  fixes R :: "conn \<Rightarrow> conn \<Rightarrow> bool"
  assumes quiet: "same_tables c c' \<Longrightarrow> same_env c c' \<Longrightarrow> R c c'"
    and env: "R c c' \<Longrightarrow> same_env c c'"
    and compose: "R a b \<Longrightarrow> R b c \<Longrightarrow> R a c"
begin

lemma rel_refl: "R c c"
  by (rule quiet) simp_all

lemma rel_tick: "R c (tick c)"
  by (rule quiet) simp_all

lemma keeps_return: "keeps R (return_db x)"
  by (auto simp: keeps_def return_db_def rel_refl)

lemma keeps_fail: "keeps R (fail_db e)"
  by (auto simp: keeps_def fail_db_def rel_refl)

lemma keeps_lift: "keeps R (lift_result r)"
  by (auto simp: keeps_def lift_result_def rel_refl)

lemma keeps_now: "keeps R utc_now"
  by (auto simp: keeps_def utc_now_def rel_tick)

lemma keeps_new: "keeps R new_v4"
  by (auto simp: keeps_def new_v4_def rel_tick)

lemma rel_clock: "R c c' \<Longrightarrow> clock_ok c' \<longleftrightarrow> clock_ok c"
  using env same_env_clock_ok by blast

lemma clock_ok_tick: "clock_ok (tick c) \<longleftrightarrow> clock_ok c"
  by (simp add: clock_ok_def)

lemma keeps_bind:
  assumes "keeps R m" "\<And>x. keeps R (f x)"
  shows "keeps R (bind_db m f)"
proof (rule keepsI)
  fix c r c' assume c: "clock_ok c" and b: "bind_db m f c = (r, c')"
  obtain r1 c1 where m: "m c = (r1, c1)" by fastforce
  with c assms(1) have R1: "R c c1" by (auto dest: keepsD)
  show "R c c'"
  proof (cases r1)
    case (Inl e)
    with b m R1 show ?thesis by (simp add: bind_db_def)
  next
    case (Inr x)
    with b m have "f x c1 = (r, c')" by (simp add: bind_db_def)
    with assms(2) have "R c1 c'" using c rel_clock [OF R1] by (auto dest: keepsD)
    with R1 show ?thesis by (rule compose)
  qed
qed

text \<open>What follows a reading of the clock may rely on its range.\<close>

lemma keeps_now_bind:
  assumes "\<And>t. time_ok t \<Longrightarrow> keeps R (f t)"
  shows "keeps R (bind_db utc_now f)"
proof (rule keepsI)
  fix c r c' assume c: "clock_ok c" and b: "bind_db utc_now f c = (r, c')"
  then have "f (clock c (calls c)) (tick c) = (r, c')" "time_ok (clock c (calls c))"
    by (simp_all add: bind_db_def utc_now_def clock_ok_def)
  with assms c have "R (tick c) c'"
    by (metis keepsD clock_ok_tick)
  then show "R c c'" by (meson compose rel_tick)
qed

lemma keeps_map_err: "keeps R m \<Longrightarrow> keeps R (map_err g m)"
  unfolding keeps_def map_err_def by (auto split: prod.splits sum.splits)

lemma keeps_sql: "keeps R m \<Longrightarrow> keeps R (sql m)"
  unfolding keeps_def sql_def
  by (auto split: if_splits intro: rel_tick compose [OF rel_tick] simp: clock_ok_tick)

lemma keeps_select: "keeps R (select q)"
  unfolding select_def by (rule keeps_sql) (auto simp: keeps_def rel_refl)

lemma keeps_with_result: "keeps R m \<Longrightarrow> keeps R (with_connection_result e m)"
  unfolding keeps_def with_connection_result_def
  by (auto split: if_splits intro: rel_tick compose [OF rel_tick] simp: clock_ok_tick)

lemma keeps_with: "keeps R m \<Longrightarrow> keeps R (with_connection m)"
  unfolding with_connection_def by (rule keeps_with_result)

lemma keeps_transaction:
  assumes "keeps R body"
  shows "keeps R (transaction body)"
proof (rule keepsI)
  fix c r c'
  assume c: "clock_ok c" and t: "transaction body c = (r, c')"
  show "R c c'"
  proof (cases "fault c (calls c)")
    case True
    with t show ?thesis by (auto simp: transaction_def sql_def intro: rel_tick)
  next
    case False
    obtain r2 c2 where b: "body (tick c) = (r2, c2)" by fastforce
    with assms c have R: "R (tick c) c2" by (metis keepsD clock_ok_tick)
    then have "same_env c c2"
      by (meson env same_env_tick same_env_trans)
    then have undone: "R c (rollback_to (tick c) d)" if "d = c2 \<or> d = tick c2" for d
      using that by (intro quiet) (auto simp: same_tables_def intro!: same_env_rollback
          intro: same_env_trans)
    from R have "R c (tick c2)"
      by (meson compose rel_tick)
    with t False b undone show ?thesis
      by (auto simp: transaction_def sql_def return_db_def split: sum.splits tx.splits if_splits)
  qed
qed

lemmas keeps_rules = keeps_return keeps_fail keeps_lift keeps_now keeps_new
  keeps_bind keeps_map_err keeps_select keeps_with_result keeps_with
  keeps_transaction

end

end
