(* ===== verification/Ledger.thy ===== *)
theory Ledger
  imports Db
begin

text \<open>
  The hash-chained forensic log of \<open>src/ledger.rs\<close>: entries and their canonical form, the versioned
  entry hash, \<open>append_on_connection\<close>, \<open>verify\<close> and \<open>entries_for_agent\<close>.
\<close>

section \<open>Entries\<close>

definition GENESIS_PREV_HASH :: string where
  "GENESIS_PREV_HASH = replicate 64 (CHR ''0'')"

definition CURRENT_CHAIN_VERSION :: int where
  "CURRENT_CHAIN_VERSION = 1"

record ledger_entry =
  le_id :: uuid
  le_timestamp :: time
  le_agent_id :: string
  le_method :: string
  le_intent_category :: string
  le_authorized :: bool
  le_reasoning :: string
  le_policy_decision :: "json option"
  le_seq :: int
  le_prev_hash :: string
  le_entry_hash :: string
  le_chain_version :: int
  le_correlation_id :: "string option"

record log_request =
  lr_agent_id :: string
  lr_method :: string
  lr_intent_category :: string
  lr_authorized :: bool
  lr_reasoning :: string
  lr_policy_decision :: "json option"
  lr_correlation_id :: "string option"

record hashable_entry_v1 =
  he_id :: uuid
  he_timestamp :: time
  he_agent_id :: string
  he_method :: string
  he_intent_category :: string
  he_authorized :: bool
  he_reasoning :: string
  he_policy_decision :: "json option"
  he_seq :: int
  he_prev_hash :: string

text \<open>The derived \<open>Serialize\<close> of \<open>HashableEntryV1\<close>: the fields in declaration order.\<close>

definition hashable_json :: "lib \<Rightarrow> hashable_entry_v1 \<Rightarrow> json" where
  "hashable_json L h = JObj
     [(''id'', JStr (show_uuid L (he_id h))),
      (''timestamp'', JStr (json_time L (he_timestamp h))),
      (''agent_id'', JStr (he_agent_id h)),
      (''method'', JStr (he_method h)),
      (''intent_category'', JStr (he_intent_category h)),
      (''authorized'', JBool (he_authorized h)),
      (''reasoning'', JStr (he_reasoning h)),
      (''policy_decision'', jopt id (he_policy_decision h)),
      (''seq'', JNum (Integral (he_seq h))),
      (''prev_hash'', JStr (he_prev_hash h))]"

definition hash_input_v1 :: "lib \<Rightarrow> hashable_entry_v1 \<Rightarrow> string" where
  "hash_input_v1 L h = he_prev_hash h @ ''|'' @ print_json L (hashable_json L h)"

definition compute_entry_hash_v1 :: "lib \<Rightarrow> hashable_entry_v1 \<Rightarrow> string" where
  "compute_entry_hash_v1 L h = sha256_hex L (hash_input_v1 L h)"

definition hashable_of :: "ledger_entry \<Rightarrow> hashable_entry_v1" where
  "hashable_of e =
     \<lparr>he_id = le_id e, he_timestamp = le_timestamp e, he_agent_id = le_agent_id e,
      he_method = le_method e, he_intent_category = le_intent_category e,
      he_authorized = le_authorized e, he_reasoning = le_reasoning e,
      he_policy_decision = le_policy_decision e, he_seq = le_seq e,
      he_prev_hash = le_prev_hash e\<rparr>"

definition recompute_for_version :: "lib \<Rightarrow> int \<Rightarrow> ledger_entry \<Rightarrow> string option" where
  "recompute_for_version L version e =
     (if version = 1 then Some (compute_entry_hash_v1 L (hashable_of e)) else None)"

section \<open>Rows of the table entries\<close>

definition entry_to_row :: "lib \<Rightarrow> ledger_entry \<Rightarrow> entry_row" where
  "entry_to_row L e =
     \<lparr>er_id = show_uuid L (le_id e), er_seq = le_seq e,
      er_timestamp = show_time L (le_timestamp e), er_agent_id = le_agent_id e,
      er_method = le_method e, er_intent_category = le_intent_category e,
      er_authorized = (if le_authorized e then 1 else 0), er_reasoning = le_reasoning e,
      er_policy_decision = map_option (print_json L) (le_policy_decision e),
      er_prev_hash = le_prev_hash e, er_entry_hash = le_entry_hash e,
      er_chain_version = le_chain_version e, er_correlation_id = le_correlation_id e\<rparr>"

definition row_to_entry :: "lib \<Rightarrow> entry_row \<Rightarrow> (sql_error, ledger_entry) result" where
  "row_to_entry L r =
     and_then (ok_or (ConversionFailure 0) (parse_uuid L (er_id r))) (\<lambda>u.
     and_then (ok_or (ConversionFailure 2) (parse_time L (er_timestamp r))) (\<lambda>t.
       Inr \<lparr>le_id = u, le_timestamp = t, le_agent_id = er_agent_id r, le_method = er_method r,
            le_intent_category = er_intent_category r, le_authorized = (er_authorized r \<noteq> 0),
            le_reasoning = er_reasoning r,
            le_policy_decision = map_option
              (\<lambda>s. case parse_json L s of None \<Rightarrow> JNull | Some v \<Rightarrow> v) (er_policy_decision r),
            le_seq = er_seq r, le_prev_hash = er_prev_hash r, le_entry_hash = er_entry_hash r,
            le_chain_version = er_chain_version r,
            le_correlation_id = er_correlation_id r\<rparr>))"

section \<open>Append\<close>

text \<open>\<open>SELECT seq, entry_hash FROM entries ORDER BY seq DESC LIMIT 1\<close>, with \<open>seq + 1\<close>.\<close>

definition tail_query :: "conn \<Rightarrow> (int \<times> string) option" where
  "tail_query c =
     (case sort_key_desc er_seq (t_entries c) of
        [] \<Rightarrow> None
      | r # _ \<Rightarrow> Some (er_seq r + 1, er_entry_hash r))"

text \<open>The entry built from the request, with its hash filled in.\<close>

definition new_entry ::
    "lib \<Rightarrow> log_request \<Rightarrow> uuid \<Rightarrow> time \<Rightarrow> int \<Rightarrow> string \<Rightarrow> ledger_entry" where
  "new_entry L req u now next_seq prev_hash =
     (let entry = \<lparr>le_id = u, le_timestamp = now, le_agent_id = lr_agent_id req,
            le_method = lr_method req, le_intent_category = lr_intent_category req,
            le_authorized = lr_authorized req, le_reasoning = lr_reasoning req,
            le_policy_decision = lr_policy_decision req, le_seq = next_seq,
            le_prev_hash = prev_hash, le_entry_hash = [],
            le_chain_version = CURRENT_CHAIN_VERSION,
            le_correlation_id = lr_correlation_id req\<rparr>
      in entry\<lparr>le_entry_hash := the (recompute_for_version L (le_chain_version entry) entry)\<rparr>)"

text \<open>Any failure to read the tail counts as an empty ledger.\<close>

definition append_on_connection :: "lib \<Rightarrow> log_request \<Rightarrow> (sql_error, ledger_entry) db" where
  "append_on_connection L req c =
     (let (row, c1) = select tail_query c;
          (next_seq, prev_hash) = (case row of
              Inr (Some (s, h)) \<Rightarrow> (s, h)
            | _ \<Rightarrow> (1, GENESIS_PREV_HASH))
      in bind_db new_v4 (\<lambda>u.
         bind_db utc_now (\<lambda>now.
           let entry = new_entry L req u now next_seq prev_hash
           in bind_db (insert_entry (entry_to_row L entry)) (\<lambda>_. return_db entry))) c1)"

definition append_ledger :: "lib \<Rightarrow> log_request \<Rightarrow> (sql_error, ledger_entry) db" where
  "append_ledger L req = with_connection (append_on_connection L req)"

section \<open>Verify and audit\<close>

record verify_result =
  vr_valid :: bool
  vr_entries_checked :: nat
  vr_first_invalid_seq :: "int option"
  vr_unsupported_chain_version :: "int option"

fun verify_walk ::
    "lib \<Rightarrow> string \<Rightarrow> nat \<Rightarrow> entry_row list \<Rightarrow> (sql_error, verify_result) result" where
  "verify_walk L expected_prev checked [] =
     Inr \<lparr>vr_valid = True, vr_entries_checked = checked, vr_first_invalid_seq = None,
          vr_unsupported_chain_version = None\<rparr>"
| "verify_walk L expected_prev checked (row # rows) =
     (case row_to_entry L row of
        Inl e \<Rightarrow> Inl e
      | Inr entry \<Rightarrow>
          (case recompute_for_version L (le_chain_version entry) entry of
             None \<Rightarrow> Inr \<lparr>vr_valid = False, vr_entries_checked = checked,
                          vr_first_invalid_seq = None,
                          vr_unsupported_chain_version = Some (le_chain_version entry)\<rparr>
           | Some recomputed \<Rightarrow>
               if le_prev_hash entry \<noteq> expected_prev \<or> recomputed \<noteq> le_entry_hash entry
               then Inr \<lparr>vr_valid = False, vr_entries_checked = checked,
                         vr_first_invalid_seq = Some (le_seq entry),
                         vr_unsupported_chain_version = None\<rparr>
               else verify_walk L (le_entry_hash entry) (Suc checked) rows))"

definition verify_rows :: "lib \<Rightarrow> entry_row list \<Rightarrow> (sql_error, verify_result) result" where
  "verify_rows L rows = verify_walk L GENESIS_PREV_HASH 0 (sort_key er_seq rows)"

definition verify :: "lib \<Rightarrow> (sql_error, verify_result) db" where
  "verify L = with_connection (bind_db (select t_entries) (\<lambda>rows. lift_result (verify_rows L rows)))"

definition entries_for_agent :: "lib \<Rightarrow> string \<Rightarrow> (sql_error, ledger_entry list) db" where
  "entries_for_agent L agent = with_connection
     (bind_db (select (\<lambda>c. sort_key er_seq (filter (\<lambda>r. er_agent_id r = agent) (t_entries c))))
        (\<lambda>rows. lift_result (collect_results (row_to_entry L) rows)))"

section \<open>The chain invariant\<close>

text \<open>
  \<open>chain_from L n p rows\<close>: the rows, in insertion order, carry the sequence numbers \<open>n, n + 1, \<dots>\<close>,
  the first one continues the hash \<open>p\<close>, and each row recomputes to its stored hash.
\<close>

fun chain_from :: "lib \<Rightarrow> int \<Rightarrow> string \<Rightarrow> entry_row list \<Rightarrow> bool" where
  "chain_from L n p [] \<longleftrightarrow> True"
| "chain_from L n p (r # rs) \<longleftrightarrow>
     (case row_to_entry L r of
        Inl _ \<Rightarrow> False
      | Inr e \<Rightarrow> le_seq e = n \<and> le_prev_hash e = p \<and>
          recompute_for_version L (le_chain_version e) e = Some (le_entry_hash e)) \<and>
     chain_from L (n + 1) (er_entry_hash r) rs"

definition chain_ok :: "lib \<Rightarrow> entry_row list \<Rightarrow> bool" where
  "chain_ok L rows = chain_from L 1 GENESIS_PREV_HASH rows"

definition chain_head :: "string \<Rightarrow> entry_row list \<Rightarrow> string" where
  "chain_head p rows = (if rows = [] then p else er_entry_hash (last rows))"

lemma row_to_entry_sel:
  "row_to_entry L r = Inr e \<Longrightarrow>
     le_seq e = er_seq r \<and> le_prev_hash e = er_prev_hash r \<and> le_entry_hash e = er_entry_hash r \<and>
     le_chain_version e = er_chain_version r"
  by (auto simp: row_to_entry_def)

lemma chain_from_append:
  "chain_from L n p (rs @ rs') \<longleftrightarrow>
     chain_from L n p rs \<and> chain_from L (n + int (length rs)) (chain_head p rs) rs'"
  by (induction rs arbitrary: n p)
     (auto simp: chain_head_def algebra_simps split: sum.splits)

lemma chain_from_seqs:
  "chain_from L n p rs \<Longrightarrow> map er_seq rs = map (\<lambda>i. n + int i) [0..<length rs]"
proof (induction rs arbitrary: n p)
  case Nil
  show ?case by simp
next
  case (Cons r rs)
  then have "er_seq r = n"
    by (auto dest: row_to_entry_sel split: sum.splits)
  moreover from Cons have "map er_seq rs = map (\<lambda>i. (n + 1) + int i) [0..<length rs]"
    by (auto split: sum.splits)
  ultimately show ?case
    by (simp add: upt_conv_Cons map_Suc_upt [symmetric] algebra_simps del: upt_Suc)
qed

lemma chain_from_sorted: "chain_from L n p rs \<Longrightarrow> sort_key er_seq rs = rs"
  using chain_from_seqs [of L n p rs]
  by (intro sort_key_id_if_sorted) (simp add: sorted_iff_nth_mono)

end
