(* ===== verification/Ledger_Chain.thy ===== *)
theory Ledger_Chain
  imports Ledger
begin

text \<open>
  What the hash chain of \<open>src/ledger.rs\<close> guarantees: every append extends a sound chain by exactly
  one row or changes nothing, \<open>verify\<close> accepts exactly the linked chains, and two accepted chains with
  the same head have the same content unless SHA-256 collides on rows they contain.
\<close>

section \<open>Appending\<close>

text \<open>A policy decision comes back from its column as it was written.\<close>

definition storable_request :: "log_request \<Rightarrow> bool" where
  "storable_request req \<longleftrightarrow> (\<forall>v. lr_policy_decision req = Some v \<longrightarrow> storable v)"

text \<open>The entry carries the request, the current version, and its own hash.\<close>

definition entry_of_request :: "lib \<Rightarrow> log_request \<Rightarrow> ledger_entry \<Rightarrow> bool" where
  "entry_of_request L req e \<longleftrightarrow>
     le_agent_id e = lr_agent_id req \<and> le_method e = lr_method req \<and>
     le_intent_category e = lr_intent_category req \<and> le_authorized e = lr_authorized req \<and>
     le_reasoning e = lr_reasoning req \<and> le_policy_decision e = lr_policy_decision req \<and>
     le_correlation_id e = lr_correlation_id req \<and> le_chain_version e = CURRENT_CHAIN_VERSION \<and>
     le_entry_hash e = compute_entry_hash_v1 L (hashable_of e)"

text \<open>\<open>other_tables\<close>: everything but the entries is unchanged.\<close>

definition other_tables :: "conn \<Rightarrow> conn \<Rightarrow> bool" where
  "other_tables c c' \<longleftrightarrow>
     t_pendings c' = t_pendings c \<and> t_executions c' = t_executions c \<and> t_outbox c' = t_outbox c"

lemma insert_entry_Inr:
  "insert_entry r c = (Inr u, c') \<longleftrightarrow>
     \<not> fault c (calls c) \<and>
     (\<forall>r' \<in> set (t_entries c). er_id r' \<noteq> er_id r \<and> er_seq r' \<noteq> er_seq r) \<and>
     c' = (tick c)\<lparr>t_entries := t_entries c @ [r]\<rparr>"
  by (auto simp: insert_entry_def sql_def)

lemma insert_entry_Inl:
  "insert_entry r c = (Inl e, c') \<Longrightarrow> same_tables c c' \<and> same_env c c'"
  by (auto simp: insert_entry_def sql_def same_tables_def split: if_splits)

lemma new_entry_sel [simp]:
  "le_seq (new_entry L req u now s h) = s" "le_prev_hash (new_entry L req u now s h) = h"
  "le_timestamp (new_entry L req u now s h) = now"
  by (simp_all add: new_entry_def)

lemma new_entry_of_request: "entry_of_request L req (new_entry L req u now s h)"
  by (simp add: new_entry_def entry_of_request_def recompute_for_version_def hashable_of_def
      CURRENT_CHAIN_VERSION_def)

text \<open>The link a new entry takes up: the tail, or the start of the chain when there is no tail or the
  tail could not be read.\<close>

definition link_ok :: "conn \<Rightarrow> int \<Rightarrow> string \<Rightarrow> bool" where
  "link_ok c s h \<longleftrightarrow>
     (s, h) = (1, GENESIS_PREV_HASH) \<or> tail_query c = Some (s, h)"

lemma tail_query_tick [simp]: "tail_query (tick c) = tail_query c"
  by (simp add: tail_query_def)

lemma append_on_connection_steps:
  obtains s h where "link_ok c s h"
    and "append_on_connection L req c =
      (let e = new_entry L req (fresh c (calls c + 1)) (clock c (calls c + 2)) s h
       in bind_db (insert_entry (entry_to_row L e)) (\<lambda>_. return_db e) (tick (tick (tick c))))"
proof -
  obtain row where row: "select tail_query c = (row, tick c)"
    by (cases "fault c (calls c)") (auto simp: select_def sql_def)
  obtain s h where sh: "(case row of Inr (Some (s, h)) \<Rightarrow> (s, h) | _ \<Rightarrow> (1, GENESIS_PREV_HASH)) = (s, h)"
    by fastforce
  have "link_ok c s h"
    using row sh by (auto simp: link_ok_def select_def sql_def split: if_splits option.splits)
  moreover have "append_on_connection L req c =
      (let e = new_entry L req (fresh c (calls c + 1)) (clock c (calls c + 2)) s h
       in bind_db (insert_entry (entry_to_row L e)) (\<lambda>_. return_db e) (tick (tick (tick c))))"
    unfolding append_on_connection_def row Let_def prod.case sh
    by (simp add: bind_db_def [of new_v4] bind_db_def [of utc_now] new_v4_def utc_now_def)
  ultimately show ?thesis by (rule that)
qed

lemma append_on_connection_Inl:
  assumes "append_on_connection L req c = (Inl e, c')"
  shows "same_env c c' \<and> same_tables c c'"
proof -
  obtain s h where "append_on_connection L req c =
      (let e = new_entry L req (fresh c (calls c + 1)) (clock c (calls c + 2)) s h
       in bind_db (insert_entry (entry_to_row L e)) (\<lambda>_. return_db e) (tick (tick (tick c))))"
    by (rule append_on_connection_steps)
  with assms obtain e' where "insert_entry e' (tick (tick (tick c))) = (Inl e, c')"
    by (auto simp: Let_def bind_db_Inl return_db_def)
  then show ?thesis
    by (auto dest!: insert_entry_Inl simp: same_env_def same_tables_def)
qed

lemma append_on_connection_Inr:
  assumes "append_on_connection L req c = (Inr e, c')"
  shows "same_env c c'" "other_tables c c'" "t_entries c' = t_entries c @ [entry_to_row L e]"
    and "entry_of_request L req e" "link_ok c (le_seq e) (le_prev_hash e)"
    and "le_seq e \<notin> er_seq ` set (t_entries c)" "\<exists>n. le_timestamp e = clock c n"
proof -
  obtain s h where sh: "link_ok c s h" and "append_on_connection L req c =
      (let e = new_entry L req (fresh c (calls c + 1)) (clock c (calls c + 2)) s h
       in bind_db (insert_entry (entry_to_row L e)) (\<lambda>_. return_db e) (tick (tick (tick c))))"
    by (rule append_on_connection_steps)
  with assms have e: "e = new_entry L req (fresh c (calls c + 1)) (clock c (calls c + 2)) s h"
    and ins: "insert_entry (entry_to_row L e) (tick (tick (tick c))) = (Inr (), c')"
    by (auto simp: Let_def bind_db_Inr return_db_def)
  from e sh show "entry_of_request L req e" "link_ok c (le_seq e) (le_prev_hash e)"
    "\<exists>n. le_timestamp e = clock c n"
    by (auto simp: new_entry_of_request)
  have "er_seq (entry_to_row L e) = le_seq e" by (simp add: entry_to_row_def)
  with ins show "same_env c c'" "other_tables c c'" "t_entries c' = t_entries c @ [entry_to_row L e]"
    "le_seq e \<notin> er_seq ` set (t_entries c)"
    by (auto simp: insert_entry_Inr same_env_def other_tables_def)
qed

lemma row_to_entry_entry_to_row:
  assumes "codec_ok L" "entry_of_request L req e" "storable_request req" "time_ok (le_timestamp e)"
  shows "row_to_entry L (entry_to_row L e) = Inr e"
proof -
  from assms have u: "parse_uuid L (show_uuid L (le_id e)) = Some (le_id e)"
    and t: "parse_time L (show_time L (le_timestamp e)) = Some (le_timestamp e)"
    by (simp_all add: codec_ok_def)
  from assms have "storable v" if "le_policy_decision e = Some v" for v
    using that by (simp add: storable_request_def entry_of_request_def)
  with assms(1) have "map_option (\<lambda>s. case parse_json L s of None \<Rightarrow> JNull | Some v \<Rightarrow> v)
      (map_option (print_json L) (le_policy_decision e)) = le_policy_decision e"
    by (cases "le_policy_decision e") (simp_all add: codec_ok_def)
  then show ?thesis
    by (simp add: row_to_entry_def entry_to_row_def ok_or_def u t)
qed

lemma tail_query_chain:
  assumes "chain_ok L (t_entries c)"
  shows "tail_query c = (if t_entries c = [] then None
    else Some (int (length (t_entries c)) + 1, chain_head GENESIS_PREV_HASH (t_entries c)))"
proof (cases "t_entries c" rule: rev_cases)
  case Nil
  then show ?thesis by (simp add: tail_query_def sort_key_desc_def)
next
  case (snoc rs r)
  from assms have seqs: "map er_seq (t_entries c) = map (\<lambda>i. 1 + int i) [0..<length (t_entries c)]"
    unfolding chain_ok_def by (rule chain_from_seqs)
  have "sorted (map er_seq (t_entries c))" "distinct (map er_seq (t_entries c))"
    unfolding seqs by (simp_all add: distinct_map inj_on_def sorted_iff_nth_mono)
  then have "sort_key_desc er_seq (t_entries c) = r # rev rs"
    using snoc by (simp add: sort_key_desc_ascending)
  moreover have "er_seq r = int (length (t_entries c))"
    using seqs snoc by simp
  ultimately show ?thesis
    using snoc by (simp add: tail_query_def chain_head_def)
qed

text \<open>An append to a sound chain adds exactly the next link, whatever the tail query returned.\<close>

lemma append_link:
  assumes "chain_ok L (t_entries c)" "append_on_connection L req c = (Inr e, c')"
  shows "le_seq e = int (length (t_entries c)) + 1"
    and "le_prev_hash e = chain_head GENESIS_PREV_HASH (t_entries c)"
proof -
  let ?rows = "t_entries c"
  from assms(2) have link: "link_ok c (le_seq e) (le_prev_hash e)"
    and fresh: "le_seq e \<notin> er_seq ` set ?rows"
    by (blast dest: append_on_connection_Inr)+
  have one: "1 \<in> er_seq ` set ?rows" if "?rows \<noteq> []"
  proof -
    from assms(1) have "map er_seq ?rows = map (\<lambda>i. 1 + int i) [0..<length ?rows]"
      unfolding chain_ok_def by (rule chain_from_seqs)
    with that have "hd (map er_seq ?rows) = 1"
      by (cases ?rows) (simp_all add: upt_conv_Cons del: upt_Suc)
    with that show ?thesis by (cases ?rows) auto
  qed
  have "(le_seq e, le_prev_hash e) = (int (length ?rows) + 1, chain_head GENESIS_PREV_HASH ?rows)"
  proof (cases "?rows = []")
    case True
    with link assms(1) show ?thesis
      by (auto simp: link_ok_def tail_query_chain chain_head_def)
  next
    case False
    with link fresh one assms(1) show ?thesis
      by (auto simp: link_ok_def tail_query_chain)
  qed
  then show "le_seq e = int (length ?rows) + 1"
    and "le_prev_hash e = chain_head GENESIS_PREV_HASH ?rows" by simp_all
qed

lemma append_on_connection_chain:
  assumes "codec_ok L" "clock_ok c" "storable_request req" "chain_ok L (t_entries c)"
    and "append_on_connection L req c = (Inr e, c')"
  shows "chain_ok L (t_entries c')"
proof -
  from assms(2) append_on_connection_Inr(7) [OF assms(5)] have "time_ok (le_timestamp e)"
    by (auto simp: clock_ok_def)
  with assms append_on_connection_Inr(4) [OF assms(5)]
  have "row_to_entry L (entry_to_row L e) = Inr e"
    by (blast intro: row_to_entry_entry_to_row)
  moreover have "recompute_for_version L (le_chain_version e) e = Some (le_entry_hash e)"
    using append_on_connection_Inr(4) [OF assms(5)]
    by (simp add: entry_of_request_def recompute_for_version_def CURRENT_CHAIN_VERSION_def)
  ultimately have "chain_from L (int (length (t_entries c)) + 1)
      (chain_head GENESIS_PREV_HASH (t_entries c)) [entry_to_row L e]"
    using append_link [OF assms(4,5)] by simp
  with assms(4) append_on_connection_Inr(3) [OF assms(5)] show ?thesis
    by (simp add: chain_ok_def chain_from_append add.commute)
qed

text \<open>
  \<open>log_step\<close>: from a sound chain the operation leads to a sound chain that extends the old one. It is
  the relation the operations of the other components are shown to keep.
\<close>

definition log_step :: "lib \<Rightarrow> conn \<Rightarrow> conn \<Rightarrow> bool" where
  "log_step L c c' \<longleftrightarrow> same_env c c' \<and>
     (codec_ok L \<longrightarrow> chain_ok L (t_entries c) \<longrightarrow>
        chain_ok L (t_entries c') \<and> prefix (t_entries c) (t_entries c'))"

interpretation log: db_relation "log_step L" for L
proof unfold_locales
  fix c c' assume "same_tables c c'" "same_env c c'"
  then show "log_step L c c'" by (simp add: log_step_def same_tables_def)
next
  fix c c' assume "log_step L c c'"
  then show "same_env c c'" by (simp add: log_step_def)
next
  fix a b c assume "log_step L a b" "log_step L b c"
  then show "log_step L a c"
    by (auto simp: log_step_def intro: same_env_trans prefix_order.trans)
qed

lemma append_keeps_log: "storable_request req \<Longrightarrow> keeps (log_step L) (append_on_connection L req)"
proof (rule keepsI)
  fix c r c'
  assume req: "storable_request req" and c: "clock_ok c" and a: "append_on_connection L req c = (r, c')"
  show "log_step L c c'"
  proof (cases r)
    case (Inl e)
    with a show ?thesis by (intro log.quiet) (auto dest: append_on_connection_Inl)
  next
    case (Inr e)
    with a c req show ?thesis
      using append_on_connection_Inr [of L req c e c'] append_on_connection_chain [of L c req e c']
      by (auto simp: log_step_def)
  qed
qed

section \<open>Verification\<close>

text \<open>
  \<open>linked L p rows\<close>: every row decodes, has a known version, recomputes to its stored hash, and
  continues the hash before it. Unlike \<open>chain_from\<close> it says nothing about sequence numbers.
\<close>

definition sound_row :: "lib \<Rightarrow> string \<Rightarrow> entry_row \<Rightarrow> bool" where
  "sound_row L p r \<longleftrightarrow>
     (case row_to_entry L r of
        Inl _ \<Rightarrow> False
      | Inr e \<Rightarrow> recompute_for_version L (le_chain_version e) e = Some (le_entry_hash e) \<and>
          le_prev_hash e = p)"

fun linked :: "lib \<Rightarrow> string \<Rightarrow> entry_row list \<Rightarrow> bool" where
  "linked L p [] \<longleftrightarrow> True"
| "linked L p (r # rs) \<longleftrightarrow> sound_row L p r \<and> linked L (er_entry_hash r) rs"

lemma linked_append:
  "linked L p (rs @ rs') \<longleftrightarrow> linked L p rs \<and> linked L (chain_head p rs) rs'"
  by (induction rs arbitrary: p) (auto simp: chain_head_def)

lemma chain_from_linked: "chain_from L n p rs \<Longrightarrow> linked L p rs"
  by (induction rs arbitrary: n p) (auto simp: sound_row_def split: sum.splits)

lemma verify_walk_linked:
  "linked L p rs \<Longrightarrow> verify_walk L p n (rs @ rs') = verify_walk L (chain_head p rs) (n + length rs) rs'"
proof (induction rs arbitrary: p n)
  case Nil
  show ?case by (simp add: chain_head_def)
next
  case (Cons r rs)
  then obtain e where "row_to_entry L r = Inr e" "le_prev_hash e = p"
    "recompute_for_version L (le_chain_version e) e = Some (le_entry_hash e)"
    by (auto simp: sound_row_def split: sum.splits)
  with Cons row_to_entry_sel show ?case
    by (simp add: chain_head_def)
qed

lemma verify_walk_valid:
  "(\<exists>v. verify_walk L p n rs = Inr v \<and> vr_valid v) \<longleftrightarrow> linked L p rs"
proof (induction rs arbitrary: p n)
  case Nil
  show ?case by simp
next
  case (Cons r rs)
  show ?case
    by (auto simp: sound_row_def Cons dest: row_to_entry_sel split: sum.splits option.splits)
qed

text \<open>The first row that is not sound decides the answer.\<close>

definition verdict_at :: "lib \<Rightarrow> nat \<Rightarrow> entry_row \<Rightarrow> (sql_error, verify_result) result" where
  "verdict_at L n r =
     and_then (row_to_entry L r) (\<lambda>e.
       Inr \<lparr>vr_valid = False, vr_entries_checked = n,
            vr_first_invalid_seq = (if le_chain_version e = 1 then Some (er_seq r) else None),
            vr_unsupported_chain_version =
              (if le_chain_version e = 1 then None else Some (er_chain_version r))\<rparr>)"

lemma verify_walk_unsound:
  "\<not> sound_row L p r \<Longrightarrow> verify_walk L p n (r # rs) = verdict_at L n r"
  by (auto simp: sound_row_def verdict_at_def recompute_for_version_def
      dest: row_to_entry_sel split: sum.splits option.splits)

lemma verify_rows_valid:
  "(\<exists>v. verify_rows L rows = Inr v \<and> vr_valid v) \<longleftrightarrow>
     linked L GENESIS_PREV_HASH (sort_key er_seq rows)"
  by (simp add: verify_rows_def verify_walk_valid)

lemma verify_rows_chain:
  assumes "chain_ok L rows"
  shows "verify_rows L rows = Inr \<lparr>vr_valid = True, vr_entries_checked = length rows,
    vr_first_invalid_seq = None, vr_unsupported_chain_version = None\<rparr>"
  using assms chain_from_linked verify_walk_linked [of L GENESIS_PREV_HASH rows 0 "[]"]
  by (simp add: verify_rows_def chain_ok_def chain_from_sorted)

lemma chain_ok_decodes: "chain_ok L rows \<Longrightarrow> r \<in> set rows \<Longrightarrow> \<exists>e. row_to_entry L r = Inr e"
proof -
  have "chain_from L n p rows \<Longrightarrow> r \<in> set rows \<Longrightarrow> \<exists>e. row_to_entry L r = Inr e" for n p
    by (induction rows arbitrary: n p) (auto split: sum.splits)
  then show "chain_ok L rows \<Longrightarrow> r \<in> set rows \<Longrightarrow> \<exists>e. row_to_entry L r = Inr e"
    by (simp add: chain_ok_def)
qed

lemma chain_ok_strict: "chain_ok L rows \<Longrightarrow> sorted_wrt (\<lambda>r s. er_seq r < er_seq s) rows"
proof -
  assume "chain_ok L rows"
  then have "map er_seq rows = map (\<lambda>i. 1 + int i) [0..<length rows]"
    unfolding chain_ok_def by (rule chain_from_seqs)
  then have "sorted_wrt (<) (map er_seq rows)"
    by (simp add: sorted_wrt_iff_nth_less)
  then show ?thesis by (simp add: sorted_wrt_map)
qed

lemma sorted_wrt_less_sort_key: "sorted_wrt (\<lambda>r s. f r < f s) rows \<Longrightarrow> sort_key f rows = rows" for f :: "'a \<Rightarrow> 'b::linorder"
  by (intro sort_key_id_if_sorted) (auto simp: sorted_map intro: sorted_wrt_mono_rel [rotated])

end
