(* ===== verification/Sample.thy ===== *)
theory Sample
  imports Db "HOL-Library.Countable"
begin

text \<open>
  A concrete platform, for evaluating the program on concrete inputs: codecs that invert each other,
  a digest without collisions, and a table of parsed bodies and URLs. It satisfies every hypothesis
  that the theorems make on third-party code.
\<close>

instance json_number :: countable
  by countable_datatype

instance json :: countable
  by countable_datatype

definition hex_digit :: "nat \<Rightarrow> char" where
  "hex_digit n = ''0123456789abcdef'' ! n"

definition hex_byte :: "char \<Rightarrow> string" where
  "hex_byte c = [hex_digit ((of_char c :: nat) div 16), hex_digit ((of_char c :: nat) mod 16)]"

definition marks :: "nat \<Rightarrow> string" where
  "marks n = replicate n (CHR ''x'')"

definition year_zero :: int where
  "year_zero = - 62167219200000000000"

definition sample_parse :: "(string \<times> json) list \<Rightarrow> string \<Rightarrow> json option" where
  "sample_parse bodies s =
     (if take 1 s = ''#'' then
        (let v = from_nat (length s - 1) in if json_wf v then Some v else None)
      else map_of bodies s)"

text \<open>Bodies and URLs that are not in the tables do not parse; \<open>rules\<close> answers for the Rego engine.\<close>

definition sample_lib ::
    "(string \<times> json) list \<Rightarrow> (string \<times> url) list \<Rightarrow>
     (time \<Rightarrow> string \<Rightarrow> string \<Rightarrow> (string, rego_value) result) \<Rightarrow> lib" where
  "sample_lib bodies urls rules =
     \<lparr>sha256_hex = (\<lambda>s. concat (map hex_byte s)),
      parse_json = sample_parse bodies,
      print_json = (\<lambda>v. CHR ''#'' # marks (to_nat v)),
      parse_uuid = (\<lambda>s. if set s \<subseteq> {CHR ''x''} then Some (word_of_nat (length s)) else None),
      show_uuid = (\<lambda>u. marks (unat u)),
      uuid_v5 = (\<lambda>s. word_of_nat (length s)),
      parse_time = (\<lambda>s. if set s \<subseteq> {CHR ''x''} then Some (int (length s) + year_zero) else None),
      show_time = (\<lambda>t. marks (nat (t - year_zero))),
      json_time = (\<lambda>t. marks (to_nat t)),
      show_millis = (\<lambda>t. []),
      parse_url = map_of urls,
      show_url = (\<lambda>u. u_scheme u @ ''://'' @ u_path u),
      join_url = (\<lambda>u s. map_of urls s),
      port_or_default = u_port,
      set_host = (\<lambda>u h. Some (u\<lparr>u_host := (case u_host u of Some (Domain _) \<Rightarrow> Some (Domain h) | x \<Rightarrow> x)\<rparr>)),
      set_path = (\<lambda>u p. u\<lparr>u_path := p\<rparr>),
      show_ip = (\<lambda>a. []),
      set_input_json = (\<lambda>s. Inr ()),
      eval_rule = rules\<rparr>"

definition no_rules :: "time \<Rightarrow> string \<Rightarrow> string \<Rightarrow> (string, rego_value) result" where
  "no_rules now rule inp = Inl ''undefined''"

definition lib0 :: lib where
  "lib0 = sample_lib [] [] no_rules"

text \<open>A fresh database whose storage never fails and whose clock ticks in nanoseconds for a second.\<close>

definition conn0 :: conn where
  "conn0 = \<lparr>clock = (\<lambda>n. min (int n) 1000000000), fresh = word_of_nat, fault = (\<lambda>n. False), calls = 0,
     instance_id = ''this'', t_entries = [], t_pendings = [], t_executions = [], t_outbox = []\<rparr>"

lemma json_exact_wf: "json_exact v \<Longrightarrow> json_wf v"
  by (induction v rule: json_wf.induct) auto

lemma set_marks [simp]: "set (marks n) \<subseteq> {CHR ''x''}" and length_marks [simp]: "length (marks n) = n"
  by (auto simp: marks_def)

lemma marks_inj [simp]: "marks m = marks n \<longleftrightarrow> m = n"
  by (metis length_marks)

lemma marks_less: "marks m < marks n \<longleftrightarrow> m < n"
proof (induction m arbitrary: n)
  case 0
  show ?case by (cases n) (simp_all add: marks_def)
next
  case (Suc m)
  then show ?case by (cases n) (simp_all add: marks_def)
qed

lemma marks_le: "marks m \<le> marks n \<longleftrightarrow> m \<le> n"
  by (metis marks_less linorder_not_less)

lemma sample_codec: "codec_ok (sample_lib bodies urls rules)"
  by (auto simp: codec_ok_def sample_lib_def sample_parse_def storable_def json_exact_wf time_ok_def
      year_zero_def)

lemma sample_time_order: "time_order_ok (sample_lib bodies urls rules)"
  by (auto simp: time_order_ok_def sample_lib_def marks_less time_ok_def year_zero_def)

lemma sample_print_inj:
  "(\<forall>v \<in> snd ` set bodies. json_wf v) \<Longrightarrow> print_inj (sample_lib bodies urls rules)"
  by (force simp: print_inj_def sample_lib_def sample_parse_def inj_on_def Let_def
      split: if_splits dest: map_of_SomeD simp: word_unat_eq_iff)

lemma sample_hex: "hex_digest (sample_lib bodies urls rules)"
proof -
  have d: "hex_digit n \<in> set ''0123456789abcdef''" if "n < 16" for n
    using that unfolding hex_digit_def by (intro nth_mem) simp
  have "(of_char c :: nat) div 16 < 16" for c
    using nat_of_char_less_256 [of c] by (simp add: div_less_iff_less_mult)
  with d have "set (hex_byte c) \<subseteq> set ''0123456789abcdef''" for c
    unfolding hex_byte_def by (metis empty_subsetI insert_subset list.set mod_less_divisor zero_less_numeral)
  then show ?thesis by (fastforce simp: hex_digest_def sample_lib_def)
qed

lemma conn0_clock: "clock_ok conn0"
  by (auto simp: clock_ok_def conn0_def time_ok_def min_def)

lemmas sample_ok = sample_codec sample_time_order sample_hex

end
