(* ===== verification/Ledger_Tamper.thy ===== *)
theory Ledger_Tamper
  imports Ledger_Chain Sample
begin

text \<open>
  Tamper evidence of the hash chain, and the properties of append, verify and audit.
\<close>

section \<open>Two accepted chains with one head\<close>

text \<open>What the hash of a row covers: every hashed field; an absent policy decision counts as null.\<close>

definition canonical :: "hashable_entry_v1 \<Rightarrow> hashable_entry_v1" where
  "canonical h = h\<lparr>he_policy_decision := Some (jopt id (he_policy_decision h))\<rparr>"

definition content :: "lib \<Rightarrow> entry_row \<Rightarrow> hashable_entry_v1 option" where
  "content L r =
     (case row_to_entry L r of Inl _ \<Rightarrow> None | Inr e \<Rightarrow> Some (canonical (hashable_of e)))"

definition row_hash_input :: "lib \<Rightarrow> entry_row \<Rightarrow> string" where
  "row_hash_input L r =
     (case row_to_entry L r of Inl _ \<Rightarrow> [] | Inr e \<Rightarrow> hash_input_v1 L (hashable_of e))"

text \<open>
  A break of SHA-256 that can be read off the rows: two different hash inputs with one digest, or an
  input whose digest is the genesis constant of 64 zeros.
\<close>

definition sha_broken :: "lib \<Rightarrow> entry_row set \<Rightarrow> bool" where
  "sha_broken L R \<longleftrightarrow>
     (\<exists>r \<in> R. \<exists>s \<in> R. row_hash_input L r \<noteq> row_hash_input L s \<and>
        sha256_hex L (row_hash_input L r) = sha256_hex L (row_hash_input L s)) \<or>
     (\<exists>r \<in> R. sha256_hex L (row_hash_input L r) = GENESIS_PREV_HASH)"

lemma sound_row_hash:
  "sound_row L p r \<Longrightarrow> er_entry_hash r = sha256_hex L (row_hash_input L r)"
  by (auto simp: sound_row_def row_hash_input_def recompute_for_version_def compute_entry_hash_v1_def
      dest: row_to_entry_sel split: sum.splits if_splits)

lemma sound_row_prev: "sound_row L p r \<Longrightarrow> er_prev_hash r = p"
  by (auto simp: sound_row_def dest: row_to_entry_sel split: sum.splits)

lemma hash_input_inj:
  assumes "print_inj L" "json_wf (hashable_json L h)" "json_wf (hashable_json L h')"
    and "CHR ''|'' \<notin> set (he_prev_hash h)" "CHR ''|'' \<notin> set (he_prev_hash h')"
    and "hash_input_v1 L h = hash_input_v1 L h'"
  shows "canonical h = canonical h'"
proof -
  have s: "split_once (CHR ''|'') (hash_input_v1 L g) = Some (he_prev_hash g, print_json L (hashable_json L g))"
    if "CHR ''|'' \<notin> set (he_prev_hash g)" for g
    using split_once_append [OF that] by (simp add: hash_input_v1_def)
  from s [OF assms(4)] s [OF assms(5)] assms(6)
  have "print_json L (hashable_json L h) = print_json L (hashable_json L h')" by simp
  with assms(1-3) have "hashable_json L h = hashable_json L h'"
    by (auto simp: print_inj_def inj_on_def)
  with assms(1) show ?thesis
    by (auto simp: canonical_def hashable_json_def print_inj_def inj_eq)
qed

lemma row_json_wf:
  assumes "print_inj L" "int_ok (er_seq r)" "row_to_entry L r = Inr e"
  shows "json_wf (hashable_json L (hashable_of e))"
proof -
  from assms(1,3) have "json_wf (jopt id (le_policy_decision e))"
    by (auto simp: row_to_entry_def jopt_def print_inj_def split: option.splits)
  with assms(2) row_to_entry_sel [OF assms(3)] show ?thesis
    by (simp add: hashable_json_def hashable_of_def)
qed

lemma same_input_same_content:
  assumes "print_inj L" "sound_row L p r" "sound_row L q s" "int_ok (er_seq r)" "int_ok (er_seq s)"
    and "CHR ''|'' \<notin> set p" "CHR ''|'' \<notin> set q" "row_hash_input L r = row_hash_input L s"
  shows "content L r = content L s \<and> p = q"
proof -
  from assms(2,3) obtain e f where e: "row_to_entry L r = Inr e" "le_prev_hash e = p"
    and f: "row_to_entry L s = Inr f" "le_prev_hash f = q"
    by (auto simp: sound_row_def split: sum.splits)
  then have "canonical (hashable_of e) = canonical (hashable_of f)"
    using assms row_json_wf [OF assms(1)]
    by (intro hash_input_inj [OF assms(1)]) (auto simp: hashable_of_def row_hash_input_def)
  moreover from this have "p = q"
    using e f by (simp add: canonical_def hashable_of_def)
  ultimately show ?thesis using e f by (simp add: content_def)
qed

lemma chain_head_plain:
  assumes "hex_digest L" "linked L GENESIS_PREV_HASH rs"
  shows "CHR ''|'' \<notin> set (chain_head GENESIS_PREV_HASH rs)"
proof (cases rs rule: rev_cases)
  case Nil
  then show ?thesis by (auto simp: chain_head_def GENESIS_PREV_HASH_def)
next
  case (snoc xs x)
  with assms(2) have "er_entry_hash x = sha256_hex L (row_hash_input L x)"
    by (auto simp: linked_append intro: sound_row_hash)
  with snoc have head: "chain_head GENESIS_PREV_HASH rs = sha256_hex L (row_hash_input L x)"
    by (simp add: chain_head_def)
  have "set (sha256_hex L (row_hash_input L x)) \<subseteq> set ''0123456789abcdef''"
    using assms(1) unfolding hex_digest_def by blast
  moreover have "CHR ''|'' \<notin> set ''0123456789abcdef''" by simp
  ultimately show ?thesis unfolding head by blast
qed

lemma not_sha_brokenD:
  assumes "\<not> sha_broken L R" "r \<in> R" "s \<in> R"
    and "sha256_hex L (row_hash_input L r) = sha256_hex L (row_hash_input L s)"
  shows "row_hash_input L r = row_hash_input L s"
  using assms unfolding sha_broken_def by blast

lemma sha_broken_mono: "sha_broken L R \<Longrightarrow> R \<subseteq> R' \<Longrightarrow> sha_broken L R'"
  unfolding sha_broken_def by blast

lemma linked_same_head:
  assumes "hex_digest L" "print_inj L" "\<not> sha_broken L (set rs \<union> set rs')"
    and "linked L GENESIS_PREV_HASH rs" "linked L GENESIS_PREV_HASH rs'"
    and "\<forall>r \<in> set rs \<union> set rs'. int_ok (er_seq r)"
    and "chain_head GENESIS_PREV_HASH rs = chain_head GENESIS_PREV_HASH rs'"
  shows "map (content L) rs = map (content L) rs'"
  using assms(3-7)
proof (induction rs arbitrary: rs' rule: rev_induct)
  case Nil
  show ?case
  proof (cases rs' rule: rev_cases)
    case Nil
    then show ?thesis by simp
  next
    case (snoc ys y)
    with Nil.prems have "sha256_hex L (row_hash_input L y) = GENESIS_PREV_HASH"
      using sound_row_hash by (fastforce simp: linked_append chain_head_def)
    with Nil.prems(1) snoc show ?thesis by (auto simp: sha_broken_def)
  qed
next
  case (snoc x xs)
  from snoc.prems have x: "sound_row L (chain_head GENESIS_PREV_HASH xs) x"
    by (simp add: linked_append)
  show ?case
  proof (cases rs' rule: rev_cases)
    case Nil
    with snoc.prems x have "sha256_hex L (row_hash_input L x) = GENESIS_PREV_HASH"
      using sound_row_hash by (fastforce simp: chain_head_def)
    with snoc.prems(1) show ?thesis by (auto simp: sha_broken_def)
  next
    case (snoc ys y)
    with snoc.prems have y: "sound_row L (chain_head GENESIS_PREV_HASH ys) y"
      by (simp add: linked_append)
    have "sha256_hex L (row_hash_input L x) = sha256_hex L (row_hash_input L y)"
      using sound_row_hash [OF x] sound_row_hash [OF y] snoc.prems(5) snoc
      by (simp add: chain_head_def)
    then have "row_hash_input L x = row_hash_input L y"
      using snoc by (intro not_sha_brokenD [OF snoc.prems(1)]) simp_all
    moreover have "linked L GENESIS_PREV_HASH xs" "linked L GENESIS_PREV_HASH ys"
      using snoc.prems(2,3) snoc by (simp_all add: linked_append)
    ultimately have "content L x = content L y \<and>
        chain_head GENESIS_PREV_HASH xs = chain_head GENESIS_PREV_HASH ys"
      using x y snoc.prems(4) snoc assms(2) chain_head_plain [OF assms(1)]
      by (intro same_input_same_content) simp_all
    moreover have "\<not> sha_broken L (set xs \<union> set ys)"
    proof
      assume "sha_broken L (set xs \<union> set ys)"
      then have "sha_broken L (set (xs @ [x]) \<union> set rs')"
        using snoc by (elim sha_broken_mono) auto
      with snoc.prems(1) show False by contradiction
    qed
    ultimately show ?thesis
      using snoc.IH [of ys] snoc.prems snoc by (simp add: linked_append)
  qed
qed

section \<open>When an append fails\<close>

lemma insert_entry_fails:
  assumes "insert_entry row c = (Inl e, c')"
  shows "fault c (calls c) \<or>
    (\<exists>r \<in> set (t_entries c). er_id r = er_id row \<or> er_seq r = er_seq row)"
  using assms by (auto simp: insert_entry_def sql_def split: if_splits)

lemma append_on_connection_fails:
  assumes "chain_ok L (t_entries c)" "append_on_connection L req c = (Inl x, c')"
  shows "(\<exists>n. fault c n) \<or> (\<exists>n. \<exists>r \<in> set (t_entries c). er_id r = show_uuid L (fresh c n))"
proof (cases "\<exists>n. fault c n")
  case True
  then show ?thesis by blast
next
  case False
  then have ok: "fault c = (\<lambda>_. False)" by auto
  let ?s = "int (length (t_entries c)) + 1"
  let ?e = "new_entry L req (fresh c (calls c + 1)) (clock c (calls c + 2)) ?s
      (chain_head GENESIS_PREV_HASH (t_entries c))"
  have "append_on_connection L req c =
      bind_db (insert_entry (entry_to_row L ?e)) (\<lambda>_. return_db ?e) (tick (tick (tick c)))"
    using assms(1)
    by (auto simp: append_on_connection_def select_def sql_def ok tail_query_chain
        bind_db_def [of new_v4] bind_db_def [of utc_now] new_v4_def utc_now_def chain_head_def Let_def)
  with assms(2) have "insert_entry (entry_to_row L ?e) (tick (tick (tick c))) = (Inl x, c')"
    by (auto simp: bind_db_Inl return_db_def)
  then obtain r where r: "r \<in> set (t_entries c)"
      "er_id r = er_id (entry_to_row L ?e) \<or> er_seq r = er_seq (entry_to_row L ?e)"
    by (auto dest: insert_entry_fails simp: ok)
  have "map er_seq (t_entries c) = map (\<lambda>i. 1 + int i) [0..<length (t_entries c)]"
    using assms(1) unfolding chain_ok_def by (rule chain_from_seqs)
  then have "er_seq ` set (t_entries c) = (\<lambda>i. 1 + int i) ` {0..<length (t_entries c)}"
    by (metis image_set set_upt)
  then have "?s \<notin> er_seq ` set (t_entries c)" by auto
  with r(1) have "er_seq r \<noteq> ?s" by (metis imageI)
  with r show ?thesis
    by (auto simp: entry_to_row_def new_entry_def)
qed

section \<open>The contract of an append-only log\<close>

text \<open>
  What the clients of the log rely on: an append to a sound log either fails and changes nothing, or
  adds the one row of the entry it returns; \<open>append_seq\<close> is the client that appends several requests
  and stops at the first failure.
\<close>

locale append_only_log =
  fixes append :: "'req \<Rightarrow> 'st \<Rightarrow> ('err, 'entry) result \<times> 'st"
    and rows :: "'st \<Rightarrow> 'row list"
    and row_of :: "'entry \<Rightarrow> 'row"
    and sound :: "'st \<Rightarrow> bool"
    and admissible :: "'req \<Rightarrow> bool"
  assumes append_sound: "sound s \<Longrightarrow> admissible q \<Longrightarrow> append q s = (r, s') \<Longrightarrow> sound s'"
    and append_adds: "append q s = (Inr e, s') \<Longrightarrow> rows s' = rows s @ [row_of e]"
    and append_error: "append q s = (Inl x, s') \<Longrightarrow> rows s' = rows s"

fun append_seq ::
    "('req \<Rightarrow> 'st \<Rightarrow> ('err, 'entry) result \<times> 'st) \<Rightarrow> 'req list \<Rightarrow> 'st \<Rightarrow> ('err, 'entry list) result \<times> 'st" where
  "append_seq app [] s = (Inr [], s)"
| "append_seq app (q # qs) s =
     (case app q s of
        (Inl x, s1) \<Rightarrow> (Inl x, s1)
      | (Inr e, s1) \<Rightarrow> (case append_seq app qs s1 of (r, s2) \<Rightarrow> (map_result ((#) e) r, s2)))"

context append_only_log begin

lemma seq_sound:
  "sound s \<Longrightarrow> \<forall>q \<in> set qs. admissible q \<Longrightarrow> append_seq append qs s = (r, s') \<Longrightarrow> sound s'"
proof (induction qs arbitrary: s r)
  case Nil
  then show ?case by simp
next
  case (Cons q qs)
  obtain a s1 where a: "append q s = (a, s1)" by fastforce
  with Cons.prems append_sound have "sound s1" by (metis list.set_intros(1))
  with Cons a show ?case by (auto split: sum.splits prod.splits)
qed

lemma seq_extends:
  "append_seq append qs s = (r, s') \<Longrightarrow>
     prefix (rows s) (rows s') \<and> (\<forall>es. r = Inr es \<longrightarrow> rows s' = rows s @ map row_of es)"
proof (induction qs arbitrary: s r)
  case Nil
  then show ?case by auto
next
  case (Cons q qs)
  obtain a s1 where a: "append q s = (a, s1)" by fastforce
  show ?case
  proof (cases a)
    case (Inl x)
    with Cons.prems a append_error show ?thesis by auto
  next
    case (Inr e)
    with a have s1: "rows s1 = rows s @ [row_of e]" by (simp add: append_adds)
    from Cons.prems a Inr obtain r1 where r1: "append_seq append qs s1 = (r1, s')" "r = map_result ((#) e) r1"
      by (auto split: prod.splits)
    from Cons.IH [OF r1(1)] s1 r1(2) show ?thesis
      by (auto simp: prefix_def)
  qed
qed

end

lemma append_ledger_Inr:
  "append_ledger L req c = (Inr e, c') \<Longrightarrow> append_on_connection L req (tick c) = (Inr e, c')"
  by (simp add: append_ledger_def with_connection_Inr)

lemma append_ledger_Inl:
  "append_ledger L req c = (Inl e, c') \<Longrightarrow> same_env c c' \<and> same_tables c c'"
  by (auto simp: append_ledger_def with_connection_Inl same_env_def same_tables_def
      dest!: append_on_connection_Inl)

lemma append_ledger_keeps_log: "storable_request req \<Longrightarrow> keeps (log_step L) (append_ledger L req)"
  unfolding append_ledger_def by (intro log.keeps_with append_keeps_log)

definition sound_log :: "lib \<Rightarrow> conn \<Rightarrow> bool" where
  "sound_log L c \<longleftrightarrow> codec_ok L \<and> clock_ok c \<and> chain_ok L (t_entries c)"

interpretation ledger: append_only_log "append_ledger L" t_entries "entry_to_row L" "sound_log L"
  storable_request for L
proof unfold_locales
  fix c q r c'
  assume "sound_log L c" "storable_request q" "append_ledger L q c = (r, c')"
  moreover from this append_ledger_keeps_log have "log_step L c c'"
    by (auto simp: sound_log_def dest: keepsD)
  ultimately show "sound_log L c'"
    by (auto simp: sound_log_def log_step_def same_env_clock_ok)
next
  fix q c e c' assume "append_ledger L q c = (Inr e, c')"
  then show "t_entries c' = t_entries c @ [entry_to_row L e]"
    using append_on_connection_Inr(3) append_ledger_Inr by fastforce
next
  fix q c x c' assume "append_ledger L q c = (Inl x, c')"
  then show "t_entries c' = t_entries c"
    by (auto dest: append_ledger_Inl simp: same_tables_def)
qed

section \<open>Properties\<close>

text \<open>
  C19. From a sound chain an append either fails and leaves every table as it was, or adds exactly one
  row: the next sequence number, linked to the current head, holding the request; the chain stays
  sound. This holds even where the code takes a failed read of the tail for an empty ledger.
\<close>

theorem append_extends_chain:
  assumes "codec_ok L" "clock_ok c" "storable_request req" "chain_ok L (t_entries c)"
    and "append_ledger L req c = (r, c')"
  shows "chain_ok L (t_entries c') \<and> other_tables c c' \<and>
    (case r of
       Inl _ \<Rightarrow> t_entries c' = t_entries c
     | Inr e \<Rightarrow> t_entries c' = t_entries c @ [entry_to_row L e] \<and> entry_of_request L req e \<and>
         le_seq e = int (length (t_entries c)) + 1 \<and>
         le_prev_hash e = chain_head GENESIS_PREV_HASH (t_entries c))"
proof (cases r)
  case (Inl x)
  with assms show ?thesis
    by (auto dest!: append_ledger_Inl simp: same_tables_def other_tables_def)
next
  case (Inr e)
  with assms have a: "append_on_connection L req (tick c) = (Inr e, c')"
    by (simp add: append_ledger_Inr)
  have "clock_ok (tick c)" "chain_ok L (t_entries (tick c))"
    using assms(2,4) by (simp_all add: clock_ok_def)
  with assms(1,3) a have "chain_ok L (t_entries c')"
    by (blast intro: append_on_connection_chain)
  then show ?thesis
    using Inr append_on_connection_Inr [OF a] append_link [of L "tick c" req e c'] a assms(4)
    by (auto simp: other_tables_def)
qed

definition ping_request :: log_request where
  "ping_request = \<lparr>lr_agent_id = ''a'', lr_method = ''tools/call'', lr_intent_category = ''Routine'',
     lr_authorized = True, lr_reasoning = ''ok'', lr_policy_decision = Some (JBool True),
     lr_correlation_id = None\<rparr>"

lemma ping_storable: "storable_request ping_request"
  by (simp add: storable_request_def ping_request_def storable_def)

lemma lib0_ok: "codec_ok lib0" "time_order_ok lib0" "hex_digest lib0" "print_inj lib0"
  by (simp_all add: lib0_def sample_ok sample_print_inj)

lemma conn0_sel [simp]:
  "t_entries conn0 = []" "t_pendings conn0 = []" "t_executions conn0 = []" "t_outbox conn0 = []"
  "fault conn0 n = False" "calls conn0 = 0"
  by (simp_all add: conn0_def)

lemma chain_ok_Nil [simp]: "chain_ok L []"
  by (simp add: chain_ok_def)

theorem append_extends_chain_witness:
  "length (t_entries (snd (append_ledger lib0 ping_request conn0))) \<le> 1 \<and>
   chain_ok lib0 (t_entries (snd (append_ledger lib0 ping_request conn0)))"
  using append_extends_chain [OF lib0_ok(1) conn0_clock ping_storable, of
      "fst (append_ledger lib0 ping_request conn0)" "snd (append_ledger lib0 ping_request conn0)"]
  by (auto split: sum.splits)

text \<open>
  On a sound chain an append fails only when the storage does, or when a random UUID repeats
  one that the table already has.
\<close>

theorem append_fails_only_on_storage:
  assumes "chain_ok L (t_entries c)" "fst (append_ledger L req c) = Inl x"
  shows "(\<exists>n. fault c n) \<or> (\<exists>n. \<exists>r \<in> set (t_entries c). er_id r = show_uuid L (fresh c n))"
proof (cases "fault c (calls c)")
  case True
  then show ?thesis by blast
next
  case False
  with assms(2) obtain c' where "append_on_connection L req (tick c) = (Inl x, c')"
    by (cases "append_on_connection L req (tick c)")
       (auto simp: append_ledger_def with_connection_def with_connection_result_def)
  with append_on_connection_fails [of L "tick c" req x c'] assms(1) show ?thesis by simp
qed

theorem append_fails_only_on_storage_witness:
  "(\<exists>n. fault (conn0\<lparr>fault := \<lambda>n. True\<rparr>) n) \<or>
   (\<exists>n. \<exists>r \<in> set (t_entries (conn0\<lparr>fault := \<lambda>n. True\<rparr>)). er_id r = show_uuid lib0 (fresh conn0 n))"
proof -
  have "fst (append_ledger lib0 ping_request (conn0\<lparr>fault := \<lambda>n. True\<rparr>)) = Inl SqliteFailure"
    by (simp add: append_ledger_def with_connection_def with_connection_result_def)
  from append_fails_only_on_storage [OF _ this] show ?thesis by simp
qed

text \<open>
  \<open>verify\<close> changes nothing and accepts every log that appends produced, counting all its rows.
\<close>

theorem verify_accepts_log:
  assumes "chain_ok L (t_entries c)" "verify L c = (r, c')"
  shows "same_tables c c' \<and>
    (r = Inl SqliteFailure \<and> (\<exists>n. fault c n) \<or>
     r = Inr \<lparr>vr_valid = True, vr_entries_checked = length (t_entries c),
              vr_first_invalid_seq = None, vr_unsupported_chain_version = None\<rparr>)"
  using assms(2)
  by (auto simp: verify_def db_simps verify_rows_chain [OF assms(1)] same_tables_def
      split: if_splits)

theorem verify_accepts_log_witness:
  "fst (verify lib0 conn0) = Inr \<lparr>vr_valid = True, vr_entries_checked = 0,
     vr_first_invalid_seq = None, vr_unsupported_chain_version = None\<rparr>"
  using verify_accepts_log [of lib0 conn0 "fst (verify lib0 conn0)" "snd (verify lib0 conn0)"]
  by simp

text \<open>
  C21. The walk stops at the first row, in sequence order, that is not soundly linked, and names it: its
  sequence number when its content or its link is wrong, its version when that is unknown, a
  conversion error when it does not decode; the rows before it are the ones counted.
\<close>

theorem verify_names_first_bad_row:
  assumes "sort_key er_seq rows = good @ bad # rest" "linked L GENESIS_PREV_HASH good"
    and "\<not> sound_row L (chain_head GENESIS_PREV_HASH good) bad"
  shows "verify_rows L rows = verdict_at L (length good) bad"
  using assms verify_walk_linked [OF assms(2), of 0 "bad # rest"] verify_walk_unsound [OF assms(3)]
  by (simp add: verify_rows_def)

definition forged_row :: entry_row where
  "forged_row = \<lparr>er_id = ''x'', er_seq = 7, er_timestamp = ''x'', er_agent_id = ''a'', er_method = ''m'',
     er_intent_category = ''Routine'', er_authorized = 1, er_reasoning = [], er_policy_decision = None,
     er_prev_hash = ''elsewhere'', er_entry_hash = ''h'', er_chain_version = 1,
     er_correlation_id = None\<rparr>"

theorem verify_names_first_bad_row_witness:
  "verify_rows lib0 [forged_row] = Inr \<lparr>vr_valid = False, vr_entries_checked = 0,
     vr_first_invalid_seq = Some 7, vr_unsupported_chain_version = None\<rparr>"
proof -
  have "\<not> sound_row lib0 (chain_head GENESIS_PREV_HASH []) forged_row"
  proof
    assume "sound_row lib0 (chain_head GENESIS_PREV_HASH []) forged_row"
    then have "GENESIS_PREV_HASH = ''elsewhere''"
      by (auto dest: sound_row_prev simp: forged_row_def chain_head_def)
    moreover have "GENESIS_PREV_HASH \<noteq> ''elsewhere''" by code_simp
    ultimately show False by contradiction
  qed
  from verify_names_first_bad_row [OF _ _ this, of "[forged_row]" "[]"] show ?thesis
    by (simp add: verdict_at_def row_to_entry_def forged_row_def lib0_def sample_lib_def ok_or_def)
qed

text \<open>
  C20. Tamper evidence: if two ledgers both pass \<open>verify\<close> and end in the same entry hash, then they
  have the same entries, field by field, unless their own rows exhibit a SHA-256 collision or a
  preimage of the genesis constant. Whoever remembers the head hash detects every change of a hashed
  field, every insertion, deletion, reordering and truncation.
\<close>

theorem tamper_evident:
  assumes "hex_digest L" "print_inj L"
    and "verify_rows L rows = Inr v" "vr_valid v" "verify_rows L rows' = Inr v'" "vr_valid v'"
    and "\<forall>r \<in> set rows \<union> set rows'. int_ok (er_seq r)"
    and "chain_head GENESIS_PREV_HASH (sort_key er_seq rows) =
         chain_head GENESIS_PREV_HASH (sort_key er_seq rows')"
  shows "map (content L) (sort_key er_seq rows) = map (content L) (sort_key er_seq rows') \<or>
    sha_broken L (set rows \<union> set rows')"
proof -
  have "linked L GENESIS_PREV_HASH (sort_key er_seq rows)"
    "linked L GENESIS_PREV_HASH (sort_key er_seq rows')"
    using assms(3-6) by (auto simp: verify_rows_valid [symmetric])
  with linked_same_head [OF assms(1,2), of "sort_key er_seq rows" "sort_key er_seq rows'"] assms(7,8)
  show ?thesis by auto
qed

definition log1 :: "entry_row list" where
  "log1 = t_entries (snd (append_ledger lib0 ping_request conn0))"

lemma log1_ok: "chain_ok lib0 log1" "length log1 = 1" "\<forall>r \<in> set log1. int_ok (er_seq r)"
proof -
  obtain r c' where a: "append_ledger lib0 ping_request conn0 = (r, c')" by fastforce
  have s: "log_step lib0 conn0 c'"
    using append_ledger_keeps_log [OF ping_storable] conn0_clock a by (rule keepsD)
  then show chain: "chain_ok lib0 log1"
    by (simp add: log1_def a log_step_def lib0_ok)
  show one: "length log1 = 1"
  proof (cases r)
    case (Inl x)
    with a show ?thesis
      by (auto simp: append_ledger_def db_simps append_on_connection_def insert_entry_def Let_def
          split: option.splits)
  next
    case (Inr e)
    with a ledger.append_adds show ?thesis by (fastforce simp: log1_def)
  qed
  from chain have "map er_seq log1 = map (\<lambda>i. 1 + int i) [0..<length log1]"
    unfolding chain_ok_def by (rule chain_from_seqs)
  with one have "er_seq ` set log1 = {1}" by (simp flip: list.set_map)
  then have "\<forall>r \<in> set log1. er_seq r = 1" by blast
  then show "\<forall>r \<in> set log1. int_ok (er_seq r)" by (simp add: int_ok_def)
qed

theorem tamper_evident_witness:
  "map (content lib0) (sort_key er_seq log1) = map (content lib0) (sort_key er_seq log1) \<or>
   sha_broken lib0 (set log1 \<union> set log1)"
  using tamper_evident [OF lib0_ok(3,4) verify_rows_chain _ verify_rows_chain] log1_ok by simp

text \<open>
  \<open>audit\<close> returns, in sequence order, exactly the entries of one agent: it reads every row of the
  agent on a sound chain, and after one more append for the agent it returns that entry as well.
\<close>

theorem audit_complete:
  assumes "chain_ok L (t_entries c)" "entries_for_agent L a c = (r, c')"
  shows "same_tables c c' \<and>
    (r = Inl SqliteFailure \<and> (\<exists>n. fault c n) \<or>
     (\<exists>es. r = Inr es \<and> sorted_wrt (<) (map le_seq es) \<and>
        list_all2 (\<lambda>row e. row_to_entry L row = Inr e)
          (filter (\<lambda>row. er_agent_id row = a) (t_entries c)) es))"
proof -
  let ?mine = "filter (\<lambda>row. er_agent_id row = a) (t_entries c)"
  have strict: "sorted_wrt (\<lambda>r s. er_seq r < er_seq s) ?mine"
    using chain_ok_strict [OF assms(1)] by (rule sorted_wrt_filter)
  obtain es where es: "collect_results (row_to_entry L) ?mine = Inr es"
    using collect_results_total [of ?mine "row_to_entry L"] chain_ok_decodes [OF assms(1)] by auto
  then have rel: "list_all2 (\<lambda>row e. row_to_entry L row = Inr e) ?mine es"
    by (simp add: collect_results_Inr)
  then have "map le_seq es = map er_seq ?mine"
    by (induction rule: list_all2_induct) (auto dest: row_to_entry_sel)
  with strict have "sorted_wrt (<) (map le_seq es)" by (simp add: sorted_wrt_map)
  with rel es assms(2) sorted_wrt_less_sort_key [OF strict] show ?thesis
    by (auto simp: entries_for_agent_def db_simps same_tables_def split: if_splits)
qed

theorem audit_complete_witness:
  "\<exists>es. fst (entries_for_agent lib0 ''a'' (conn0\<lparr>t_entries := log1\<rparr>)) = Inr es \<and>
     sorted_wrt (<) (map le_seq es)"
  using audit_complete [of lib0 "conn0\<lparr>t_entries := log1\<rparr>" "''a''"
      "fst (entries_for_agent lib0 ''a'' (conn0\<lparr>t_entries := log1\<rparr>))"
      "snd (entries_for_agent lib0 ''a'' (conn0\<lparr>t_entries := log1\<rparr>))"] log1_ok(1)
  by auto

end
