(* ===== verification/Ledger_Pending.thy ===== *)
theory Ledger_Pending
  imports Ledger_Tamper
begin

text \<open>
  The human-review queue of \<open>src/ledger.rs\<close>: parking a request, the operator's decision, and the
  queries, with and without a tenant.
\<close>

section \<open>The model\<close>

record pending =
  pd_correlation_id :: string
  pd_tenant :: string
  pd_agent_id :: string
  pd_tool_type :: string
  pd_method :: string
  pd_review_reasons :: "string list"
  pd_requested_at :: time
  pd_decided_at :: "time option"
  pd_decision :: "string option"
  pd_decider_note :: "string option"
  pd_callback_url :: "string option"

datatype pending_filter = Parked | Decided | AllPendings

datatype pending_sort = Oldest | Newest

record park_request =
  pq_correlation_id :: string
  pq_tenant :: string
  pq_agent_id :: string
  pq_tool_type :: string
  pq_method :: string
  pq_review_reasons :: "string list"
  pq_callback_url :: "string option"

datatype decide_error =
    NotFound
  | AlreadyDecided
  | InvalidDecision string
  | Sqlite sql_error

text \<open>\<open>serde_json::from_str::<Vec<String>>\<close>.\<close>

definition parse_strings :: "lib \<Rightarrow> string \<Rightarrow> string list option" where
  "parse_strings L s =
     (case Option.bind (parse_json L s) as_array of
        None \<Rightarrow> None
      | Some xs \<Rightarrow> if \<forall>x \<in> set xs. as_str x \<noteq> None then Some (map (the \<circ> as_str) xs) else None)"

definition row_to_pending :: "lib \<Rightarrow> pending_row \<Rightarrow> (sql_error, pending) result" where
  "row_to_pending L r =
     and_then (ok_or (ConversionFailure 5) (parse_time L (pr_requested_at r))) (\<lambda>requested_at.
     and_then (case pr_decided_at r of
                 None \<Rightarrow> Inr None
               | Some s \<Rightarrow> map_result Some (ok_or (ConversionFailure 6) (parse_time L s))) (\<lambda>decided_at.
       Inr \<lparr>pd_correlation_id = pr_correlation_id r, pd_tenant = pr_tenant r,
            pd_agent_id = pr_agent_id r, pd_tool_type = pr_tool_type r, pd_method = pr_method r,
            pd_review_reasons = (case parse_strings L (pr_review_reasons_json r) of
                None \<Rightarrow> [] | Some rs \<Rightarrow> rs),
            pd_requested_at = requested_at, pd_decided_at = decided_at,
            pd_decision = pr_decision r, pd_decider_note = pr_decider_note r,
            pd_callback_url = pr_callback_url r\<rparr>))"

definition pending_to_row :: "lib \<Rightarrow> park_request \<Rightarrow> time \<Rightarrow> pending_row" where
  "pending_to_row L req requested_at =
     \<lparr>pr_correlation_id = pq_correlation_id req, pr_tenant = pq_tenant req,
      pr_agent_id = pq_agent_id req, pr_tool_type = pq_tool_type req, pr_method = pq_method req,
      pr_review_reasons_json = print_json L (jstrs (pq_review_reasons req)),
      pr_requested_at = show_time L requested_at, pr_decided_at = None, pr_decision = None,
      pr_decider_note = None, pr_callback_url = pq_callback_url req\<rparr>"

definition parked :: "park_request \<Rightarrow> time \<Rightarrow> pending" where
  "parked req requested_at =
     \<lparr>pd_correlation_id = pq_correlation_id req, pd_tenant = pq_tenant req,
      pd_agent_id = pq_agent_id req, pd_tool_type = pq_tool_type req, pd_method = pq_method req,
      pd_review_reasons = pq_review_reasons req, pd_requested_at = requested_at,
      pd_decided_at = None, pd_decision = None, pd_decider_note = None,
      pd_callback_url = pq_callback_url req\<rparr>"

definition park_pending :: "lib \<Rightarrow> park_request \<Rightarrow> (sql_error, pending) db" where
  "park_pending L req = with_connection
     (bind_db utc_now (\<lambda>requested_at.
      bind_db (insert_pending (pending_to_row L req requested_at)) (\<lambda>_.
      return_db (parked req requested_at))))"

text \<open>\<open>?2 IS NULL OR tenant = ?2\<close>.\<close>

definition in_scope :: "string option \<Rightarrow> pending_row \<Rightarrow> bool" where
  "in_scope tenant r \<longleftrightarrow> (case tenant of None \<Rightarrow> True | Some t \<Rightarrow> pr_tenant r = t)"

text \<open>The \<open>SET\<close> and the \<open>WHERE\<close> of the update.\<close>

definition decided :: "lib \<Rightarrow> time \<Rightarrow> string \<Rightarrow> string option \<Rightarrow> pending_row \<Rightarrow> pending_row" where
  "decided L at' d n r =
     r\<lparr>pr_decided_at := Some (show_time L at'), pr_decision := Some d, pr_decider_note := n\<rparr>"

definition open_in_scope :: "string \<Rightarrow> string option \<Rightarrow> pending_row \<Rightarrow> bool" where
  "open_in_scope i tenant r \<longleftrightarrow>
     pr_correlation_id r = i \<and> pr_decided_at r = None \<and> in_scope tenant r"

definition decide_on_connection ::
    "lib \<Rightarrow> string \<Rightarrow> string option \<Rightarrow> string \<Rightarrow> string option \<Rightarrow> (decide_error, pending) db" where
  "decide_on_connection L correlation_id tenant decision note =
     bind_db (map_err Sqlite (select (\<lambda>c.
        find (\<lambda>r. pr_correlation_id r = correlation_id \<and> in_scope tenant r) (t_pendings c)))) (\<lambda>row.
     bind_db (lift_result (ok_or NotFound row)) (\<lambda>row.
     bind_db (map_err Sqlite (lift_result (row_to_pending L row))) (\<lambda>pending.
       if pd_decision pending \<noteq> None then fail_db AlreadyDecided
       else bind_db utc_now (\<lambda>decided_at.
            bind_db (map_err Sqlite (update_pendings (open_in_scope correlation_id tenant)
                (decided L decided_at decision note))) (\<lambda>rows_affected.
              if rows_affected = 0 then fail_db AlreadyDecided
              else return_db (pending\<lparr>pd_decided_at := Some decided_at,
                     pd_decision := Some decision, pd_decider_note := note\<rparr>))))))"

definition decide_pending_scoped ::
    "lib \<Rightarrow> string \<Rightarrow> string option \<Rightarrow> string \<Rightarrow> string option \<Rightarrow> (decide_error, pending) db" where
  "decide_pending_scoped L correlation_id tenant decision note =
     (if decision \<noteq> ''allow'' \<and> decision \<noteq> ''deny'' then fail_db (InvalidDecision decision)
      else with_connection_result (Sqlite SqliteFailure)
             (decide_on_connection L correlation_id tenant decision note))"

definition decide_pending ::
    "lib \<Rightarrow> string \<Rightarrow> string \<Rightarrow> string option \<Rightarrow> (decide_error, pending) db" where
  "decide_pending L correlation_id decision note =
     decide_pending_scoped L correlation_id None decision note"

definition decide_pending_for_tenant ::
    "lib \<Rightarrow> string \<Rightarrow> string \<Rightarrow> string \<Rightarrow> string option \<Rightarrow> (decide_error, pending) db" where
  "decide_pending_for_tenant L correlation_id tenant decision note =
     decide_pending_scoped L correlation_id (Some tenant) decision note"

fun matches_filter :: "pending_filter \<Rightarrow> pending_row \<Rightarrow> bool" where
  "matches_filter Parked r \<longleftrightarrow> pr_decided_at r = None"
| "matches_filter Decided r \<longleftrightarrow> pr_decided_at r \<noteq> None"
| "matches_filter AllPendings r \<longleftrightarrow> True"

text \<open>\<open>ORDER BY requested_at\<close>; rows of one instant keep their insertion order (SQLite leaves it open).\<close>

fun order_pendings :: "pending_sort \<Rightarrow> pending_row list \<Rightarrow> pending_row list" where
  "order_pendings Oldest rows = sort_key pr_requested_at rows"
| "order_pendings Newest rows = sort_key_desc pr_requested_at rows"

definition list_pendings ::
    "lib \<Rightarrow> pending_filter \<Rightarrow> nat \<Rightarrow> pending_sort \<Rightarrow> (sql_error, pending list) db" where
  "list_pendings L filt limit direction = with_connection
     (bind_db (select (\<lambda>c.
         take limit (order_pendings direction (filter (matches_filter filt) (t_pendings c))))) (\<lambda>rows.
      lift_result (collect_results (row_to_pending L) rows)))"

definition list_pendings_for_tenant ::
    "lib \<Rightarrow> pending_filter \<Rightarrow> nat \<Rightarrow> pending_sort \<Rightarrow> string \<Rightarrow> (sql_error, pending list) db" where
  "list_pendings_for_tenant L filt limit direction tenant = with_connection
     (bind_db (select (\<lambda>c.
         take limit (order_pendings direction
           (filter (\<lambda>r. pr_tenant r = tenant \<and> matches_filter filt r) (t_pendings c))))) (\<lambda>rows.
      lift_result (collect_results (row_to_pending L) rows)))"

definition row_option :: "lib \<Rightarrow> pending_row option \<Rightarrow> (sql_error, pending option) result" where
  "row_option L row =
     (case row of None \<Rightarrow> Inr None | Some r \<Rightarrow> map_result Some (row_to_pending L r))"

definition get_pending :: "lib \<Rightarrow> string \<Rightarrow> (sql_error, pending option) db" where
  "get_pending L correlation_id = with_connection
     (bind_db (select (\<lambda>c. find (\<lambda>r. pr_correlation_id r = correlation_id) (t_pendings c))) (\<lambda>row.
      lift_result (row_option L row)))"

definition get_pending_for_agent ::
    "lib \<Rightarrow> string \<Rightarrow> string \<Rightarrow> string \<Rightarrow> (sql_error, pending option) db" where
  "get_pending_for_agent L correlation_id tenant agent_id = with_connection
     (bind_db (select (\<lambda>c. find (\<lambda>r. pr_correlation_id r = correlation_id \<and> pr_tenant r = tenant \<and>
         pr_agent_id r = agent_id) (t_pendings c))) (\<lambda>row.
      lift_result (row_option L row)))"

section \<open>How the queue may change\<close>

text \<open>
  A row is written once by \<open>park_pending\<close> and once by a decision. \<open>row_step\<close> is the only change a row may
  undergo, \<open>review_step\<close> the only change the queue may undergo: rows keep their places, new rows come
  after them, and the table stays well formed.
\<close>

definition row_step :: "pending_row \<Rightarrow> pending_row \<Rightarrow> bool" where
  "row_step r r' \<longleftrightarrow> r' = r \<or>
     pr_decided_at r = None \<and>
     (\<exists>at' d note. d \<in> {''allow'', ''deny''} \<and>
        r' = r\<lparr>pr_decided_at := Some at', pr_decision := Some d, pr_decider_note := note\<rparr>)"

definition valid_time :: "lib \<Rightarrow> string \<Rightarrow> bool" where
  "valid_time L s \<longleftrightarrow> (\<exists>t. time_ok t \<and> s = show_time L t)"

definition pending_row_ok :: "lib \<Rightarrow> pending_row \<Rightarrow> bool" where
  "pending_row_ok L r \<longleftrightarrow>
     valid_time L (pr_requested_at r) \<and>
     (\<forall>s. pr_decided_at r = Some s \<longrightarrow> valid_time L s) \<and>
     (pr_decision r = None \<longleftrightarrow> pr_decided_at r = None)"

definition pendings_ok :: "lib \<Rightarrow> pending_row list \<Rightarrow> bool" where
  "pendings_ok L rows \<longleftrightarrow>
     distinct (map pr_correlation_id rows) \<and> (\<forall>r \<in> set rows. pending_row_ok L r)"

definition review_step :: "lib \<Rightarrow> conn \<Rightarrow> conn \<Rightarrow> bool" where
  "review_step L c c' \<longleftrightarrow> same_env c c' \<and>
     (\<exists>old new. t_pendings c' = old @ new \<and> list_all2 row_step (t_pendings c) old) \<and>
     (pendings_ok L (t_pendings c) \<longrightarrow> pendings_ok L (t_pendings c'))"

lemma row_step_refl [simp]: "row_step r r"
  by (simp add: row_step_def)

lemma row_step_trans: "row_step a b \<Longrightarrow> row_step b c \<Longrightarrow> row_step a c"
  by (auto simp: row_step_def)

lemma row_step_key:
  "row_step r r' \<Longrightarrow> pr_correlation_id r' = pr_correlation_id r \<and> pr_tenant r' = pr_tenant r \<and>
     pr_agent_id r' = pr_agent_id r"
  by (auto simp: row_step_def)

lemma row_step_decided: "row_step r r' \<Longrightarrow> pr_decided_at r \<noteq> None \<Longrightarrow> r' = r"
  by (auto simp: row_step_def)

lemma review_stepI:
  assumes "same_env c c'" "t_pendings c' = old @ new" "list_all2 row_step (t_pendings c) old"
    and "pendings_ok L (t_pendings c) \<Longrightarrow> pendings_ok L (old @ new)"
  shows "review_step L c c'"
  using assms unfolding review_step_def by auto

lemma rows_refl: "list_all2 row_step rows rows"
  by (simp add: list.rel_refl)

lemma same_pendings_review: "same_env c c' \<Longrightarrow> t_pendings c' = t_pendings c \<Longrightarrow> review_step L c c'"
  by (rule review_stepI [where new = "[]", OF _ _ rows_refl]) simp_all

interpretation review: db_relation "review_step L" for L
proof unfold_locales
  fix c c' assume "same_tables c c'" "same_env c c'"
  then show "review_step L c c'"
    by (intro same_pendings_review) (simp_all add: same_tables_def)
next
  fix c c' assume "review_step L c c'"
  then show "same_env c c'" by (simp add: review_step_def)
next
  fix a b c assume ab: "review_step L a b" and bc: "review_step L b c"
  then obtain old new old' new' where
    1: "t_pendings b = old @ new" "list_all2 row_step (t_pendings a) old" and
    2: "t_pendings c = old' @ new'" "list_all2 row_step (t_pendings b) old'"
    by (auto simp: review_step_def)
  from 1(1) 2(2) obtain x y where xy: "old' = x @ y" "list_all2 row_step old x"
    by (auto simp: list_all2_append1)
  from 1(2) xy(2) have "list_all2 row_step (t_pendings a) x"
    using list_all2_trans [of row_step row_step row_step] row_step_trans by blast
  moreover from 2(1) xy(1) have "t_pendings c = x @ (y @ new')" by simp
  ultimately show "review_step L a c"
    using ab bc by (auto simp: review_step_def intro: same_env_trans)
qed

lemma insert_pending_review:
  "valid_time L (pr_requested_at r) \<Longrightarrow> pr_decided_at r = None \<Longrightarrow> pr_decision r = None \<Longrightarrow>
     keeps (review_step L) (insert_pending r)"
  unfolding insert_pending_def
proof (rule review.keeps_sql, rule keepsI)
  fix c c' :: conn and res
  assume ok: "valid_time L (pr_requested_at r)" "pr_decided_at r = None" "pr_decision r = None"
    and s: "(if \<exists>r' \<in> set (t_pendings c). pr_correlation_id r' = pr_correlation_id r
      then (Inl ConstraintViolation, c) else (Inr (), c\<lparr>t_pendings := t_pendings c @ [r]\<rparr>)) = (res, c')"
  show "review_step L c c'"
  proof (cases "\<exists>r' \<in> set (t_pendings c). pr_correlation_id r' = pr_correlation_id r")
    case True
    with s show ?thesis by (simp add: review.rel_refl)
  next
    case False
    with s have c': "c' = c\<lparr>t_pendings := t_pendings c @ [r]\<rparr>" by simp
    from False have "pr_correlation_id r \<notin> pr_correlation_id ` set (t_pendings c)" by force
    with ok have "pendings_ok L (t_pendings c) \<Longrightarrow> pendings_ok L (t_pendings c @ [r])"
      by (simp add: pendings_ok_def pending_row_ok_def)
    then show ?thesis
      by (intro review_stepI [OF _ _ rows_refl]) (simp_all add: c' same_env_def)
  qed
qed

lemma park_keeps_review: "keeps (review_step L) (park_pending L req)"
  unfolding park_pending_def
  by (intro review.keeps_with review.keeps_now_bind review.keeps_bind insert_pending_review
      review.keeps_return)
     (auto simp: pending_to_row_def valid_time_def)

lemma update_pendings_review:
  assumes "\<And>r. p r \<Longrightarrow> row_step r (f r)" "\<And>r. p r \<Longrightarrow> pending_row_ok L r \<Longrightarrow> pending_row_ok L (f r)"
  shows "keeps (review_step L) (update_pendings p f)"
  unfolding update_pendings_def
proof (rule review.keeps_sql, rule keepsI)
  fix c c' :: conn and res
  let ?g = "\<lambda>r. if p r then f r else r"
  assume "(Inr (length (filter p (t_pendings c))), c\<lparr>t_pendings := map ?g (t_pendings c)\<rparr>) = (res, c')"
  then have c': "c' = c\<lparr>t_pendings := map ?g (t_pendings c)\<rparr>" by simp
  have step: "row_step r (?g r)" for r
    using assms(1) by simp
  then have rows: "list_all2 row_step (t_pendings c) (map ?g (t_pendings c))"
    by (simp add: list_all2_map2 list.rel_refl)
  have "map pr_correlation_id (map ?g (t_pendings c)) = map pr_correlation_id (t_pendings c)"
    using row_step_key [OF step] by (simp del: if_split)
  moreover have "\<forall>r \<in> set (t_pendings c). pending_row_ok L r \<Longrightarrow>
      \<forall>r \<in> set (map ?g (t_pendings c)). pending_row_ok L r"
    using assms(2) by auto
  ultimately have "pendings_ok L (t_pendings c) \<Longrightarrow> pendings_ok L (map ?g (t_pendings c))"
    unfolding pendings_ok_def by metis
  with rows show "review_step L c c'"
    by (intro review_stepI [where new = "[]"]) (simp_all add: c' same_env_def)
qed

lemma decide_keeps_review: "keeps (review_step L) (decide_pending_scoped L i t d n)"
proof (cases "d \<in> {''allow'', ''deny''}")
  case False
  then show ?thesis by (simp add: decide_pending_scoped_def review.keeps_fail)
next
  case True
  then have u: "keeps (review_step L) (update_pendings (open_in_scope i t) (decided L at' d n))"
    if "time_ok at'" for at'
    using that
    by (intro update_pendings_review)
       (auto simp: row_step_def pending_row_ok_def valid_time_def open_in_scope_def decided_def)
  have "keeps (review_step L) (decide_on_connection L i t d n)"
    unfolding decide_on_connection_def
    by (intro review.keeps_bind review.keeps_map_err review.keeps_select review.keeps_lift)
       (auto intro!: review.keeps_now_bind review.keeps_bind review.keeps_map_err review.keeps_fail
          review.keeps_return u)
  then show ?thesis
    using True by (auto simp: decide_pending_scoped_def review.keeps_with_result)
qed

lemma same_entries_log: "same_env c c' \<Longrightarrow> t_entries c' = t_entries c \<Longrightarrow> log_step L c c'"
  by (simp add: log_step_def)

lemma insert_pending_log: "keeps (log_step L) (insert_pending r)"
  unfolding insert_pending_def
  by (intro log.keeps_sql keepsI same_entries_log) (auto simp: same_env_def split: if_splits)

lemma update_pendings_log: "keeps (log_step L) (update_pendings p f)"
  unfolding update_pendings_def
  by (intro log.keeps_sql keepsI same_entries_log) (auto simp: same_env_def)

lemma park_keeps_log: "keeps (log_step L) (park_pending L' req)"
  unfolding park_pending_def
  by (intro log.keeps_with log.keeps_bind log.keeps_now insert_pending_log log.keeps_return)

lemma decide_keeps_log: "keeps (log_step L) (decide_pending_scoped L' i t d n)"
  unfolding decide_pending_scoped_def decide_on_connection_def
  by (auto intro!: log.keeps_with_result log.keeps_bind log.keeps_map_err log.keeps_select
      log.keeps_lift log.keeps_now log.keeps_fail log.keeps_return update_pendings_log)

section \<open>What a decision does\<close>

definition the_row :: "string \<Rightarrow> string option \<Rightarrow> conn \<Rightarrow> pending_row option" where
  "the_row i tenant c = find (\<lambda>r. pr_correlation_id r = i \<and> in_scope tenant r) (t_pendings c)"

lemma the_row_Some:
  "the_row i tenant c = Some r \<Longrightarrow>
     r \<in> set (t_pendings c) \<and> pr_correlation_id r = i \<and> in_scope tenant r"
  by (auto simp: the_row_def find_Some_iff)

lemma the_row_None:
  "the_row i tenant c = None \<longleftrightarrow>
     (\<forall>r \<in> set (t_pendings c). pr_correlation_id r = i \<longrightarrow> \<not> in_scope tenant r)"
  by (auto simp: the_row_def find_None_iff)

lemma the_row_tick [simp]: "the_row i tenant (tick c) = the_row i tenant c"
  by (simp add: the_row_def)

lemma decide_step:
  assumes "\<not> fault c (calls c)" "the_row i tenant c = Some row" "row_to_pending L row = Inr p"
    and "pd_decision p = None"
  shows "decide_on_connection L i tenant d n c =
    (let at' = clock c (calls c + 1); c3 = tick (tick (tick c)); hits = filter (open_in_scope i tenant) (t_pendings c);
         c4 = c3\<lparr>t_pendings := map (\<lambda>r. if open_in_scope i tenant r then decided L at' d n r else r) (t_pendings c)\<rparr>
     in if fault c (calls c + 2) then (Inl (Sqlite SqliteFailure), c3)
        else if hits = [] then (Inl AlreadyDecided, c4)
        else (Inr (p\<lparr>pd_decided_at := Some at', pd_decision := Some d, pd_decider_note := n\<rparr>), c4))"
  using assms
  by (simp add: decide_on_connection_def select_def sql_def bind_db_def map_err_def lift_result_def
      utc_now_def the_row_def ok_or_def Let_def update_pendings_def
      fail_db_def return_db_def)

lemma decide_refused:
  assumes "\<not> fault c (calls c)"
  shows "the_row i tenant c = None \<Longrightarrow>
      decide_on_connection L i tenant d n c = (Inl NotFound, tick c)"
    and "the_row i tenant c = Some row \<Longrightarrow> row_to_pending L row = Inl x \<Longrightarrow>
      decide_on_connection L i tenant d n c = (Inl (Sqlite x), tick c)"
    and "the_row i tenant c = Some row \<Longrightarrow> row_to_pending L row = Inr p \<Longrightarrow> pd_decision p \<noteq> None \<Longrightarrow>
      decide_on_connection L i tenant d n c = (Inl AlreadyDecided, tick c)"
  using assms
  by (simp_all add: decide_on_connection_def select_def sql_def bind_db_def map_err_def lift_result_def
      the_row_def ok_or_def fail_db_def)

lemma row_to_pending_sel:
  "row_to_pending L r = Inr p \<Longrightarrow>
     pd_correlation_id p = pr_correlation_id r \<and> pd_tenant p = pr_tenant r \<and>
     pd_agent_id p = pr_agent_id r \<and> pd_decision p = pr_decision r \<and>
     (pd_decided_at p = None \<longleftrightarrow> pr_decided_at r = None) \<and> pd_decider_note p = pr_decider_note r \<and>
     pd_callback_url p = pr_callback_url r"
  by (auto simp: row_to_pending_def split: option.splits)

lemma valid_time_parse: "codec_ok L \<Longrightarrow> valid_time L s \<Longrightarrow> \<exists>t. parse_time L s = Some t \<and> s = show_time L t \<and> time_ok t"
  by (auto simp: valid_time_def codec_ok_def)

lemma pending_row_decodes:
  assumes "codec_ok L" "pending_row_ok L r"
  shows "\<exists>p. row_to_pending L r = Inr p"
proof -
  from assms obtain t where t: "parse_time L (pr_requested_at r) = Some t"
    unfolding pending_row_ok_def by (meson valid_time_parse)
  show ?thesis
  proof (cases "pr_decided_at r")
    case None
    with t show ?thesis by (simp add: row_to_pending_def ok_or_def)
  next
    case (Some s)
    with assms obtain t' where "parse_time L s = Some t'"
      unfolding pending_row_ok_def by (meson valid_time_parse)
    with t Some show ?thesis by (simp add: row_to_pending_def ok_or_def)
  qed
qed

text \<open>With distinct keys the update of a decision touches exactly the row that was found.\<close>

lemma decide_targets:
  assumes "distinct (map pr_correlation_id rows)" "row \<in> set rows"
    and "pr_correlation_id row = i" "in_scope tenant row" "pr_decided_at row = None"
  shows "filter (open_in_scope i tenant) rows = [row]"
proof -
  have uniq: "r = row" if "r \<in> set rows" "pr_correlation_id r = i" for r
    using that assms(1-3) by (auto simp: distinct_map inj_on_def)
  have "filter (open_in_scope i tenant) rows = filter (\<lambda>r. r = row) rows"
    using uniq assms(3-5) by (intro filter_cong) (auto simp: open_in_scope_def)
  also have "\<dots> = [row]"
    using assms(1,2) by (simp add: distinct_map filter_eq_single)
  finally show ?thesis .
qed

lemma review_keeps_decided:
  assumes "review_step L c c'" "r \<in> set (t_pendings c)" "pr_decided_at r \<noteq> None"
  shows "r \<in> set (t_pendings c')"
proof -
  from assms(1) obtain old new where on: "t_pendings c' = old @ new"
    "list_all2 row_step (t_pendings c) old" by (auto simp: review_step_def)
  from assms(2) obtain i where i: "i < length (t_pendings c)" "r = t_pendings c ! i"
    by (auto simp: in_set_conv_nth)
  with on(2) have "row_step r (old ! i)" by (auto dest: list_all2_nthD)
  with assms(3) have "old ! i = r" by (simp add: row_step_decided)
  moreover have "old ! i \<in> set old" using i(1) on(2) by (auto dest: list_all2_lengthD)
  ultimately show ?thesis using on(1) by simp
qed

lemma map_open_in_scope:
  assumes "filter (open_in_scope i tenant) rows = [row]"
  shows "map (\<lambda>r. if open_in_scope i tenant r then f r else r) rows =
    map (\<lambda>r. if r = row then f r else r) rows"
proof (rule map_cong)
  fix r assume "r \<in> set rows"
  moreover from assms have "{r \<in> set rows. open_in_scope i tenant r} = {row}"
    by (metis list.set(1,2) set_filter)
  ultimately show "(if open_in_scope i tenant r then f r else r) = (if r = row then f r else r)"
    by auto
qed simp

text \<open>
  The specification of a decision. It succeeds only with \<open>allow\<close> or \<open>deny\<close> on an undecided row in
  scope, and then changes that row alone; otherwise no row changes, and the error says why.
\<close>

definition decision_outcome ::
    "lib \<Rightarrow> string \<Rightarrow> string option \<Rightarrow> string \<Rightarrow> string option \<Rightarrow> conn \<Rightarrow>
     (decide_error, pending) result \<Rightarrow> conn \<Rightarrow> bool" where
  "decision_outcome L i tenant d n c r c' \<longleftrightarrow>
     (case r of
        Inr p \<Rightarrow> d \<in> {''allow'', ''deny''} \<and> pd_decision p = Some d \<and> pd_decider_note p = n \<and>
          pd_correlation_id p = i \<and>
          (\<exists>row at'. the_row i tenant c = Some row \<and> pr_decision row = None \<and>
             pd_tenant p = pr_tenant row \<and> pd_decided_at p = Some at' \<and>
             t_pendings c' = map (\<lambda>r. if r = row then decided L at' d n r else r) (t_pendings c))
      | Inl e \<Rightarrow> t_pendings c' = t_pendings c \<and>
          (case e of
             InvalidDecision x \<Rightarrow> x = d \<and> d \<notin> {''allow'', ''deny''}
           | NotFound \<Rightarrow> the_row i tenant c = None
           | AlreadyDecided \<Rightarrow> (\<exists>row. the_row i tenant c = Some row \<and> pr_decision row \<noteq> None)
           | Sqlite x \<Rightarrow> x = SqliteFailure \<and> (\<exists>k. fault c k)))"

lemma decide_on_connection_outcome:
  assumes "codec_ok L" "pendings_ok L (t_pendings c)" "\<not> fault c (calls c)"
    and "d \<in> {''allow'', ''deny''}"
    and d: "decide_on_connection L i tenant d n c = (r, c')"
  shows "decision_outcome L i tenant d n c r c'"
proof (cases "the_row i tenant c")
  case None
  with d decide_refused(1) [OF assms(3)] show ?thesis by (auto simp: decision_outcome_def)
next
  case (Some row)
  then have row: "row \<in> set (t_pendings c)" "pr_correlation_id row = i" "in_scope tenant row"
    by (auto dest: the_row_Some)
  with assms(2) have rok: "pending_row_ok L row" by (simp add: pendings_ok_def)
  with assms(1) obtain p where p: "row_to_pending L row = Inr p"
    by (blast dest: pending_row_decodes)
  note sel = row_to_pending_sel [OF p]
  show ?thesis
  proof (cases "pr_decision row")
    case decision: None
    then have hit: "filter (open_in_scope i tenant) (t_pendings c) = [row]"
      using assms(2) row rok by (intro decide_targets) (auto simp: pendings_ok_def pending_row_ok_def)
    show ?thesis
      using d decide_step [OF assms(3) Some p, of d n] decision hit assms(4) sel row Some
        map_open_in_scope [OF hit]
      by (auto simp: Let_def decision_outcome_def split: if_splits)
  next
    case decision: (Some x)
    with sel have "pd_decision p \<noteq> None" by simp
    from decide_refused(3) [OF assms(3) Some p this] d have "r = Inl AlreadyDecided \<and> c' = tick c"
      by simp
    with decision Some show ?thesis by (simp add: decision_outcome_def)
  qed
qed

lemma decide_outcome:
  assumes "codec_ok L" "pendings_ok L (t_pendings c)"
    and "decide_pending_scoped L i tenant d n c = (r, c')"
  shows "decision_outcome L i tenant d n c r c'"
proof -
  consider (word) "d \<notin> {''allow'', ''deny''}"
    | (worker) "d \<in> {''allow'', ''deny''}" "fault c (calls c) \<or> fault c (calls c + 1)"
    | (run) "d \<in> {''allow'', ''deny''}" "\<not> fault c (calls c)" "\<not> fault c (calls c + 1)"
    by blast
  then show ?thesis
  proof cases
    case word
    with assms(3) show ?thesis
      by (auto simp: decide_pending_scoped_def fail_db_def decision_outcome_def)
  next
    case worker
    with assms(3) have "r = Inl (Sqlite SqliteFailure)" "t_pendings c' = t_pendings c"
      by (auto simp: decide_pending_scoped_def decide_on_connection_def db_simps split: if_splits)
    with worker show ?thesis by (auto simp: decision_outcome_def)
  next
    case run
    with assms(3) have "decide_on_connection L i tenant d n (tick c) = (r, c')"
      by (auto simp: decide_pending_scoped_def with_connection_result_def)
    with assms(1,2) run have "decision_outcome L i tenant d n (tick c) r c'"
      by (intro decide_on_connection_outcome) simp_all
    then show ?thesis unfolding decision_outcome_def by (simp only: tick_sel the_row_tick)
  qed
qed

section \<open>Properties\<close>

text \<open>
  C28. Every outcome of a decision is the specified one: it succeeds only with \<open>allow\<close> or \<open>deny\<close> on an
  undecided row in scope and then changes that row alone; a wrong word, an unknown or foreign row,
  a decided row and a storage failure are told apart and change no row.
\<close>

theorem decide_meets_specification:
  assumes "codec_ok L" "pendings_ok L (t_pendings c)"
    and "decide_pending_scoped L i tenant d n c = (r, c')"
  shows "decision_outcome L i tenant d n c r c'"
  using assms by (rule decide_outcome)

definition review_request :: park_request where
  "review_request = \<lparr>pq_correlation_id = ''xx'', pq_tenant = ''t'', pq_agent_id = ''a'',
     pq_tool_type = ''wire'', pq_method = ''tools/call'', pq_review_reasons = [''large amount''],
     pq_callback_url = None\<rparr>"

definition conn_parked :: conn where
  "conn_parked = conn0\<lparr>t_pendings := [pending_to_row lib0 review_request 0]\<rparr>"

lemma conn_parked_ok: "pendings_ok lib0 (t_pendings conn_parked)" "clock_ok conn_parked"
  using conn0_clock
  by (auto simp: conn_parked_def pendings_ok_def pending_row_ok_def pending_to_row_def valid_time_def
      clock_ok_def time_ok_def intro!: exI [of _ 0])

lemma conn_parked_row: "the_row ''xx'' (Some ''t'') conn_parked = Some (pending_to_row lib0 review_request 0)"
  by (simp add: the_row_def conn_parked_def pending_to_row_def review_request_def in_scope_def)

theorem decide_meets_specification_witness:
  "\<exists>r c'. decide_pending_scoped lib0 ''xx'' (Some ''t'') ''maybe'' None conn_parked = (r, c') \<and>
     decision_outcome lib0 ''xx'' (Some ''t'') ''maybe'' None conn_parked r c'"
  using decide_meets_specification [OF lib0_ok(1) conn_parked_ok(1)] by (metis surj_pair)


lemma conn_parked_decided: "\<exists>p c'. decide_pending_scoped lib0 ''xx'' (Some ''t'') ''allow'' None conn_parked = (Inr p, c')"
proof -
  let ?row = "pending_to_row lib0 review_request 0"
  have row: "the_row ''xx'' (Some ''t'') (tick conn_parked) = Some ?row"
    using conn_parked_row by simp
  have ok: "\<not> fault conn_parked n" for n by (simp add: conn_parked_def)
  have "pending_row_ok lib0 ?row"
    using conn_parked_ok(1) by (simp add: pendings_ok_def conn_parked_def)
  then obtain p where p: "row_to_pending lib0 ?row = Inr p"
    using lib0_ok(1) pending_row_decodes by blast
  then have n: "pd_decision p = None"
    by (auto dest: row_to_pending_sel simp: pending_to_row_def)
  have "filter (open_in_scope ''xx'' (Some ''t'')) (t_pendings conn_parked) \<noteq> []"
    by (simp add: conn_parked_def open_in_scope_def pending_to_row_def review_request_def in_scope_def)
  with decide_step [OF _ row p n, of "''allow''" None] ok show ?thesis
    by (auto simp: decide_pending_scoped_def with_connection_result_def Let_def)
qed


definition only_tenant :: "string \<Rightarrow> conn \<Rightarrow> conn" where
  "only_tenant t c = c\<lparr>t_pendings := filter (\<lambda>r. pr_tenant r = t) (t_pendings c)\<rparr>"

lemma only_tenant_sel [simp]:
  "fault (only_tenant t c) = fault c" "calls (only_tenant t c) = calls c" "clock (only_tenant t c) = clock c"
  "t_pendings (only_tenant t c) = filter (\<lambda>r. pr_tenant r = t) (t_pendings c)"
  "tick (only_tenant t c) = only_tenant t (tick c)"
  by (simp_all add: only_tenant_def tick_def)

lemma the_row_only_tenant: "the_row i (Some t) (only_tenant t c) = the_row i (Some t) c"
proof -
  have "find (\<lambda>r. pr_correlation_id r = i \<and> pr_tenant r = t) (filter (\<lambda>r. pr_tenant r = t) (t_pendings c)) =
      find (\<lambda>r. pr_correlation_id r = i \<and> pr_tenant r = t) (t_pendings c)"
    by (rule find_filter) simp
  then show ?thesis by (simp add: the_row_def in_scope_def)
qed

lemma decide_on_only_tenant:
  "fst (decide_on_connection L i (Some t) d n (only_tenant t c)) = fst (decide_on_connection L i (Some t) d n c)"
proof (cases "fault c (calls c)")
  case True
  then show ?thesis
    by (simp add: decide_on_connection_def bind_db_def map_err_def select_def sql_def)
next
  case False
  then have ok: "\<not> fault (only_tenant t c) (calls (only_tenant t c))" by simp
  have hits: "filter (\<lambda>r. pr_tenant r = t \<and> open_in_scope i (Some t) r) rows =
      filter (open_in_scope i (Some t)) rows" for rows
    by (induction rows) (auto simp: open_in_scope_def in_scope_def)
  show ?thesis
  proof (cases "the_row i (Some t) c")
    case None
    with decide_refused(1) [OF False] decide_refused(1) [OF ok] show ?thesis
      by (simp add: the_row_only_tenant)
  next
    case (Some row)
    then have row': "the_row i (Some t) (only_tenant t c) = Some row"
      by (simp add: the_row_only_tenant)
    show ?thesis
    proof (cases "row_to_pending L row")
      case (Inl x)
      with decide_refused(2) [OF False Some] decide_refused(2) [OF ok row'] show ?thesis by simp
    next
      case (Inr p)
      show ?thesis
      proof (cases "pd_decision p = None")
        case True
        show ?thesis
          using decide_step [OF False Some Inr True] decide_step [OF ok row' Inr True]
          by (simp add: Let_def hits)
      next
        case no: False
        with decide_refused(3) [OF False Some Inr] decide_refused(3) [OF ok row' Inr] show ?thesis
          by simp
      qed
    qed
  qed
qed

lemma decide_scoped_rows:
  "\<exists>at'. t_pendings (snd (decide_pending_scoped L i tenant d n c)) \<in> {t_pendings c,
     map (\<lambda>r. if open_in_scope i tenant r then decided L at' d n r else r) (t_pendings c)}"
proof -
  have "\<exists>at'. t_pendings (snd (decide_on_connection L i tenant d n c)) \<in> {t_pendings c,
     map (\<lambda>r. if open_in_scope i tenant r then decided L at' d n r else r) (t_pendings c)}" for c
  proof (cases "fault c (calls c)")
    case True
    then show ?thesis
      by (simp add: decide_on_connection_def bind_db_def map_err_def select_def sql_def)
  next
    case False
    consider (none) "the_row i tenant c = None"
      | (bad) row x where "the_row i tenant c = Some row" "row_to_pending L row = Inl x"
      | (row) row p where "the_row i tenant c = Some row" "row_to_pending L row = Inr p"
      by (meson not_Some_eq sum.exhaust)
    then show ?thesis
    proof cases
      case none
      with decide_refused(1) [OF False] show ?thesis by simp
    next
      case bad
      with decide_refused(2) [OF False] show ?thesis by simp
    next
      case row
      then show ?thesis
        using decide_refused(3) [OF False row] decide_step [OF False row]
        by (cases "pd_decision p = None") (auto simp: Let_def)
    qed
  qed
  from this [of "tick c"] show ?thesis
    by (auto simp: decide_pending_scoped_def fail_db_def with_connection_result_def)
qed

lemma decide_scoped_only_tenant:
  "fst (decide_pending_scoped L i (Some t) d n (only_tenant t c)) = fst (decide_pending_scoped L i (Some t) d n c)"
  by (simp add: decide_pending_scoped_def fail_db_def with_connection_result_def decide_on_only_tenant)

text \<open>
  C30. Tenants are isolated: what an operator of a tenant is told when deciding, and what a tenant's
  listing and an agent's lookup return, is the same as if the table held that tenant's rows only, so
  a foreign row cannot be told from a missing one; and deciding leaves foreign rows as they were.
\<close>

theorem tenant_isolation:
  "fst (decide_pending_for_tenant L i t d n c) = fst (decide_pending_for_tenant L i t d n (only_tenant t c)) \<and>
   fst (list_pendings_for_tenant L f k s t c) = fst (list_pendings_for_tenant L f k s t (only_tenant t c)) \<and>
   fst (get_pending_for_agent L i t a c) = fst (get_pending_for_agent L i t a (only_tenant t c)) \<and>
   filter (\<lambda>r. pr_tenant r \<noteq> t) (t_pendings (snd (decide_pending_for_tenant L i t d n c))) =
     filter (\<lambda>r. pr_tenant r \<noteq> t) (t_pendings c)"
proof (intro conjI)
  show "fst (decide_pending_for_tenant L i t d n c) = fst (decide_pending_for_tenant L i t d n (only_tenant t c))"
    by (simp add: decide_pending_for_tenant_def decide_scoped_only_tenant)
  show "fst (list_pendings_for_tenant L f k s t c) = fst (list_pendings_for_tenant L f k s t (only_tenant t c))"
    by (simp add: list_pendings_for_tenant_def db_simps conj_commute cong: conj_cong)
  show "fst (get_pending_for_agent L i t a c) = fst (get_pending_for_agent L i t a (only_tenant t c))"
  proof -
    have "find (\<lambda>r. pr_correlation_id r = i \<and> pr_tenant r = t \<and> pr_agent_id r = a)
          (filter (\<lambda>r. pr_tenant r = t) (t_pendings c)) =
        find (\<lambda>r. pr_correlation_id r = i \<and> pr_tenant r = t \<and> pr_agent_id r = a) (t_pendings c)"
      by (rule find_filter) simp
    then show ?thesis by (simp add: get_pending_for_agent_def db_simps)
  qed
  have "filter (\<lambda>r. pr_tenant r \<noteq> t) (map (\<lambda>r. if open_in_scope i (Some t) r then decided L at' d n r else r) rows) =
      filter (\<lambda>r. pr_tenant r \<noteq> t) rows" for at' rows
    by (induction rows) (auto simp: open_in_scope_def in_scope_def decided_def)
  moreover obtain at' where "t_pendings (snd (decide_pending_for_tenant L i t d n c)) \<in> {t_pendings c,
      map (\<lambda>r. if open_in_scope i (Some t) r then decided L at' d n r else r) (t_pendings c)}"
    unfolding decide_pending_for_tenant_def using decide_scoped_rows by blast
  ultimately show "filter (\<lambda>r. pr_tenant r \<noteq> t) (t_pendings (snd (decide_pending_for_tenant L i t d n c))) =
     filter (\<lambda>r. pr_tenant r \<noteq> t) (t_pendings c)"
    by auto
qed

text \<open>
  A parked request is what the issuing agent reads back: parking adds one row under a fresh
  correlation id, and the lookup by tenant and agent returns the same record, reasons included.
\<close>

theorem park_then_get:
  assumes "codec_ok L" "clock_ok c"
    and "park_pending L q c = (Inr p, c1)"
    and "get_pending_for_agent L (pq_correlation_id q) (pq_tenant q) (pq_agent_id q) c1 = (r, c2)"
  shows "p = parked q (pd_requested_at p) \<and>
    (\<forall>row \<in> set (t_pendings c). pr_correlation_id row \<noteq> pq_correlation_id q) \<and>
    t_pendings c1 = t_pendings c @ [pending_to_row L q (pd_requested_at p)] \<and>
    (r = Inr (Some p) \<or> r = Inl SqliteFailure \<and> (\<exists>k. fault c k))"
proof -
  let ?t = "clock c (calls c + 1)"
  let ?row = "pending_to_row L q ?t"
  from assms(3) have p: "p = parked q ?t" and t: "t_pendings c1 = t_pendings c @ [?row]"
    and f: "fault c1 = fault c"
    and fresh: "\<forall>row \<in> set (t_pendings c). pr_correlation_id row \<noteq> pq_correlation_id q"
    by (auto simp: park_pending_def db_simps insert_pending_def pending_to_row_def split: if_splits)
  have at': "pd_requested_at p = ?t" by (simp add: p parked_def)
  have row: "row_to_pending L ?row = Inr p"
  proof -
    have "storable (jstrs (pq_review_reasons q))"
      by (rule storable_strs)
    with assms(1) have "parse_strings L (print_json L (jstrs (pq_review_reasons q))) = Some (pq_review_reasons q)"
      by (simp add: parse_strings_def codec_ok_def comp_def)
    with assms(1,2) show ?thesis
      by (simp add: row_to_pending_def pending_to_row_def p parked_def codec_ok_def clock_ok_def ok_or_def)
  qed
  have "find (\<lambda>r. pr_correlation_id r = pq_correlation_id q \<and> pr_tenant r = pq_tenant q \<and>
      pr_agent_id r = pq_agent_id q) (t_pendings c1) = Some ?row"
    using fresh by (auto simp: t find_append pending_to_row_def find_None_iff split: option.splits
        dest!: find_Some_iff [THEN iffD1] intro: nth_mem)
  with row assms(4) f have "r = Inr (Some p) \<or> r = Inl SqliteFailure \<and> (\<exists>k. fault c k)"
    by (auto simp: get_pending_for_agent_def db_simps row_option_def split: if_splits)
  with p t fresh at' show ?thesis by simp
qed

theorem park_then_get_witness:
  "\<exists>p c1 c2. park_pending lib0 review_request conn0 = (Inr p, c1) \<and>
     get_pending_for_agent lib0 ''xx'' ''t'' ''a'' c1 = (Inr (Some p), c2)"
proof -
  obtain p c1 where p: "park_pending lib0 review_request conn0 = (Inr p, c1)"
    by (simp add: park_pending_def db_simps insert_pending_def)
  obtain r c2 where g: "get_pending_for_agent lib0 (pq_correlation_id review_request)
      (pq_tenant review_request) (pq_agent_id review_request) c1 = (r, c2)" by fastforce
  from park_then_get [OF lib0_ok(1) conn0_clock p g] have "r = Inr (Some p)" by simp
  with p g show ?thesis by (auto simp: review_request_def)
qed

lemma mset_order_pendings: "mset (order_pendings direction rows) = mset rows"
  by (cases direction) (simp_all add: sort_key_desc_def)

lemma order_pendings_sorted:
  "direction = Oldest \<Longrightarrow> sorted (map pr_requested_at (take k (order_pendings direction rows)))"
  "direction = Newest \<Longrightarrow> sorted (rev (map pr_requested_at (take k (order_pendings direction rows))))"
  by (simp_all add: sort_key_desc_def rev_map take_map [symmetric] rev_take sorted_wrt_take sorted_wrt_drop)

lemma decoded_times:
  assumes "codec_ok L" "list_all2 (\<lambda>row p. row_to_pending L row = Inr p) rows ps"
    and "\<forall>row \<in> set rows. pending_row_ok L row"
  shows "map pr_requested_at rows = map (show_time L) (map pd_requested_at ps) \<and>
    (\<forall>p \<in> set ps. time_ok (pd_requested_at p))"
  using assms(2,3)
proof (induction rule: list_all2_induct)
  case Nil
  show ?case by simp
next
  case (Cons row rows p ps)
  from Cons.prems have "valid_time L (pr_requested_at row)" by (simp add: pending_row_ok_def)
  with assms(1) obtain t where "parse_time L (pr_requested_at row) = Some t" "time_ok t"
      "pr_requested_at row = show_time L t" by (blast dest: valid_time_parse)
  with Cons show ?case by (auto simp: row_to_pending_def)
qed

lemma sorted_times:
  assumes "time_order_ok L" "\<forall>t \<in> set ts. time_ok t" "sorted (map (show_time L) ts)"
  shows "sorted ts"
proof -
  have "s \<le> t" if "show_time L s \<le> show_time L t" "time_ok s" "time_ok t" for s t
    using assms(1) that unfolding time_order_ok_def by (meson not_le)
  with assms(2,3) show ?thesis
    unfolding sorted_map by (metis (no_types, lifting) sorted_wrt_mono_rel)
qed

text \<open>
  A tenant's listing is a queue: at most \<open>limit\<close> rows of the tenant that match the filter, in the
  order of the time they were parked (longest waiting first, or newest first), and all of them when
  the limit allows; a well-formed table never makes it fail.
\<close>

theorem tenant_queue:
  assumes "codec_ok L" "time_order_ok L" "pendings_ok L (t_pendings c)"
    and "list_pendings_for_tenant L filt limit direction t c = (r, c')"
  shows "(r = Inl SqliteFailure \<and> (\<exists>k. fault c k)) \<or>
    (\<exists>ps rows. r = Inr ps \<and> list_all2 (\<lambda>row p. row_to_pending L row = Inr p) rows ps \<and>
       mset rows \<subseteq># mset (filter (\<lambda>row. pr_tenant row = t \<and> matches_filter filt row) (t_pendings c)) \<and>
       length rows = min limit (length (filter (\<lambda>row. pr_tenant row = t \<and> matches_filter filt row) (t_pendings c))) \<and>
       (direction = Oldest \<longrightarrow> sorted (map pd_requested_at ps)) \<and>
       (direction = Newest \<longrightarrow> sorted (rev (map pd_requested_at ps))))"
proof -
  let ?mine = "filter (\<lambda>row. pr_tenant row = t \<and> matches_filter filt row) (t_pendings c)"
  define rows where "rows = take limit (order_pendings direction ?mine)"
  have sub: "mset rows \<subseteq># mset ?mine"
    using mset_take_sub [of limit "order_pendings direction ?mine"]
    by (simp add: rows_def mset_order_pendings)
  then have "set rows \<subseteq> set (t_pendings c)"
    using set_mset_mono [OF sub] by auto
  with assms(3) have ok: "\<forall>row \<in> set rows. pending_row_ok L row"
    unfolding pendings_ok_def by blast
  then obtain ps where ps: "collect_results (row_to_pending L) rows = Inr ps"
    using collect_results_total pending_row_decodes [OF assms(1)] by metis
  then have rel: "list_all2 (\<lambda>row p. row_to_pending L row = Inr p) rows ps"
    by (simp add: collect_results_Inr)
  note times = decoded_times [OF assms(1) rel ok]
  have "sorted (map pd_requested_at ps)" if "direction = Oldest"
    using order_pendings_sorted(1) [OF that, of limit ?mine] times
    by (intro sorted_times [OF assms(2)]) (auto simp: rows_def [symmetric])
  moreover have "sorted (rev (map pd_requested_at ps))" if "direction = Newest"
    using order_pendings_sorted(2) [OF that, of limit ?mine] times
    by (intro sorted_times [OF assms(2)]) (auto simp: rows_def [symmetric] rev_map)
  moreover have "length rows = min limit (length ?mine)"
    using mset_eq_length [OF mset_order_pendings, of direction ?mine]
    by (simp add: rows_def min.commute)
  moreover have "r = Inl SqliteFailure \<and> (\<exists>k. fault c k) \<or> r = Inr ps"
    using assms(4) ps by (auto simp: list_pendings_for_tenant_def db_simps rows_def split: if_splits)
  ultimately show ?thesis using sub rel by blast
qed

theorem tenant_queue_witness:
  "\<exists>ps. fst (list_pendings_for_tenant lib0 Parked 5 Oldest ''t'' conn_parked) = Inr ps \<and> length ps = 1"
proof -
  obtain r c' where l: "list_pendings_for_tenant lib0 Parked 5 Oldest ''t'' conn_parked = (r, c')"
    by fastforce
  have "length (filter (\<lambda>row. pr_tenant row = ''t'' \<and> matches_filter Parked row) (t_pendings conn_parked)) = 1"
    by (simp add: conn_parked_def pending_to_row_def review_request_def)
  with tenant_queue [OF lib0_ok(1,2) conn_parked_ok(1) l] l show ?thesis
    by (auto simp: conn_parked_def dest: list_all2_lengthD)
qed

end
