(* ===== verification/Ledger_Exec.thy ===== *)
theory Ledger_Exec
  imports Ledger_Pending
begin

text \<open>
  The durable server-execution contract of \<open>src/ledger.rs\<close>: the binding of an execution, its intent,
  its completion, the lookup of a retained result, and the reconciler of abandoned intents.
\<close>

section \<open>The model\<close>

record server_execution_binding =
  sb_agent_id :: string
  sb_idempotency_id :: uuid
  sb_correlation_id :: string
  sb_route :: string
  sb_method :: string
  sb_tool_name :: string
  sb_submitted_request_sha256 :: string
  sb_effective_request_sha256 :: string

definition CONTRACT :: string where
  "CONTRACT = ''clavenar.server-execution/v1''"

definition NUL :: string where
  "NUL = [CHR 0x00]"

definition execution_id :: "lib \<Rightarrow> server_execution_binding \<Rightarrow> uuid" where
  "execution_id L b = uuid_v5 L
     (CONTRACT @ NUL @ sb_agent_id b @ NUL @ show_uuid L (sb_idempotency_id b))"

record server_execution_completed =
  ec_execution_id :: string
  ec_status :: nat
  ec_content_type :: "string option"
  ec_body :: string
  ec_result_sha256 :: string
  ec_receipt_json :: string

datatype server_execution_outcome =
    Missing
  | Started
  | Completed server_execution_completed
  | Uncertain
  | Conflict

subsection \<open>Looking up an execution\<close>

definition has_identity :: "lib \<Rightarrow> server_execution_binding \<Rightarrow> execution_row \<Rightarrow> bool" where
  "has_identity L b r \<longleftrightarrow>
     xr_agent_id r = sb_agent_id b \<and> xr_idempotency_id r = show_uuid L (sb_idempotency_id b)"

definition u16_of :: "int \<Rightarrow> nat option" where
  "u16_of i = (if 0 \<le> i \<and> i < 65536 then Some (nat i) else None)"

definition completed_of :: "execution_row \<Rightarrow> (sql_error, server_execution_completed) result" where
  "completed_of r =
     and_then (ok_or InvalidQuery (Option.bind (xr_response_status r) u16_of)) (\<lambda>status.
     and_then (ok_or InvalidQuery (xr_response_body r)) (\<lambda>body.
     and_then (ok_or InvalidQuery (xr_result_sha256 r)) (\<lambda>result_sha256.
     and_then (ok_or InvalidQuery (xr_receipt_json r)) (\<lambda>receipt_json.
       Inr \<lparr>ec_execution_id = xr_execution_id r, ec_status = status,
            ec_content_type = xr_response_content_type r, ec_body = body,
            ec_result_sha256 = result_sha256, ec_receipt_json = receipt_json\<rparr>))))"

definition inspect_row ::
    "server_execution_binding \<Rightarrow> execution_row option \<Rightarrow> (sql_error, server_execution_outcome) result" where
  "inspect_row b row =
     (case row of
        None \<Rightarrow> Inr Missing
      | Some r \<Rightarrow>
          if xr_route r \<noteq> sb_route b \<or> xr_method r \<noteq> sb_method b \<or> xr_tool_name r \<noteq> sb_tool_name b \<or>
             xr_submitted_sha256 r \<noteq> sb_submitted_request_sha256 b
          then Inr Conflict
          else if xr_state r \<noteq> ''completed'' then Inr Uncertain
          else map_result Completed (completed_of r))"

definition inspect_execution ::
    "lib \<Rightarrow> server_execution_binding \<Rightarrow> (sql_error, server_execution_outcome) db" where
  "inspect_execution L b =
     bind_db (select (\<lambda>c. find (has_identity L b) (t_executions c))) (\<lambda>row.
     lift_result (inspect_row b row))"

definition inspect_server_execution ::
    "lib \<Rightarrow> server_execution_binding \<Rightarrow> (sql_error, server_execution_outcome) db" where
  "inspect_server_execution L b = with_connection (inspect_execution L b)"

subsection \<open>Committing the intent\<close>

definition intent_row :: "lib \<Rightarrow> server_execution_binding \<Rightarrow> string \<Rightarrow> time \<Rightarrow> execution_row" where
  "intent_row L b owner now =
     \<lparr>xr_agent_id = sb_agent_id b, xr_idempotency_id = show_uuid L (sb_idempotency_id b),
      xr_execution_id = show_uuid L (execution_id L b), xr_correlation_id = sb_correlation_id b,
      xr_route = sb_route b, xr_method = sb_method b, xr_tool_name = sb_tool_name b,
      xr_submitted_sha256 = sb_submitted_request_sha256 b,
      xr_effective_sha256 = sb_effective_request_sha256 b, xr_state = ''in_flight'',
      xr_response_status = None, xr_response_content_type = None, xr_response_body = None,
      xr_result_sha256 = None, xr_receipt_json = None, xr_created_at = show_time L now,
      xr_completed_at = None, xr_reconciliation_state = ''pending'',
      xr_reconciliation_attempts = 0, xr_last_reconciled_at = None,
      xr_reconciliation_error = None, xr_reconciliation_resolved_at = None,
      xr_owner_instance = Some owner\<rparr>"

definition intent_log :: "lib \<Rightarrow> server_execution_binding \<Rightarrow> log_request" where
  "intent_log L b =
     \<lparr>lr_agent_id = sb_agent_id b, lr_method = sb_method b,
      lr_intent_category = ''ServerExecutionIntent'', lr_authorized = False,
      lr_reasoning = ''durable server execution intent committed before upstream attempt'',
      lr_policy_decision = Some (json_obj
        [(''contract'', JStr CONTRACT), (''stage'', JStr ''execution.intent''),
         (''execution_id'', JStr (show_uuid L (execution_id L b))),
         (''idempotency_id'', JStr (show_uuid L (sb_idempotency_id b))),
         (''route'', JStr (sb_route b)), (''tool_name'', JStr (sb_tool_name b)),
         (''submitted_request_sha256'', JStr (sb_submitted_request_sha256 b)),
         (''effective_request_sha256'', JStr (sb_effective_request_sha256 b)),
         (''state'', JStr ''in_flight'')]),
      lr_correlation_id = Some (sb_correlation_id b)\<rparr>"

definition begin_transaction ::
    "lib \<Rightarrow> server_execution_binding \<Rightarrow> string \<Rightarrow> (sql_error, server_execution_outcome tx) db" where
  "begin_transaction L b owner =
     bind_db (inspect_execution L b) (\<lambda>outcome.
        case outcome of
          Missing \<Rightarrow>
            bind_db utc_now (\<lambda>now.
            bind_db (insert_execution (intent_row L b owner now)) (\<lambda>_.
            bind_db (append_on_connection L (intent_log L b)) (\<lambda>_.
            return_db (Commit Started))))
        | _ \<Rightarrow> return_db (Drop outcome))"

definition begin_server_execution ::
    "lib \<Rightarrow> server_execution_binding \<Rightarrow> (sql_error, server_execution_outcome) db" where
  "begin_server_execution L b =
     with_connection (\<lambda>c. transaction (begin_transaction L b (instance_id c)) c)"

subsection \<open>Committing the result\<close>

definition outbox_event_id :: "lib \<Rightarrow> string \<Rightarrow> uuid" where
  "outbox_event_id L execution = uuid_v5 L (CONTRACT @ NUL @ ''outbox'' @ NUL @ execution)"

definition result_digest :: "lib \<Rightarrow> string \<Rightarrow> string" where
  "result_digest L body = ''sha256:'' @ sha256_hex L body"

definition result_value :: "lib \<Rightarrow> string \<Rightarrow> json" where
  "result_value L body =
     (case parse_json L body of None \<Rightarrow> JStr (from_utf8_lossy body) | Some v \<Rightarrow> v)"

definition receipt :: "lib \<Rightarrow> server_execution_binding \<Rightarrow> nat \<Rightarrow> string \<Rightarrow> json" where
  "receipt L b status body =
     (let execution = show_uuid L (execution_id L b) in json_obj
        [(''contract'', JStr CONTRACT), (''stage'', JStr ''execution.completed''),
         (''execution_id'', JStr execution),
         (''idempotency_id'', JStr (show_uuid L (sb_idempotency_id b))),
         (''caller'', JStr (sb_agent_id b)), (''route'', JStr (sb_route b)),
         (''method'', JStr (sb_method b)), (''tool_name'', JStr (sb_tool_name b)),
         (''submitted_request_sha256'', JStr (sb_submitted_request_sha256 b)),
         (''effective_request_sha256'', JStr (sb_effective_request_sha256 b)),
         (''response_status'', JNum (Integral (int status))),
         (''result_sha256'', JStr (result_digest L body)), (''result'', result_value L body),
         (''outbox_event_id'', JStr (show_uuid L (outbox_event_id L execution)))])"

definition completion_log :: "server_execution_binding \<Rightarrow> json \<Rightarrow> log_request" where
  "completion_log b rec =
     \<lparr>lr_agent_id = sb_agent_id b, lr_method = sb_method b,
      lr_intent_category = ''ServerExecutionCompleted'', lr_authorized = True,
      lr_reasoning = ''durable server execution result and receipt committed'',
      lr_policy_decision = Some rec, lr_correlation_id = Some (sb_correlation_id b)\<rparr>"

definition completed_row ::
    "nat \<Rightarrow> string option \<Rightarrow> string \<Rightarrow> string \<Rightarrow> string \<Rightarrow> string \<Rightarrow> execution_row \<Rightarrow> execution_row" where
  "completed_row status content_type body result_sha256 receipt_json now r =
     r\<lparr>xr_state := ''completed'', xr_response_status := Some (int status),
       xr_response_content_type := content_type, xr_response_body := Some body,
       xr_result_sha256 := Some result_sha256, xr_receipt_json := Some receipt_json,
       xr_completed_at := Some now, xr_reconciliation_state := ''resolved'',
       xr_last_reconciled_at := Some now, xr_reconciliation_error := None,
       xr_reconciliation_resolved_at := Some now\<rparr>"

definition awaits_result :: "lib \<Rightarrow> server_execution_binding \<Rightarrow> execution_row \<Rightarrow> bool" where
  "awaits_result L b r \<longleftrightarrow> has_identity L b r \<and> xr_state r = ''in_flight'' \<and>
     xr_effective_sha256 r = sb_effective_request_sha256 b"

definition outbox_entry :: "lib \<Rightarrow> uuid \<Rightarrow> string \<Rightarrow> string \<Rightarrow> string \<Rightarrow> outbox_row" where
  "outbox_entry L event execution payload now =
     \<lparr>ob_event_id = show_uuid L event, ob_execution_id = execution, ob_payload_json = payload,
      ob_created_at = now, ob_delivered_at = Some now\<rparr>"

definition complete_transaction ::
    "lib \<Rightarrow> server_execution_binding \<Rightarrow> nat \<Rightarrow> string option \<Rightarrow> string \<Rightarrow> string \<Rightarrow>
     (sql_error, server_execution_completed tx) db" where
  "complete_transaction L b status content_type body now =
     (let execution = show_uuid L (execution_id L b);
          result_sha256 = result_digest L body;
          rec = receipt L b status body;
          receipt_json = print_json L rec
      in bind_db (update_executions (awaits_result L b)
            (completed_row status content_type body result_sha256 receipt_json now)) (\<lambda>changed.
         if changed \<noteq> 1 then fail_db QueryReturnedNoRows
         else bind_db (insert_outbox (outbox_entry L (outbox_event_id L execution) execution
                         receipt_json now)) (\<lambda>_.
              bind_db (append_on_connection L (completion_log b rec)) (\<lambda>_.
              return_db (Commit
                \<lparr>ec_execution_id = execution, ec_status = status, ec_content_type = content_type,
                 ec_body = body, ec_result_sha256 = result_sha256,
                 ec_receipt_json = receipt_json\<rparr>)))))"

definition complete_server_execution ::
    "lib \<Rightarrow> server_execution_binding \<Rightarrow> nat \<Rightarrow> string option \<Rightarrow> string \<Rightarrow>
     (sql_error, server_execution_completed) db" where
  "complete_server_execution L b status content_type body =
     bind_db utc_now (\<lambda>now.
       with_connection (transaction (complete_transaction L b status content_type body (show_time L now))))"

subsection \<open>Reconciling abandoned intents\<close>

definition abandoned :: "string \<Rightarrow> string \<Rightarrow> execution_row \<Rightarrow> bool" where
  "abandoned cutoff this r \<longleftrightarrow>
     xr_state r = ''in_flight'' \<and> xr_reconciliation_state r = ''pending'' \<and>
     xr_created_at r \<le> cutoff \<and>
     (case xr_owner_instance r of None \<Rightarrow> False | Some owner \<Rightarrow> owner \<noteq> this)"

definition uncertain_row :: "string \<Rightarrow> execution_row \<Rightarrow> execution_row" where
  "uncertain_row now r =
     r\<lparr>xr_reconciliation_state := ''uncertain'',
       xr_reconciliation_attempts := xr_reconciliation_attempts r + 1,
       xr_last_reconciled_at := Some now,
       xr_reconciliation_error :=
         Some ''authoritative upstream result unavailable; automatic effect retry forbidden'',
       xr_reconciliation_resolved_at := Some now\<rparr>"

definition uncertain_receipt :: "execution_row \<Rightarrow> json" where
  "uncertain_receipt r = json_obj
     [(''contract'', JStr CONTRACT), (''stage'', JStr ''execution.uncertain''),
      (''execution_id'', JStr (xr_execution_id r)), (''idempotency_id'', JStr (xr_idempotency_id r)),
      (''route'', JStr ''/mcp''), (''method'', JStr (xr_method r)),
      (''tool_name'', JStr (xr_tool_name r)),
      (''submitted_request_sha256'', JStr (xr_submitted_sha256 r)),
      (''effective_request_sha256'', JStr (xr_effective_sha256 r)),
      (''reconciliation'', JStr ''uncertain'')]"

definition uncertain_log :: "execution_row \<Rightarrow> log_request" where
  "uncertain_log r =
     \<lparr>lr_agent_id = xr_agent_id r, lr_method = xr_method r,
      lr_intent_category = ''ServerExecutionUncertain'', lr_authorized = False,
      lr_reasoning = ''interrupted durable server execution has no authoritative retained result; automatic upstream retry forbidden'',
      lr_policy_decision = Some (uncertain_receipt r),
      lr_correlation_id = Some (xr_correlation_id r)\<rparr>"

definition still_pending :: "string \<Rightarrow> execution_row \<Rightarrow> bool" where
  "still_pending execution r \<longleftrightarrow>
     xr_execution_id r = execution \<and> xr_state r = ''in_flight'' \<and>
     xr_reconciliation_state r = ''pending''"

definition uncertain_event_id :: "lib \<Rightarrow> string \<Rightarrow> uuid" where
  "uncertain_event_id L execution =
     uuid_v5 L (CONTRACT @ NUL @ ''reconciliation'' @ NUL @ execution @ NUL @ ''uncertain'')"

definition reconcile_row :: "lib \<Rightarrow> string \<Rightarrow> execution_row \<Rightarrow> (sql_error, unit) db" where
  "reconcile_row L now r =
     bind_db (update_executions (still_pending (xr_execution_id r)) (uncertain_row now)) (\<lambda>changed.
     if changed \<noteq> 1 then fail_db InvalidQuery
     else bind_db (insert_outbox (outbox_entry L (uncertain_event_id L (xr_execution_id r))
                     (xr_execution_id r) (print_json L (uncertain_receipt r)) now)) (\<lambda>_.
          bind_db (append_on_connection L (uncertain_log r)) (\<lambda>_.
          return_db ())))"

fun reconcile_rows :: "lib \<Rightarrow> string \<Rightarrow> execution_row list \<Rightarrow> (sql_error, unit) db" where
  "reconcile_rows L now [] = return_db ()"
| "reconcile_rows L now (r # rs) =
     bind_db (reconcile_row L now r) (\<lambda>_. reconcile_rows L now rs)"

definition abandoned_rows :: "string \<Rightarrow> string \<Rightarrow> conn \<Rightarrow> execution_row list" where
  "abandoned_rows cutoff this c =
     take 256 (sort_key xr_created_at (filter (abandoned cutoff this) (t_executions c)))"

definition reconcile_transaction :: "lib \<Rightarrow> string \<Rightarrow> string \<Rightarrow> string \<Rightarrow> (sql_error, nat tx) db" where
  "reconcile_transaction L cutoff now this =
     bind_db (select (abandoned_rows cutoff this)) (\<lambda>rows.
     bind_db (reconcile_rows L now rows) (\<lambda>_.
     return_db (Commit (length rows))))"

definition reconcile_server_executions_at :: "lib \<Rightarrow> time \<Rightarrow> (sql_error, nat) db" where
  "reconcile_server_executions_at L t =
     (let cutoff = show_time L (t - 300 * 1000000000); now = show_time L t in
      with_connection (\<lambda>c. transaction (reconcile_transaction L cutoff now (instance_id c)) c))"

definition reconcile_server_executions_once :: "lib \<Rightarrow> (sql_error, nat) db" where
  "reconcile_server_executions_once L = bind_db utc_now (reconcile_server_executions_at L)"

end
