(* ===== verification/Exec_Steps.thy ===== *)
theory Exec_Steps
  imports Ledger_Exec
begin

text \<open>
  How the tables of the execution contract may change: identities are never rewritten, a completed
  row is never touched again, the outbox only grows. Every operation of the ledger is shown to keep
  this relation, the one of the review queue and the one of the hash chain.
\<close>

section \<open>The relation\<close>

definition identity :: "execution_row \<Rightarrow> string list" where
  "identity r = [xr_agent_id r, xr_idempotency_id r, xr_execution_id r, xr_correlation_id r, xr_route r,
     xr_method r, xr_tool_name r, xr_submitted_sha256 r, xr_effective_sha256 r]"

definition erow_step :: "execution_row \<Rightarrow> execution_row \<Rightarrow> bool" where
  "erow_step r r' \<longleftrightarrow> r' = r \<or>
     xr_state r = ''in_flight'' \<and> identity r' = identity r \<and>
     xr_state r' \<in> {''in_flight'', ''completed''}"

definition exec_key :: "execution_row \<Rightarrow> string \<times> string" where
  "exec_key r = (xr_agent_id r, xr_idempotency_id r)"

definition exec_row_ok :: "lib \<Rightarrow> execution_row \<Rightarrow> bool" where
  "exec_row_ok L r \<longleftrightarrow>
     xr_execution_id r =
       show_uuid L (uuid_v5 L (CONTRACT @ NUL @ xr_agent_id r @ NUL @ xr_idempotency_id r)) \<and>
     (xr_state r = ''in_flight'' \<or> xr_state r = ''completed'' \<and> is_ok (completed_of r))"

definition execs_ok :: "lib \<Rightarrow> execution_row list \<Rightarrow> bool" where
  "execs_ok L rows \<longleftrightarrow> distinct (map exec_key rows) \<and> distinct (map xr_execution_id rows) \<and>
     (\<forall>r \<in> set rows. exec_row_ok L r)"

definition exec_step :: "lib \<Rightarrow> conn \<Rightarrow> conn \<Rightarrow> bool" where
  "exec_step L c c' \<longleftrightarrow> same_env c c' \<and> prefix (t_outbox c) (t_outbox c') \<and>
     (\<exists>old new. t_executions c' = old @ new \<and> list_all2 erow_step (t_executions c) old) \<and>
     (execs_ok L (t_executions c) \<longrightarrow> execs_ok L (t_executions c'))"

lemma erow_step_refl [simp]: "erow_step r r"
  by (simp add: erow_step_def)

lemma erow_step_trans: "erow_step a b \<Longrightarrow> erow_step b c \<Longrightarrow> erow_step a c"
  by (auto simp: erow_step_def)

lemma erow_step_identity: "erow_step r r' \<Longrightarrow> identity r' = identity r"
  by (auto simp: erow_step_def)

lemma identity_key: "identity r' = identity r \<Longrightarrow> exec_key r' = exec_key r"
  by (simp add: identity_def exec_key_def)

lemma erow_step_completed: "erow_step r r' \<Longrightarrow> xr_state r = ''completed'' \<Longrightarrow> r' = r"
  by (auto simp: erow_step_def)

lemma exec_stepI:
  assumes "same_env c c'" "prefix (t_outbox c) (t_outbox c')" "t_executions c' = old @ new"
    and "list_all2 erow_step (t_executions c) old"
    and "execs_ok L (t_executions c) \<Longrightarrow> execs_ok L (old @ new)"
  shows "exec_step L c c'"
  using assms unfolding exec_step_def by auto

lemma erows_refl: "list_all2 erow_step rows rows"
  by (simp add: list.rel_refl)

lemma same_executions_step:
  "same_env c c' \<Longrightarrow> prefix (t_outbox c) (t_outbox c') \<Longrightarrow> t_executions c' = t_executions c \<Longrightarrow> exec_step L c c'"
  by (rule exec_stepI [where new = "[]", OF _ _ _ erows_refl]) simp_all

interpretation exec: db_relation "exec_step L" for L
proof unfold_locales
  fix c c' assume "same_tables c c'" "same_env c c'"
  then show "exec_step L c c'"
    by (intro same_executions_step) (simp_all add: same_tables_def)
next
  fix c c' assume "exec_step L c c'"
  then show "same_env c c'" by (simp add: exec_step_def)
next
  fix a b c assume ab: "exec_step L a b" and bc: "exec_step L b c"
  then obtain old new old' new' where
    1: "t_executions b = old @ new" "list_all2 erow_step (t_executions a) old" and
    2: "t_executions c = old' @ new'" "list_all2 erow_step (t_executions b) old'"
    by (auto simp: exec_step_def)
  from 1(1) 2(2) obtain x y where xy: "old' = x @ y" "list_all2 erow_step old x"
    by (auto simp: list_all2_append1)
  from 1(2) xy(2) have "list_all2 erow_step (t_executions a) x"
    using list_all2_trans [of erow_step erow_step erow_step] erow_step_trans by blast
  moreover from 2(1) xy(1) have "t_executions c = x @ (y @ new')" by simp
  ultimately show "exec_step L a c"
    using ab bc unfolding exec_step_def
    by (auto intro: same_env_trans prefix_order.trans)
qed

section \<open>The statements\<close>

lemma insert_execution_frame:
  "insert_execution r c = (x, c') \<Longrightarrow> same_env c c' \<and> t_entries c' = t_entries c \<and>
     t_pendings c' = t_pendings c \<and> t_outbox c' = t_outbox c"
  by (auto simp: insert_execution_def sql_def same_env_def split: if_splits)

lemma update_executions_frame:
  "update_executions p f c = (x, c') \<Longrightarrow> same_env c c' \<and> t_entries c' = t_entries c \<and>
     t_pendings c' = t_pendings c \<and> t_outbox c' = t_outbox c"
  by (auto simp: update_executions_def sql_def same_env_def split: if_splits)

lemma insert_outbox_frame:
  "insert_outbox r c = (x, c') \<Longrightarrow> same_env c c' \<and> t_entries c' = t_entries c \<and>
     t_pendings c' = t_pendings c \<and> t_executions c' = t_executions c \<and>
     prefix (t_outbox c) (t_outbox c')"
  by (auto simp: insert_outbox_def sql_def same_env_def split: if_splits)

lemma append_frame:
  "append_on_connection L req c = (x, c') \<Longrightarrow> same_env c c' \<and> other_tables c c'"
  using append_on_connection_Inl append_on_connection_Inr(1,2)
  by (cases x) (fastforce simp: same_tables_def other_tables_def)+

lemma pending_frame:
  "insert_pending r c = (x, c') \<Longrightarrow> same_env c c' \<and> t_executions c' = t_executions c \<and> t_outbox c' = t_outbox c"
  "update_pendings p f c = (y, c') \<Longrightarrow> same_env c c' \<and> t_executions c' = t_executions c \<and> t_outbox c' = t_outbox c"
  by (auto simp: insert_pending_def update_pendings_def sql_def same_env_def split: if_splits)

lemma statements_keep_log:
  "keeps (log_step L) (insert_execution r)" "keeps (log_step L) (update_executions p f)"
  "keeps (log_step L) (insert_outbox o')"
  by (auto intro!: keepsI same_entries_log
      dest: insert_execution_frame update_executions_frame insert_outbox_frame)

lemma statements_keep_review:
  "keeps (review_step L) (insert_execution r)" "keeps (review_step L) (update_executions p f)"
  "keeps (review_step L) (insert_outbox o')" "keeps (review_step L) (append_on_connection L' req)"
  by (auto intro!: keepsI same_pendings_review simp: other_tables_def
      dest: insert_execution_frame update_executions_frame insert_outbox_frame append_frame)

lemma statements_keep_exec:
  "keeps (exec_step L) (insert_outbox o')" "keeps (exec_step L) (append_on_connection L' req)"
  "keeps (exec_step L) (insert_pending r)" "keeps (exec_step L) (update_pendings p f)"
  by (auto intro!: keepsI same_executions_step simp: other_tables_def
      dest: insert_outbox_frame append_frame pending_frame)

lemma insert_execution_exec:
  assumes "exec_row_ok L r"
  shows "keeps (exec_step L) (insert_execution r)"
  unfolding insert_execution_def
proof (rule exec.keeps_sql, rule keepsI)
  fix c c' :: conn and res
  assume s: "(if \<exists>r' \<in> set (t_executions c). xr_agent_id r' = xr_agent_id r \<and>
      xr_idempotency_id r' = xr_idempotency_id r \<or> xr_execution_id r' = xr_execution_id r
      then (Inl ConstraintViolation, c)
      else (Inr (), c\<lparr>t_executions := t_executions c @ [r]\<rparr>)) = (res, c')"
  show "exec_step L c c'"
  proof (cases "\<exists>r' \<in> set (t_executions c). xr_agent_id r' = xr_agent_id r \<and>
      xr_idempotency_id r' = xr_idempotency_id r \<or> xr_execution_id r' = xr_execution_id r")
    case True
    with s show ?thesis by (simp add: exec.rel_refl)
  next
    case False
    then have "exec_key r \<notin> exec_key ` set (t_executions c)"
      "xr_execution_id r \<notin> xr_execution_id ` set (t_executions c)"
      by (auto simp: exec_key_def)
    with assms have ok: "execs_ok L (t_executions c) \<Longrightarrow> execs_ok L (t_executions c @ [r])"
      by (simp add: execs_ok_def)
    from s have c': "c' = c\<lparr>t_executions := t_executions c @ [r]\<rparr>"
      unfolding if_not_P [OF False] by simp
    show ?thesis
      using ok by (intro exec_stepI [OF _ _ _ erows_refl]) (simp_all add: c' same_env_def)
  qed
qed

lemma update_executions_exec:
  assumes "\<And>r. p r \<Longrightarrow> erow_step r (f r)" "\<And>r. p r \<Longrightarrow> exec_row_ok L r \<Longrightarrow> exec_row_ok L (f r)"
  shows "keeps (exec_step L) (update_executions p f)"
  unfolding update_executions_def
proof (rule exec.keeps_sql, rule keepsI)
  fix c c' :: conn and res
  let ?g = "\<lambda>r. if p r then f r else r"
  assume "(Inr (length (filter p (t_executions c))), c\<lparr>t_executions := map ?g (t_executions c)\<rparr>) = (res, c')"
  then have c': "c' = c\<lparr>t_executions := map ?g (t_executions c)\<rparr>" by simp
  have step: "erow_step r (?g r)" for r
    using assms(1) by simp
  then have rows: "list_all2 erow_step (t_executions c) (map ?g (t_executions c))"
    by (simp add: list_all2_map2 list.rel_refl)
  have "map exec_key (map ?g (t_executions c)) = map exec_key (t_executions c)"
    using identity_key [OF erow_step_identity [OF step]] by (simp del: if_split)
  moreover have "map xr_execution_id (map ?g (t_executions c)) = map xr_execution_id (t_executions c)"
    using erow_step_identity [OF step] by (simp add: identity_def del: if_split)
  moreover have "\<forall>r \<in> set (t_executions c). exec_row_ok L r \<Longrightarrow>
      \<forall>r \<in> set (map ?g (t_executions c)). exec_row_ok L r"
    using assms(2) by auto
  ultimately have "execs_ok L (t_executions c) \<Longrightarrow> execs_ok L (map ?g (t_executions c))"
    unfolding execs_ok_def by metis
  with rows show "exec_step L c c'"
    by (intro exec_stepI [where new = "[]"]) (simp_all add: c' same_env_def)
qed

section \<open>The operations\<close>

lemma storable_strings:
  assumes "\<And>k v. (k, v) \<in> set kvs \<Longrightarrow> \<exists>s. v = JStr s"
  shows "storable (json_obj kvs)"
proof -
  have "json_exact (json_obj kvs)" by (rule json_exact_obj) (auto dest: assms)
  moreover have "json_depth (json_obj kvs) \<le> Suc 0" by (rule json_depth_obj) (auto dest: assms)
  ultimately show ?thesis by (simp add: storable_def)
qed

lemma intent_storable: "storable_request (intent_log L b)"
proof -
  have "storable (the (lr_policy_decision (intent_log L b)))"
    unfolding intent_log_def log_request.simps option.sel by (rule storable_strings) auto
  then show ?thesis by (simp add: storable_request_def intent_log_def)
qed

lemma uncertain_storable: "storable_request (uncertain_log r)"
proof -
  have "storable (uncertain_receipt r)"
    unfolding uncertain_receipt_def by (rule storable_strings) auto
  then show ?thesis by (simp add: storable_request_def uncertain_log_def)
qed

text \<open>A result that comes back from the policy_decision column once nested in the receipt.\<close>

definition retainable :: "lib \<Rightarrow> string \<Rightarrow> bool" where
  "retainable L body \<longleftrightarrow> json_exact (result_value L body) \<and> json_depth (result_value L body) < 127"

lemma receipt_storable:
  assumes "retainable L body" "status < 65536"
  shows "storable (receipt L b status body)"
proof -
  have "json_exact (receipt L b status body)"
    unfolding receipt_def Let_def
    by (rule json_exact_obj) (use assms in \<open>auto simp: retainable_def int_ok_def\<close>)
  moreover have "json_depth (receipt L b status body) \<le> Suc 126"
    unfolding receipt_def Let_def
    by (rule json_depth_obj) (use assms in \<open>auto simp: retainable_def\<close>)
  ultimately show ?thesis by (simp add: storable_def)
qed

lemma completion_storable:
  "retainable L body \<Longrightarrow> status < 65536 \<Longrightarrow> storable_request (completion_log b (receipt L b status body))"
  by (simp add: storable_request_def completion_log_def receipt_storable)

lemma keeps_owner:
  assumes "\<And>owner. keeps R (m owner)"
  shows "keeps R (\<lambda>c. m (instance_id c) c)"
  using assms unfolding keeps_def by blast

context db_relation begin

lemma begin_keeps:
  assumes "keeps R (append_on_connection L (intent_log L b))"
    and "\<And>now owner. keeps R (insert_execution (intent_row L b owner now))"
  shows "keeps R (begin_server_execution L b)"
  unfolding begin_server_execution_def
proof (rule keeps_with, rule keeps_owner, rule keeps_transaction)
  fix owner
  have missing: "keeps R (bind_db utc_now (\<lambda>now. bind_db (insert_execution (intent_row L b owner now))
      (\<lambda>_. bind_db (append_on_connection L (intent_log L b)) (\<lambda>_. return_db (Commit Started)))))"
    by (intro keeps_bind keeps_now keeps_return assms)
  show "keeps R (begin_transaction L b owner)"
    unfolding begin_transaction_def inspect_execution_def
  proof (intro keeps_bind keeps_select keeps_lift)
    fix outcome
    show "keeps R (case outcome of
        Missing \<Rightarrow> bind_db utc_now (\<lambda>now. bind_db (insert_execution (intent_row L b owner now))
          (\<lambda>_. bind_db (append_on_connection L (intent_log L b)) (\<lambda>_. return_db (Commit Started))))
      | _ \<Rightarrow> return_db (Drop outcome))"
      using missing by (cases outcome) (simp_all add: keeps_return)
  qed
qed

lemma complete_keeps:
  assumes "keeps R (append_on_connection L (completion_log b (receipt L b status body)))"
    and "\<And>s. keeps R (update_executions (awaits_result L b)
           (completed_row status ct body (result_digest L body) (print_json L (receipt L b status body)) s))"
    and "\<And>e x p n. keeps R (insert_outbox (outbox_entry L e x p n))"
  shows "keeps R (complete_server_execution L b status ct body)"
  unfolding complete_server_execution_def
proof (intro keeps_bind keeps_now keeps_with keeps_transaction)
  fix now
  show "keeps R (complete_transaction L b status ct body (show_time L now))"
    unfolding complete_transaction_def Let_def
  proof (rule keeps_bind [OF assms(2)])
    fix changed :: nat
    show "keeps R (if changed \<noteq> 1 then fail_db QueryReturnedNoRows
        else bind_db (insert_outbox (outbox_entry L (outbox_event_id L (show_uuid L (execution_id L b)))
               (show_uuid L (execution_id L b)) (print_json L (receipt L b status body)) (show_time L now)))
            (\<lambda>_. bind_db (append_on_connection L (completion_log b (receipt L b status body)))
              (\<lambda>_. return_db (Commit
                \<lparr>ec_execution_id = show_uuid L (execution_id L b), ec_status = status, ec_content_type = ct,
                 ec_body = body, ec_result_sha256 = result_digest L body,
                 ec_receipt_json = print_json L (receipt L b status body)\<rparr>))))"
      by (cases "changed = 1")
         (simp_all only: if_True if_False simp_thms keeps_fail keeps_bind keeps_return assms(1,3))
  qed
qed

lemma reconcile_keeps:
  assumes "\<And>r. keeps R (append_on_connection L (uncertain_log r))"
    and "\<And>i now. keeps R (update_executions (still_pending i) (uncertain_row now))"
    and "\<And>e x p n. keeps R (insert_outbox (outbox_entry L e x p n))"
  shows "keeps R (reconcile_server_executions_at L t)"
proof -
  have "keeps R (reconcile_row L now r)" for now r
    unfolding reconcile_row_def
  proof (rule keeps_bind [OF assms(2)])
    fix changed :: nat
    show "keeps R (if changed \<noteq> 1 then fail_db InvalidQuery
        else bind_db (insert_outbox (outbox_entry L (uncertain_event_id L (xr_execution_id r))
               (xr_execution_id r) (print_json L (uncertain_receipt r)) now))
            (\<lambda>_. bind_db (append_on_connection L (uncertain_log r)) (\<lambda>_. return_db ())))"
      by (cases "changed = 1")
         (simp_all only: if_True if_False simp_thms keeps_fail keeps_bind keeps_return assms(1,3))
  qed
  then have "keeps R (reconcile_rows L now rs)" for now rs
    by (induction rs) (simp_all add: keeps_bind keeps_return)
  then have "keeps R (reconcile_transaction L cutoff now this)" for cutoff now this
    unfolding reconcile_transaction_def by (intro keeps_bind keeps_select keeps_return)
  then have "keeps R (transaction (reconcile_transaction L cutoff now this))" for cutoff now this
    by (rule keeps_transaction)
  then show ?thesis
    unfolding reconcile_server_executions_at_def Let_def
    by (intro keeps_with) (rule keeps_owner [where m = "\<lambda>this. transaction
        (reconcile_transaction L (show_time L (t - 300 * 1000000000)) (show_time L t) this)"])
qed

end

lemma intent_row_ok: "exec_row_ok L (intent_row L b owner now)"
  by (simp add: exec_row_ok_def intent_row_def execution_id_def)

lemma completed_row_step:
  assumes "awaits_result L b r" "status < 65536"
  shows "erow_step r (completed_row status ct body h rj now r)"
    and "exec_row_ok L r \<Longrightarrow> exec_row_ok L (completed_row status ct body h rj now r)"
  using assms
  by (auto simp: erow_step_def awaits_result_def completed_row_def identity_def exec_row_ok_def
      completed_of_def ok_or_def u16_of_def)

lemma uncertain_row_step:
  assumes "xr_state r = ''in_flight''"
  shows "erow_step r (uncertain_row now r)"
    and "exec_row_ok L r \<Longrightarrow> exec_row_ok L (uncertain_row now r)"
  using assms by (auto simp: erow_step_def uncertain_row_def identity_def exec_row_ok_def)

lemma begin_steps:
  "keeps (log_step L) (begin_server_execution L b)"
  "keeps (review_step L) (begin_server_execution L' b)"
  "keeps (exec_step L) (begin_server_execution L b)"
  by (intro log.begin_keeps append_keeps_log intent_storable statements_keep_log)
     (intro review.begin_keeps statements_keep_review exec.begin_keeps statements_keep_exec
       insert_execution_exec intent_row_ok)+

lemma complete_keeps_log:
  "retainable L body \<Longrightarrow> status < 65536 \<Longrightarrow> keeps (log_step L) (complete_server_execution L b status ct body)"
  by (intro log.complete_keeps append_keeps_log completion_storable statements_keep_log)

lemma complete_keeps_review: "keeps (review_step L) (complete_server_execution L' b status ct body)"
  by (intro review.complete_keeps statements_keep_review)

lemma complete_keeps_exec:
  "status < 65536 \<Longrightarrow> keeps (exec_step L) (complete_server_execution L b status ct body)"
  by (intro exec.complete_keeps statements_keep_exec update_executions_exec completed_row_step)

lemma uncertain_update_exec: "keeps (exec_step L) (update_executions (still_pending i) (uncertain_row now))"
  by (intro update_executions_exec uncertain_row_step) (simp_all add: still_pending_def)

lemma reconcile_steps:
  "keeps (log_step L) (reconcile_server_executions_at L t)"
  "keeps (review_step L) (reconcile_server_executions_at L' t)"
  "keeps (exec_step L) (reconcile_server_executions_at L t)"
  by (intro log.reconcile_keeps append_keeps_log uncertain_storable statements_keep_log)
     (intro review.reconcile_keeps statements_keep_review exec.reconcile_keeps statements_keep_exec
       uncertain_update_exec)+

lemma append_ledger_steps:
  "keeps (review_step L) (append_ledger L' req)" "keeps (exec_step L) (append_ledger L' req)"
  unfolding append_ledger_def
  by (intro review.keeps_with exec.keeps_with statements_keep_review statements_keep_exec)+

lemma pending_exec_steps:
  "keeps (exec_step L) (park_pending L' q)" "keeps (exec_step L) (decide_pending_scoped L' i t d n)"
  unfolding park_pending_def decide_pending_scoped_def decide_on_connection_def
  by (auto intro!: exec.keeps_rules statements_keep_exec)

end
