(* ===== verification/Exec_Contract.thy ===== *)
theory Exec_Contract
  imports Exec_Steps
begin

text \<open>
  The durable-execution contract: an identity is started at most once, a completed execution is
  replayed byte for byte, another payload under the same identity is refused, and an execution that
  was classified uncertain can never be completed.
\<close>

section \<open>Rows through time\<close>

definition row_of_binding :: "lib \<Rightarrow> server_execution_binding \<Rightarrow> conn \<Rightarrow> execution_row option" where
  "row_of_binding L b c = find (has_identity L b) (t_executions c)"

definition same_key :: "server_execution_binding \<Rightarrow> server_execution_binding \<Rightarrow> bool" where
  "same_key b b' \<longleftrightarrow> sb_agent_id b = sb_agent_id b' \<and> sb_idempotency_id b = sb_idempotency_id b'"

lemma has_identity_cong: "same_key b b' \<Longrightarrow> has_identity L b = has_identity L b'"
  by (simp add: fun_eq_iff has_identity_def same_key_def)

lemma row_of_binding_cong: "same_key b b' \<Longrightarrow> row_of_binding L b c = row_of_binding L b' c"
  by (simp add: row_of_binding_def has_identity_cong [of b b'])

lemma row_of_binding_tick [simp]: "row_of_binding L b (tick c) = row_of_binding L b c"
  by (simp add: row_of_binding_def)

lemma row_of_binding_Some:
  "row_of_binding L b c = Some r \<Longrightarrow> r \<in> set (t_executions c) \<and> has_identity L b r"
  by (auto simp: row_of_binding_def find_Some_iff)

lemma find_rows_step:
  "list_all2 erow_step rows rows' \<Longrightarrow> find (has_identity L b) rows = Some r \<Longrightarrow>
     \<exists>r'. find (has_identity L b) rows' = Some r' \<and> erow_step r r'"
proof (induction rule: list_all2_induct)
  case Nil
  then show ?case by simp
next
  case (Cons x xs y ys)
  from erow_step_identity [OF Cons.hyps(1)] have "has_identity L b y = has_identity L b x"
    by (simp add: identity_def has_identity_def)
  with Cons show ?case by (auto split: if_splits)
qed

lemma row_persists:
  assumes "exec_step L c c'" "row_of_binding L b c = Some r"
  shows "\<exists>r'. row_of_binding L b c' = Some r' \<and> erow_step r r'"
proof -
  from assms(1) obtain old new where on: "t_executions c' = old @ new"
    "list_all2 erow_step (t_executions c) old" by (auto simp: exec_step_def)
  from assms(2) have "find (has_identity L b) (t_executions c) = Some r"
    by (simp add: row_of_binding_def)
  from find_rows_step [OF on(2) this] obtain r' where
    "find (has_identity L b) old = Some r'" "erow_step r r'" by blast
  with on(1) show ?thesis by (auto simp: row_of_binding_def find_append)
qed

lemma inspect_execution_result:
  "inspect_execution L b c =
     (if fault c (calls c) then (Inl SqliteFailure, tick c)
      else (inspect_row b (row_of_binding L b c), tick c))"
  by (simp add: inspect_execution_def select_def sql_def bind_db_def lift_result_def
      row_of_binding_def split: sum.splits)

lemma inspect_result:
  "inspect_server_execution L b c = (r, c') \<Longrightarrow>
     same_tables c c' \<and>
     (r = Inl SqliteFailure \<and> (\<exists>k. fault c k) \<or> r = inspect_row b (row_of_binding L b c))"
  by (auto simp: inspect_server_execution_def with_connection_def with_connection_result_def
      inspect_execution_result same_tables_def split: if_splits)

section \<open>Starting\<close>

lemma insert_execution_Inr:
  "insert_execution r c = (Inr u, c') \<longleftrightarrow> \<not> fault c (calls c) \<and>
     (\<forall>r' \<in> set (t_executions c). \<not> (xr_agent_id r' = xr_agent_id r \<and>
        xr_idempotency_id r' = xr_idempotency_id r \<or> xr_execution_id r' = xr_execution_id r)) \<and>
     c' = (tick c)\<lparr>t_executions := t_executions c @ [r]\<rparr>"
  by (auto simp: insert_execution_def sql_def)

lemma begin_transaction_cases:
  assumes "begin_transaction L b owner c = (Inr out, c')"
  shows "(\<exists>o'. out = Drop o' \<and> inspect_row b (row_of_binding L b c) = Inr o' \<and> o' \<noteq> Missing) \<or>
    (\<exists>now e. out = Commit Started \<and> row_of_binding L b c = None \<and>
       t_executions c' = t_executions c @ [intent_row L b owner now] \<and>
       t_entries c' = t_entries c @ [entry_to_row L e] \<and> entry_of_request L (intent_log L b) e \<and>
       t_pendings c' = t_pendings c \<and> t_outbox c' = t_outbox c)"
proof -
  from assms obtain o' where o': "inspect_row b (row_of_binding L b c) = Inr o'"
    and rest: "(case o' of
        Missing \<Rightarrow> bind_db utc_now (\<lambda>now. bind_db (insert_execution (intent_row L b owner now))
          (\<lambda>_. bind_db (append_on_connection L (intent_log L b)) (\<lambda>_. return_db (Commit Started))))
      | _ \<Rightarrow> return_db (Drop o')) (tick c) = (Inr out, c')"
    by (auto simp: begin_transaction_def bind_db_Inr inspect_execution_result split: if_splits)
  show ?thesis
  proof (cases "o' = Missing")
    case False
    with rest o' show ?thesis by (cases o') (auto simp: return_db_def)
  next
    case True
    with rest obtain now c1 c2 e where
      ins: "insert_execution (intent_row L b owner now) c1 = (Inr (), c2)"
      and c1: "t_entries c1 = t_entries c" "t_executions c1 = t_executions c"
        "t_pendings c1 = t_pendings c" "t_outbox c1 = t_outbox c"
      and app: "append_on_connection L (intent_log L b) c2 = (Inr e, c')"
      and out: "out = Commit Started"
      by (auto simp: bind_db_Inr utc_now_def return_db_def)
    from True o' have "row_of_binding L b c = None"
      by (auto simp: inspect_row_def split: option.splits if_splits)
    moreover note append_on_connection_Inr(2-4) [OF app]
    moreover from ins c1 have "t_executions c2 = t_executions c @ [intent_row L b owner now]"
      "t_entries c2 = t_entries c" "t_pendings c2 = t_pendings c" "t_outbox c2 = t_outbox c"
      by (simp_all add: insert_execution_Inr)
    ultimately show ?thesis using out by (simp add: other_tables_def) blast
  qed
qed

lemma begin_cases:
  assumes "begin_server_execution L b c = (r, c')"
  shows "same_tables c c' \<and> r \<noteq> Inr Started \<and>
      (r = Inl SqliteFailure \<or> (\<exists>e. r = Inl e) \<or> r = inspect_row b (row_of_binding L b c)) \<or>
    (\<exists>now e. r = Inr Started \<and> row_of_binding L b c = None \<and>
       t_executions c' = t_executions c @ [intent_row L b (instance_id c) now] \<and>
       t_entries c' = t_entries c @ [entry_to_row L e] \<and> entry_of_request L (intent_log L b) e \<and>
       t_pendings c' = t_pendings c \<and> t_outbox c' = t_outbox c)"
proof -
  have ne: "inspect_row b x \<noteq> Inr Started" for x
    by (auto simp: inspect_row_def split: option.splits)
  show ?thesis
  proof (cases r)
    case (Inl e)
    with assms have "same_tables c c'"
      by (auto simp: begin_server_execution_def with_connection_Inl same_tables_def
          dest!: transaction_Inl)
    with Inl show ?thesis by auto
  next
    case (Inr x)
    with assms have "transaction (begin_transaction L b (instance_id (tick c))) (tick c) = (Inr x, c')"
      by (simp add: begin_server_execution_def with_connection_Inr)
    then consider (drop) c2 where "begin_transaction L b (instance_id c) (tick (tick c)) = (Inr (Drop x), c2)"
        "same_tables c c'"
      | (commit) c2 where "begin_transaction L b (instance_id c) (tick (tick c)) = (Inr (Commit x), c2)"
        "c' = tick c2"
      by (auto dest!: transaction_Inr simp: same_tables_def)
    then show ?thesis
    proof cases
      case drop
      with Inr begin_transaction_cases [OF drop(1)] ne show ?thesis by auto
    next
      case commit
      with Inr begin_transaction_cases [OF commit(1)] show ?thesis by auto
    qed
  qed
qed

section \<open>Completing\<close>

lemma insert_outbox_Inr:
  "insert_outbox r c = (Inr u, c') \<longleftrightarrow> \<not> fault c (calls c) \<and>
     (\<forall>r' \<in> set (t_outbox c). ob_event_id r' \<noteq> ob_event_id r \<and> ob_execution_id r' \<noteq> ob_execution_id r) \<and>
     c' = (tick c)\<lparr>t_outbox := t_outbox c @ [r]\<rparr>"
  by (auto simp: insert_outbox_def sql_def)

lemma update_executions_Inr:
  "update_executions p f c = (Inr n, c') \<longleftrightarrow> \<not> fault c (calls c) \<and>
     n = length (filter p (t_executions c)) \<and>
     c' = (tick c)\<lparr>t_executions := map (\<lambda>r. if p r then f r else r) (t_executions c)\<rparr>"
  by (auto simp: update_executions_def sql_def)

definition completed_record ::
    "lib \<Rightarrow> server_execution_binding \<Rightarrow> nat \<Rightarrow> string option \<Rightarrow> string \<Rightarrow> server_execution_completed" where
  "completed_record L b status ct body =
     \<lparr>ec_execution_id = show_uuid L (execution_id L b), ec_status = status, ec_content_type = ct,
      ec_body = body, ec_result_sha256 = result_digest L body,
      ec_receipt_json = print_json L (receipt L b status body)\<rparr>"

lemma complete_transaction_cases:
  assumes "complete_transaction L b status ct body now c = (Inr out, c')"
  shows "out = Commit (completed_record L b status ct body) \<and>
    length (filter (awaits_result L b) (t_executions c)) = 1 \<and>
    t_executions c' = map (\<lambda>r. if awaits_result L b r
        then completed_row status ct body (result_digest L body) (print_json L (receipt L b status body)) now r
        else r) (t_executions c) \<and>
    (\<forall>o' \<in> set (t_outbox c). ob_execution_id o' \<noteq> show_uuid L (execution_id L b)) \<and>
    (\<exists>o'. t_outbox c' = t_outbox c @ [o'] \<and> ob_execution_id o' = show_uuid L (execution_id L b) \<and>
       ob_payload_json o' = print_json L (receipt L b status body)) \<and>
    (\<exists>e. t_entries c' = t_entries c @ [entry_to_row L e] \<and>
       entry_of_request L (completion_log b (receipt L b status body)) e) \<and>
    t_pendings c' = t_pendings c"
proof -
  let ?rj = "print_json L (receipt L b status body)" and ?ex = "show_uuid L (execution_id L b)"
  let ?f = "completed_row status ct body (result_digest L body) ?rj now"
  let ?ob = "outbox_entry L (outbox_event_id L ?ex) ?ex ?rj now"
  from assms obtain n c1 c2 e where
    u: "update_executions (awaits_result L b) ?f c = (Inr n, c1)" "n = 1"
    and ob: "insert_outbox ?ob c1 = (Inr (), c2)"
    and app: "append_on_connection L (completion_log b (receipt L b status body)) c2 = (Inr e, c')"
    and out: "out = Commit (completed_record L b status ct body)"
    by (auto simp: complete_transaction_def Let_def bind_db_Inr fail_db_def return_db_def
        completed_record_def split: if_splits)
  from u have c1: "t_executions c1 = map (\<lambda>r. if awaits_result L b r then ?f r else r) (t_executions c)"
    "length (filter (awaits_result L b) (t_executions c)) = 1"
    "t_outbox c1 = t_outbox c" "t_entries c1 = t_entries c" "t_pendings c1 = t_pendings c"
    by (auto simp: update_executions_Inr)
  from ob c1 have c2: "t_executions c2 = t_executions c1" "t_outbox c2 = t_outbox c @ [?ob]"
    "t_entries c2 = t_entries c" "t_pendings c2 = t_pendings c"
    "\<forall>o' \<in> set (t_outbox c). ob_execution_id o' \<noteq> ?ex"
    by (auto simp: insert_outbox_Inr outbox_entry_def)
  have obs: "ob_execution_id ?ob = ?ex" "ob_payload_json ?ob = ?rj"
    by (simp_all add: outbox_entry_def)
  from append_on_connection_Inr(2-4) [OF app] c1 c2 obs out show ?thesis
    by (simp add: other_tables_def) blast
qed

lemma complete_transaction_drop: "complete_transaction L b status ct body now c \<noteq> (Inr (Drop x), c')"
  by (auto dest: complete_transaction_cases)

lemma complete_cases:
  assumes "complete_server_execution L b status ct body c = (r, c')"
  shows "(\<exists>e. r = Inl e) \<and> same_tables c c' \<or>
    (\<exists>now c1 c2. r = Inr (completed_record L b status ct body) \<and> same_tables c c1 \<and>
       complete_transaction L b status ct body now c1 = (Inr (Commit (completed_record L b status ct body)), c2) \<and>
       c' = tick c2)"
proof -
  let ?t = "transaction (complete_transaction L b status ct body (show_time L (clock c (calls c))))"
  from assms have w: "with_connection ?t (tick c) = (r, c')"
    by (simp add: complete_server_execution_def bind_db_def utc_now_def)
  show ?thesis
  proof (cases r)
    case (Inl e)
    with w have "same_tables c c'"
      by (auto simp: with_connection_Inl same_tables_def dest!: transaction_Inl)
    with Inl show ?thesis by blast
  next
    case (Inr x)
    with w have "?t (tick (tick c)) = (Inr x, c')" by (simp add: with_connection_Inr)
    then obtain c2 where c2: "complete_transaction L b status ct body (show_time L (clock c (calls c)))
        (tick (tick (tick c))) = (Inr (Commit x), c2)" "c' = tick c2"
      by (auto dest!: transaction_Inr simp: complete_transaction_drop)
    from complete_transaction_cases [OF c2(1)] have "x = completed_record L b status ct body" by simp
    moreover have "same_tables c (tick (tick (tick c)))" by (simp add: same_tables_def)
    ultimately show ?thesis using c2 Inr by blast
  qed
qed

lemma completed_row_of:
  "status < 65536 \<Longrightarrow> xr_execution_id r = show_uuid L (execution_id L b) \<Longrightarrow>
     completed_of (completed_row status ct body (result_digest L body)
       (print_json L (receipt L b status body)) now r) = Inr (completed_record L b status ct body)"
  by (simp add: completed_of_def completed_row_def ok_or_def u16_of_def completed_record_def)

text \<open>After the commit the row of the binding is completed and holds the response.\<close>

lemma complete_row:
  assumes "execs_ok L (t_executions c)" "status < 65536"
    and "complete_server_execution L b status ct body c = (Inr done', c')"
  shows "\<exists>r. row_of_binding L b c' = Some r \<and> xr_state r = ''completed'' \<and>
    completed_of r = Inr (completed_record L b status ct body) \<and>
    (\<exists>r0. row_of_binding L b c = Some r0 \<and> identity r = identity r0)"
proof -
  from complete_cases [OF assms(3)] obtain now c1 c2 where
    c1: "same_tables c c1" and c': "c' = tick c2" and
    t: "complete_transaction L b status ct body now c1 = (Inr (Commit (completed_record L b status ct body)), c2)"
    by auto
  let ?f = "completed_row status ct body (result_digest L body) (print_json L (receipt L b status body)) now"
  let ?g = "\<lambda>r. if awaits_result L b r then ?f r else r"
  note tc = complete_transaction_cases [OF t]
  then have ex: "t_executions c' = map ?g (t_executions c)"
    "length (filter (awaits_result L b) (t_executions c)) = 1"
    using c1 by (simp_all add: c' same_tables_def)
  then obtain r0 where r0: "r0 \<in> set (t_executions c)" "awaits_result L b r0"
    by (metis filter_empty_conv list.size(3) zero_neq_one)
  then have key: "has_identity L b r0" by (simp add: awaits_result_def)
  have uniq: "r = r0" if "r \<in> set (t_executions c)" "has_identity L b r" for r
    using that r0(1) key assms(1)
    by (auto simp: execs_ok_def distinct_map inj_on_def exec_key_def has_identity_def)
  have inv: "has_identity L b (?g r) = has_identity L b r" for r
    by (simp add: has_identity_def completed_row_def)
  have "row_of_binding L b c' = map_option ?g (row_of_binding L b c)"
    unfolding row_of_binding_def ex(1) by (rule find_map_same) (rule inv)
  moreover obtain r where r: "row_of_binding L b c = Some r"
    using r0(1) key by (cases "row_of_binding L b c") (auto simp: row_of_binding_def find_None_iff)
  then have "r = r0" using uniq by (auto dest: row_of_binding_Some)
  moreover have "xr_execution_id r0 = show_uuid L (execution_id L b)"
    using r0(1) key assms(1) by (auto simp: execs_ok_def exec_row_ok_def execution_id_def has_identity_def)
  ultimately show ?thesis
    using r r0(2) completed_row_of [OF assms(2)]
    by (auto simp: completed_row_def identity_def)
qed

section \<open>Reconciling\<close>

definition marked :: "string \<Rightarrow> string set \<Rightarrow> execution_row \<Rightarrow> execution_row" where
  "marked now ids x =
     (if xr_execution_id x \<in> ids \<and> still_pending (xr_execution_id x) x then uncertain_row now x else x)"

lemma uncertain_row_sel [simp]:
  "xr_execution_id (uncertain_row now x) = xr_execution_id x" "\<not> still_pending i (uncertain_row now x)"
  by (simp_all add: uncertain_row_def still_pending_def)

lemma marked_marked: "marked now ids (marked now {i} x) = marked now (insert i ids) x"
  by (cases "still_pending (xr_execution_id x) x") (simp_all add: marked_def)

lemma reconcile_row_Inr:
  assumes "reconcile_row L now r c = (Inr u, c')"
  shows "t_executions c' = map (marked now {xr_execution_id r}) (t_executions c) \<and>
    map ob_execution_id (t_outbox c') = map ob_execution_id (t_outbox c) @ [xr_execution_id r] \<and>
    (\<exists>e. t_entries c' = t_entries c @ [entry_to_row L e] \<and> entry_of_request L (uncertain_log r) e) \<and>
    t_pendings c' = t_pendings c"
proof -
  let ?ob = "outbox_entry L (uncertain_event_id L (xr_execution_id r)) (xr_execution_id r)
      (print_json L (uncertain_receipt r)) now"
  from assms obtain n c1 c2 e where
    u: "update_executions (still_pending (xr_execution_id r)) (uncertain_row now) c = (Inr n, c1)"
    and ob: "insert_outbox ?ob c1 = (Inr (), c2)"
    and app: "append_on_connection L (uncertain_log r) c2 = (Inr e, c')"
    by (auto simp: reconcile_row_def bind_db_Inr fail_db_def return_db_def split: if_splits)
  have g: "(\<lambda>x. if still_pending (xr_execution_id r) x then uncertain_row now x else x) =
      marked now {xr_execution_id r}"
    by (auto simp: fun_eq_iff marked_def still_pending_def)
  from u g have c1: "t_executions c1 = map (marked now {xr_execution_id r}) (t_executions c)"
    "t_outbox c1 = t_outbox c" "t_entries c1 = t_entries c" "t_pendings c1 = t_pendings c"
    by (simp_all add: update_executions_Inr)
  from ob c1 have c2: "t_executions c2 = t_executions c1" "t_outbox c2 = t_outbox c @ [?ob]"
    "t_entries c2 = t_entries c" "t_pendings c2 = t_pendings c"
    by (auto simp: insert_outbox_Inr)
  have "ob_execution_id ?ob = xr_execution_id r" by (simp add: outbox_entry_def)
  with append_on_connection_Inr(2-4) [OF app] c1 c2 show ?thesis
    by (simp add: other_tables_def) blast
qed

lemma reconcile_rows_Inr:
  "reconcile_rows L now rs c = (Inr u, c') \<Longrightarrow>
    t_executions c' = map (marked now (set (map xr_execution_id rs))) (t_executions c) \<and>
    map ob_execution_id (t_outbox c') = map ob_execution_id (t_outbox c) @ map xr_execution_id rs \<and>
    (\<exists>es. t_entries c' = t_entries c @ map (entry_to_row L) es \<and>
       list_all2 (\<lambda>r e. entry_of_request L (uncertain_log r) e) rs es) \<and>
    t_pendings c' = t_pendings c"
proof (induction rs arbitrary: c)
  case Nil
  have "marked now {} = (\<lambda>x. x)" by (simp add: fun_eq_iff marked_def)
  with Nil show ?case by (auto simp: return_db_def)
next
  case (Cons r rs)
  then obtain c1 where r: "reconcile_row L now r c = (Inr (), c1)"
    and rs: "reconcile_rows L now rs c1 = (Inr u, c')"
    by (auto simp: bind_db_Inr)
  from Cons.IH [OF rs] obtain es where es: "t_entries c' = t_entries c1 @ map (entry_to_row L) es"
    "list_all2 (\<lambda>r e. entry_of_request L (uncertain_log r) e) rs es" by blast
  from reconcile_row_Inr [OF r] obtain e where e: "t_entries c1 = t_entries c @ [entry_to_row L e]"
    "entry_of_request L (uncertain_log r) e" by blast
  from es e have "t_entries c' = t_entries c @ map (entry_to_row L) (e # es)"
    "list_all2 (\<lambda>r e. entry_of_request L (uncertain_log r) e) (r # rs) (e # es)" by simp_all
  then have "\<exists>es. t_entries c' = t_entries c @ map (entry_to_row L) es \<and>
      list_all2 (\<lambda>r e. entry_of_request L (uncertain_log r) e) (r # rs) es" by blast
  moreover have "t_executions c' = map (marked now (set (map xr_execution_id (r # rs)))) (t_executions c)"
    using Cons.IH [OF rs] reconcile_row_Inr [OF r] by (simp add: marked_marked comp_def)
  moreover have "t_pendings c' = t_pendings c"
      "map ob_execution_id (t_outbox c') = map ob_execution_id (t_outbox c) @ map xr_execution_id (r # rs)"
    using Cons.IH [OF rs] reconcile_row_Inr [OF r] by simp_all
  ultimately show ?case by blast
qed

lemma abandoned_rows_tick [simp]: "abandoned_rows cutoff this (tick c) = abandoned_rows cutoff this c"
  by (simp add: abandoned_rows_def)

lemma reconcile_cases:
  assumes "reconcile_server_executions_at L t c = (r, c')"
  shows "(\<exists>e. r = Inl e) \<and> same_tables c c' \<or>
    (\<exists>rows es. r = Inr (length rows) \<and>
       rows = abandoned_rows (show_time L (t - 300 * 1000000000)) (instance_id c) c \<and>
       t_executions c' = map (marked (show_time L t) (set (map xr_execution_id rows))) (t_executions c) \<and>
       map ob_execution_id (t_outbox c') = map ob_execution_id (t_outbox c) @ map xr_execution_id rows \<and>
       t_entries c' = t_entries c @ map (entry_to_row L) es \<and>
       list_all2 (\<lambda>r e. entry_of_request L (uncertain_log r) e) rows es \<and>
       t_pendings c' = t_pendings c)"
proof (cases r)
  case (Inl e)
  with assms have "same_tables c c'"
    by (auto simp: reconcile_server_executions_at_def Let_def with_connection_Inl same_tables_def
        dest!: transaction_Inl)
  with Inl show ?thesis by blast
next
  case (Inr n)
  let ?cut = "show_time L (t - 300 * 1000000000)" and ?now = "show_time L t"
  let ?rows = "abandoned_rows ?cut (instance_id c) c"
  from Inr assms have "transaction (reconcile_transaction L ?cut ?now (instance_id (tick c))) (tick c) = (Inr n, c')"
    by (simp add: reconcile_server_executions_at_def Let_def with_connection_Inr)
  then obtain out c2 where out: "reconcile_transaction L ?cut ?now (instance_id c) (tick (tick c)) = (Inr out, c2)"
    "out = Commit n \<and> c' = tick c2 \<or> out = Drop n"
    by (auto dest!: transaction_Inr)
  from out(1) obtain c3 where c3: "reconcile_rows L ?now ?rows (tick (tick (tick c))) = (Inr (), c3)"
    "out = Commit (length ?rows)" "c2 = c3"
    by (auto simp: reconcile_transaction_def bind_db_Inr select_Inr return_db_def)
  with out(2) have c': "c' = tick c3" "n = length ?rows" by auto
  from reconcile_rows_Inr [OF c3(1)] obtain es where "t_entries c3 = t_entries c @ map (entry_to_row L) es"
    "list_all2 (\<lambda>r e. entry_of_request L (uncertain_log r) e) ?rows es" by auto
  with reconcile_rows_Inr [OF c3(1)] Inr c' show ?thesis by (intro disjI2 exI [of _ ?rows] exI [of _ es]) simp
qed

section \<open>Properties\<close>

definition same_payload :: "server_execution_binding \<Rightarrow> server_execution_binding \<Rightarrow> bool" where
  "same_payload b b' \<longleftrightarrow> sb_route b = sb_route b' \<and> sb_method b = sb_method b' \<and>
     sb_tool_name b = sb_tool_name b' \<and>
     sb_submitted_request_sha256 b = sb_submitted_request_sha256 b'"

lemma begin_started_row:
  assumes "begin_server_execution L b c = (Inr Started, c')"
  shows "\<exists>r. row_of_binding L b c' = Some r \<and> xr_state r = ''in_flight'' \<and> xr_route r = sb_route b \<and>
    xr_method r = sb_method b \<and> xr_tool_name r = sb_tool_name b \<and>
    xr_submitted_sha256 r = sb_submitted_request_sha256 b"
proof -
  from begin_cases [OF assms] obtain now where n: "row_of_binding L b c = None"
    and ex: "t_executions c' = t_executions c @ [intent_row L b (instance_id c) now]"
    by auto
  have "has_identity L b (intent_row L b (instance_id c) now)"
    by (simp add: has_identity_def intent_row_def)
  with n ex have "row_of_binding L b c' = Some (intent_row L b (instance_id c) now)"
    by (simp add: row_of_binding_def find_append)
  then show ?thesis by (simp add: intent_row_def)
qed

lemma inspect_row_ne_Missing: "inspect_row b (Some y) \<noteq> Inr Missing"
  by (cases "completed_of y") (auto simp: inspect_row_def)

text \<open>
  An identity is started at most once. The intent, one in-flight row and one unauthorized ledger
  entry, is committed before \<open>Started\<close> is returned; whatever ledger operations follow, no later
  attempt under the same agent and idempotency id, with any payload, is told to start again.
\<close>

theorem started_at_most_once:
  assumes "begin_server_execution L b c = (Inr Started, c1)" "exec_step L c1 c2" "same_key b b'"
    and "begin_server_execution L b' c2 = (r, c3)"
  shows "r \<noteq> Inr Started \<and> r \<noteq> Inr Missing \<and> same_tables c2 c3 \<and>
    (\<exists>now e. t_executions c1 = t_executions c @ [intent_row L b (instance_id c) now] \<and>
       t_entries c1 = t_entries c @ [entry_to_row L e] \<and> entry_of_request L (intent_log L b) e \<and>
       \<not> le_authorized e)"
proof -
  from begin_started_row [OF assms(1)] row_persists [OF assms(2)]
  have row: "row_of_binding L b' c2 \<noteq> None"
    using row_of_binding_cong [OF assms(3)] by fastforce
  with begin_cases [OF assms(4)] have "r \<noteq> Inr Started" "same_tables c2 c3"
    "r = inspect_row b' (row_of_binding L b' c2) \<or> (\<exists>e. r = Inl e)" by auto
  moreover from this row have "r \<noteq> Inr Missing"
    by (metis inspect_row_ne_Missing option.exhaust sum.distinct(1))
  moreover obtain now e where "t_executions c1 = t_executions c @ [intent_row L b (instance_id c) now]"
      "t_entries c1 = t_entries c @ [entry_to_row L e]" "entry_of_request L (intent_log L b) e"
    using begin_cases [OF assms(1)] by auto
  moreover from this have "\<not> le_authorized e" by (simp add: entry_of_request_def intent_log_def)
  ultimately show ?thesis by blast
qed

text \<open>A concrete execution, and the equations that evaluate a run of it.\<close>

definition binding0 :: server_execution_binding where
  "binding0 = \<lparr>sb_agent_id = ''a'', sb_idempotency_id = 5, sb_correlation_id = ''xx'', sb_route = ''/mcp'',
     sb_method = ''tools/call'', sb_tool_name = ''wire'', sb_submitted_request_sha256 = ''h'',
     sb_effective_request_sha256 = ''h''\<rparr>"

lemmas run_simps = with_connection_def with_connection_result_def transaction_def bind_db_def sql_def
  return_db_def utc_now_def new_v4_def select_def Let_def
  begin_server_execution_def begin_transaction_def inspect_execution_result row_of_binding_def
  inspect_row_def insert_execution_def append_on_connection_def tail_query_def sort_key_desc_def
  insert_entry_def complete_server_execution_def complete_transaction_def update_executions_def
  awaits_result_def has_identity_def intent_row_def insert_outbox_def entry_to_row_def new_entry_def
  lib0_def sample_lib_def conn0_def binding0_def

lemma run0: "\<exists>c1 d c2. begin_server_execution lib0 binding0 conn0 = (Inr Started, c1) \<and>
    complete_server_execution lib0 binding0 200 None ''ok'' c1 = (Inr d, c2) \<and>
    (\<forall>k. \<not> fault c1 k) \<and> (\<forall>k. \<not> fault c2 k)"
  by (simp add: run_simps)

theorem started_at_most_once_witness:
  "\<exists>c1. begin_server_execution lib0 binding0 conn0 = (Inr Started, c1) \<and>
     fst (begin_server_execution lib0 binding0 c1) \<noteq> Inr Started"
proof -
  obtain c1 where b: "begin_server_execution lib0 binding0 conn0 = (Inr Started, c1)"
    using run0 by blast
  obtain r c3 where r: "begin_server_execution lib0 binding0 c1 = (r, c3)" by fastforce
  from started_at_most_once [OF b exec.rel_refl _ r] have "r \<noteq> Inr Started"
    by (simp add: same_key_def)
  with b r show ?thesis by (metis fst_conv)
qed



text \<open>
  One identity names one payload: once an execution was started, a request under the same agent
  and idempotency id with another route, method, tool or submitted digest is a conflict, whatever
  happened to the execution; it never receives the retained response.
\<close>

theorem other_payload_conflicts:
  assumes "begin_server_execution L b c = (Inr Started, c1)" "exec_step L c1 c2"
    and "same_key b b'" "\<not> same_payload b b'"
    and "inspect_server_execution L b' c2 = (r, c3)"
  shows "r = Inr Conflict \<or> r = Inl SqliteFailure \<and> (\<exists>k. fault c2 k)"
proof -
  from begin_started_row [OF assms(1)] row_persists [OF assms(2)] obtain r1 r2 where
    r1: "xr_route r1 = sb_route b" "xr_method r1 = sb_method b" "xr_tool_name r1 = sb_tool_name b"
      "xr_submitted_sha256 r1 = sb_submitted_request_sha256 b"
    and r2: "row_of_binding L b c2 = Some r2" "erow_step r1 r2" by blast
  from r2(1) have "row_of_binding L b' c2 = Some r2"
    using row_of_binding_cong [OF assms(3)] by metis
  moreover have "inspect_row b' (Some r2) = Inr Conflict"
    using r1 erow_step_identity [OF r2(2)] assms(4)
    by (auto simp: inspect_row_def identity_def same_payload_def)
  ultimately show ?thesis using inspect_result [OF assms(5)] by auto
qed

theorem other_payload_conflicts_witness:
  "\<exists>c. fst (inspect_server_execution lib0 (binding0\<lparr>sb_tool_name := ''other''\<rparr>) c) = Inr Conflict"
proof -
  let ?b = "binding0\<lparr>sb_tool_name := ''other''\<rparr>"
  obtain c1 where b: "begin_server_execution lib0 binding0 conn0 = (Inr Started, c1)"
    and f: "\<forall>k. \<not> fault c1 k"
    using run0 by blast
  obtain r c3 where r: "inspect_server_execution lib0 ?b c1 = (r, c3)" by fastforce
  have "same_key binding0 ?b" "\<not> same_payload binding0 ?b"
    by (simp_all add: same_key_def same_payload_def binding0_def)
  from other_payload_conflicts [OF b exec.rel_refl this r] f have "r = Inr Conflict" by blast
  with r show ?thesis by (metis fst_conv)
qed



text \<open>
  Uncertainty is final. Once the reconciler has classified an abandoned execution, no completion of
  that identity ever commits, whatever ledger operations happen in between: the reconciler's outbox
  record already holds the execution id.
\<close>

theorem uncertain_is_final:
  assumes "execs_ok L (t_executions c)" "reconcile_server_executions_at L t c = (Inr n, c1)"
    and "row \<in> set (abandoned_rows (show_time L (t - 300 * 1000000000)) (instance_id c) c)"
    and "has_identity L b row" "exec_step L c1 c2"
    and "complete_server_execution L b status ct body c2 = (r, c3)"
  shows "\<not> is_ok r \<and> same_tables c2 c3"
proof -
  from assms(3) have "row \<in> set (t_executions c)"
    by (auto simp: abandoned_rows_def dest: in_set_takeD)
  with assms(1,4) have id: "xr_execution_id row = show_uuid L (execution_id L b)"
    by (auto simp: execs_ok_def exec_row_ok_def has_identity_def execution_id_def)
  from reconcile_cases [OF assms(2)] assms(3) have "xr_execution_id row \<in> set (map ob_execution_id (t_outbox c1))"
    by auto
  with assms(5) id have used: "\<exists>ob \<in> set (t_outbox c2). ob_execution_id ob = show_uuid L (execution_id L b)"
    by (auto simp: exec_step_def dest!: set_mono_prefix)
  have "\<not> complete_transaction L b status ct body now d = (Inr (Commit x), d')" if "same_tables c2 d" for now d x d'
    using used that by (auto simp: same_tables_def dest!: complete_transaction_cases)
  with complete_cases [OF assms(6)] show ?thesis by auto
qed

definition conn_abandoned :: conn where
  "conn_abandoned = conn0\<lparr>t_executions := [intent_row lib0 binding0 ''other'' 0]\<rparr>"

lemma conn_abandoned_ok: "execs_ok lib0 (t_executions conn_abandoned)"
  by (simp add: conn_abandoned_def execs_ok_def intent_row_ok)

lemma run_abandoned: "\<exists>c1. reconcile_server_executions_at lib0 (400 * 1000000000) conn_abandoned = (Inr 1, c1)"
  by (simp add: run_simps conn_abandoned_def reconcile_server_executions_at_def reconcile_transaction_def
      reconcile_row_def abandoned_rows_def abandoned_def still_pending_def outbox_entry_def marks_le
      year_zero_def)

theorem uncertain_is_final_witness:
  "\<exists>c. t_outbox c \<noteq> [] \<and> \<not> is_ok (fst (complete_server_execution lib0 binding0 200 None ''ok'' c))"
proof -
  obtain c1 where rec: "reconcile_server_executions_at lib0 (400 * 1000000000) conn_abandoned = (Inr 1, c1)"
    using run_abandoned by blast
  have row: "intent_row lib0 binding0 ''other'' 0 \<in> set (abandoned_rows
      (show_time lib0 (400 * 1000000000 - 300 * 1000000000)) (instance_id conn_abandoned) conn_abandoned)"
    by (simp add: run_simps conn_abandoned_def abandoned_rows_def abandoned_def marks_le year_zero_def)
  have id: "has_identity lib0 binding0 (intent_row lib0 binding0 ''other'' 0)"
    by (simp add: has_identity_def intent_row_def)
  obtain r c2 where r: "complete_server_execution lib0 binding0 200 None ''ok'' c1 = (r, c2)" by fastforce
  from uncertain_is_final [OF conn_abandoned_ok rec row id exec.rel_refl r] have "\<not> is_ok r" by blast
  moreover have "t_outbox c1 \<noteq> []" using reconcile_cases [OF rec] row by auto
  ultimately show ?thesis using r by (metis fst_conv)
qed

text \<open>
  The reconciler touches only what it may: at most 256 rows, each in flight, still pending, owned
  by another process and at least 300 seconds old, becomes uncertain; every other row is left as it
  is; and each change has exactly one outbox record and one unauthorized ledger entry.
\<close>

theorem reconcile_scope:
  assumes "execs_ok L (t_executions c)" "reconcile_server_executions_at L t c = (Inr n, c')"
  shows "n \<le> 256 \<and> length (t_outbox c') = length (t_outbox c) + n \<and> t_pendings c' = t_pendings c \<and>
    (\<exists>es. t_entries c' = t_entries c @ map (entry_to_row L) es \<and> length es = n \<and>
       (\<forall>e \<in> set es. \<not> le_authorized e \<and> le_intent_category e = ''ServerExecutionUncertain'')) \<and>
    list_all2 (\<lambda>x y. y = x \<or>
       xr_state x = ''in_flight'' \<and> xr_reconciliation_state x = ''pending'' \<and>
       xr_created_at x \<le> show_time L (t - 300 * 1000000000) \<and>
       (\<exists>owner. xr_owner_instance x = Some owner \<and> owner \<noteq> instance_id c) \<and>
       y = uncertain_row (show_time L t) x) (t_executions c) (t_executions c')"
proof -
  let ?cut = "show_time L (t - 300 * 1000000000)"
  define rows where "rows = abandoned_rows ?cut (instance_id c) c"
  from reconcile_cases [OF assms(2)] obtain es where n: "n = length rows"
    and ex: "t_executions c' = map (marked (show_time L t) (set (map xr_execution_id rows))) (t_executions c)"
    and ob: "map ob_execution_id (t_outbox c') = map ob_execution_id (t_outbox c) @ map xr_execution_id rows"
    and es: "t_entries c' = t_entries c @ map (entry_to_row L) es"
      "list_all2 (\<lambda>r e. entry_of_request L (uncertain_log r) e) rows es"
    and pd: "t_pendings c' = t_pendings c"
    unfolding rows_def by auto
  have "abandoned ?cut (instance_id c) x"
    if x: "x \<in> set (t_executions c)" "xr_execution_id x \<in> set (map xr_execution_id rows)" for x
  proof -
    from x(2) obtain r where r: "r \<in> set rows" "xr_execution_id r = xr_execution_id x" by auto
    then have "r \<in> set (t_executions c)" "abandoned ?cut (instance_id c) r"
      by (auto simp: rows_def abandoned_rows_def dest!: in_set_takeD)
    moreover from this x(1) r(2) assms(1) have "r = x"
      by (auto simp: execs_ok_def distinct_map inj_on_def)
    ultimately show ?thesis by simp
  qed
  then have "list_all2 (\<lambda>x y. y = x \<or> abandoned ?cut (instance_id c) x \<and> y = uncertain_row (show_time L t) x)
      (t_executions c) (t_executions c')"
    unfolding ex by (auto simp: list_all2_map2 list_all2_same marked_def)
  then have "list_all2 (\<lambda>x y. y = x \<or>
       xr_state x = ''in_flight'' \<and> xr_reconciliation_state x = ''pending'' \<and>
       xr_created_at x \<le> ?cut \<and>
       (\<exists>owner. xr_owner_instance x = Some owner \<and> owner \<noteq> instance_id c) \<and>
       y = uncertain_row (show_time L t) x) (t_executions c) (t_executions c')"
    by (rule list_all2_mono) (auto simp: abandoned_def split: option.splits)
  moreover have "n \<le> 256" by (simp add: n rows_def abandoned_rows_def)
  moreover have "length (t_outbox c') = length (t_outbox c) + n"
    using arg_cong [OF ob, of length] by (simp add: n)
  moreover have "\<forall>e \<in> set es. \<not> le_authorized e \<and> le_intent_category e = ''ServerExecutionUncertain''"
    using es(2) by (auto simp: list_all2_conv_all_nth in_set_conv_nth entry_of_request_def uncertain_log_def)
  moreover have "length es = n" using es(2) by (auto simp: n dest: list_all2_lengthD)
  ultimately show ?thesis using es(1) pd by blast
qed

theorem reconcile_scope_witness:
  "\<exists>c1. reconcile_server_executions_at lib0 (400 * 1000000000) conn_abandoned = (Inr 1, c1) \<and>
     length (t_outbox c1) = 1"
proof -
  obtain c1 where rec: "reconcile_server_executions_at lib0 (400 * 1000000000) conn_abandoned = (Inr 1, c1)"
    using run_abandoned by blast
  from reconcile_scope [OF conn_abandoned_ok rec] rec show ?thesis
    by (auto simp: conn_abandoned_def)
qed

end
