(* ===== verification/Graduation.thy ===== *)
theory Graduation
  imports Exec_Contract "HOL-Library.Product_Lexorder"
begin

text \<open>
  The graduation report: the aggregation of ledger rows (\<open>graduation_stats\<close> in \<open>src/ledger.rs\<close>) and
  the report, its recommendation, signature and verification (\<open>src/report.rs\<close>). Ed25519, PEM and
  base64 are third-party code and come as the record \<open>sig_lib\<close>.
\<close>

section \<open>Aggregation\<close>

definition WOULD_DENY_INTENTS :: "string list" where
  "WOULD_DENY_INTENTS = [''PolicyDeny'', ''BrainDeny'', ''PromptInjection'', ''RateLimitDenied'']"

definition TOP_AGENTS_LIMIT :: nat where
  "TOP_AGENTS_LIMIT = 10"

record graduation_stats =
  gs_total :: nat
  gs_would_deny :: nat
  gs_would_pend :: nat
  gs_allowed :: nat
  gs_by_intent :: "(string \<times> nat) list"
  gs_top_agents :: "(string \<times> nat) list"
  gs_window_start :: "time option"
  gs_window_end :: "time option"

text \<open>\<open>*counts.entry(k).or_insert(0) += 1\<close> on a \<open>BTreeMap\<close>: keys ascending.\<close>

fun bump :: "string \<Rightarrow> (string \<times> nat) list \<Rightarrow> (string \<times> nat) list" where
  "bump k [] = [(k, 1)]"
| "bump k ((k', n) # m) =
     (if k < k' then (k, 1) # (k', n) # m
      else if k = k' then (k, Suc n) # m
      else (k', n) # bump k m)"

record tally =
  ty_stats :: graduation_stats
  ty_intents :: "(string \<times> nat) list"
  ty_agents :: "(string \<times> nat) list"
  ty_latest :: "time option"

definition tally_row :: "lib \<Rightarrow> entry_row \<Rightarrow> tally \<Rightarrow> tally" where
  "tally_row L r ty =
     (let s = ty_stats ty;
          s = s\<lparr>gs_total := gs_total s + 1\<rparr>;
          s = (if er_authorized r \<noteq> 0 then s\<lparr>gs_allowed := gs_allowed s + 1\<rparr> else s);
          s = (if er_intent_category r \<in> set WOULD_DENY_INTENTS
               then s\<lparr>gs_would_deny := gs_would_deny s + 1\<rparr>
               else if er_intent_category r = ''PendingReview''
               then s\<lparr>gs_would_pend := gs_would_pend s + 1\<rparr> else s)
      in \<lparr>ty_stats = s, ty_intents = bump (er_intent_category r) (ty_intents ty),
          ty_agents = bump (er_agent_id r) (ty_agents ty),
          ty_latest = (case parse_time L (er_timestamp r) of
              None \<Rightarrow> ty_latest ty
            | Some t \<Rightarrow> (case ty_latest ty of
                  None \<Rightarrow> Some t
                | Some cur \<Rightarrow> if cur < t then Some t else Some cur))\<rparr>)"

definition in_window :: "lib \<Rightarrow> time option \<Rightarrow> entry_row \<Rightarrow> bool" where
  "in_window L since r \<longleftrightarrow> (case since of None \<Rightarrow> True | Some s \<Rightarrow> show_time L s \<le> er_timestamp r)"

definition tally_rows :: "lib \<Rightarrow> time option \<Rightarrow> entry_row list \<Rightarrow> tally" where
  "tally_rows L since rows = fold (tally_row L) rows
     \<lparr>ty_stats = \<lparr>gs_total = 0, gs_would_deny = 0, gs_would_pend = 0, gs_allowed = 0,
        gs_by_intent = [], gs_top_agents = [], gs_window_start = since, gs_window_end = None\<rparr>,
      ty_intents = [], ty_agents = [], ty_latest = None\<rparr>"

definition stats_of_rows :: "lib \<Rightarrow> time option \<Rightarrow> entry_row list \<Rightarrow> graduation_stats" where
  "stats_of_rows L since rows =
     (let ty = tally_rows L since rows
      in (ty_stats ty)\<lparr>gs_window_end := ty_latest ty, gs_by_intent := ty_intents ty,
           gs_top_agents := take TOP_AGENTS_LIMIT (sort_key (\<lambda>(a, n). (- int n, a)) (ty_agents ty))\<rparr>)"

definition graduation_stats_query :: "lib \<Rightarrow> time option \<Rightarrow> (sql_error, graduation_stats) db" where
  "graduation_stats_query L since = with_connection
     (bind_db (select (\<lambda>c. sort_key er_seq (filter (in_window L since) (t_entries c)))) (\<lambda>rows.
      return_db (stats_of_rows L since rows)))"

section \<open>The report\<close>

definition REPORT_SCHEMA_VERSION :: string where
  "REPORT_SCHEMA_VERSION = ''1''"

definition REPORT_KEY_ID :: string where
  "REPORT_KEY_ID = ''clavenar-lite-file:v1''"

record graduation_report =
  gr_schema_version :: string
  gr_generated_at :: time
  gr_window_start :: "time option"
  gr_window_end :: "time option"
  gr_ledger_entries_checked :: nat
  gr_ledger_chain_valid :: bool
  gr_total_requests :: nat
  gr_would_deny :: nat
  gr_would_pend :: nat
  gr_allowed :: nat
  gr_by_intent_category :: "(string \<times> nat) list"
  gr_top_agents :: "(string \<times> nat) list"
  gr_recommend_enforce :: bool
  gr_recommendation :: string

text \<open>The em dash of the messages is U+2014.\<close>

definition em_dash :: string where
  "em_dash = [CHR 0xE2, CHR 0x80, CHR 0x94]"

definition recommendation :: "graduation_stats \<Rightarrow> bool \<Rightarrow> bool \<times> string" where
  "recommendation stats chain_valid =
     (if \<not> chain_valid then
        (False, ''DO NOT ENFORCE '' @ em_dash @ '' the observe-mode ledger failed its integrity check; investigate before trusting these counts.'')
      else if gs_total stats = 0 then
        (False, ''NO DATA '' @ em_dash @ '' no traffic observed yet; run representative traffic before graduating.'')
      else if gs_would_deny stats = 0 \<and> gs_would_pend stats = 0 then
        (True, ''SAFE TO ENFORCE '' @ em_dash @ '' '' @ show_nat (gs_total stats) @
               '' request(s) observed, none would be blocked or parked.'')
      else
        (False, ''REVIEW FIRST '' @ em_dash @ '' enforce would block '' @ show_nat (gs_would_deny stats) @
               '' and park '' @ show_nat (gs_would_pend stats) @ '' of '' @ show_nat (gs_total stats) @
               '' observed request(s).''))"

definition from_stats :: "graduation_stats \<Rightarrow> bool \<Rightarrow> time \<Rightarrow> graduation_report" where
  "from_stats stats ledger_chain_valid generated_at =
     (let (recommend_enforce, text) = recommendation stats ledger_chain_valid
      in \<lparr>gr_schema_version = REPORT_SCHEMA_VERSION, gr_generated_at = generated_at,
          gr_window_start = gs_window_start stats, gr_window_end = gs_window_end stats,
          gr_ledger_entries_checked = gs_total stats, gr_ledger_chain_valid = ledger_chain_valid,
          gr_total_requests = gs_total stats, gr_would_deny = gs_would_deny stats,
          gr_would_pend = gs_would_pend stats, gr_allowed = gs_allowed stats,
          gr_by_intent_category = gs_by_intent stats, gr_top_agents = gs_top_agents stats,
          gr_recommend_enforce = recommend_enforce, gr_recommendation = text\<rparr>)"

definition json_nat :: "nat \<Rightarrow> json" where
  "json_nat n = JNum (Integral (int n))"

definition count_json :: "string \<Rightarrow> string \<times> nat \<Rightarrow> json" where
  "count_json key kn = JObj [(key, JStr (fst kn)), (''count'', json_nat (snd kn))]"

definition report_json :: "lib \<Rightarrow> graduation_report \<Rightarrow> json" where
  "report_json L r = JObj
     [(''schema_version'', JStr (gr_schema_version r)),
      (''generated_at'', JStr (json_time L (gr_generated_at r))),
      (''window_start'', jopt (\<lambda>t. JStr (json_time L t)) (gr_window_start r)),
      (''window_end'', jopt (\<lambda>t. JStr (json_time L t)) (gr_window_end r)),
      (''ledger_entries_checked'', json_nat (gr_ledger_entries_checked r)),
      (''ledger_chain_valid'', JBool (gr_ledger_chain_valid r)),
      (''total_requests'', json_nat (gr_total_requests r)),
      (''would_deny'', json_nat (gr_would_deny r)), (''would_pend'', json_nat (gr_would_pend r)),
      (''allowed'', json_nat (gr_allowed r)),
      (''by_intent_category'', JArr (map (count_json ''intent_category'') (gr_by_intent_category r))),
      (''top_agents'', JArr (map (count_json ''agent_id'') (gr_top_agents r))),
      (''recommend_enforce'', JBool (gr_recommend_enforce r)),
      (''recommendation'', JStr (gr_recommendation r))]"

definition build_report_canonical_json :: "lib \<Rightarrow> graduation_report \<Rightarrow> string" where
  "build_report_canonical_json L r = print_json L (report_json L r)"

subsection \<open>Signing and verifying\<close>

text \<open>
  Keys are opaque numbers. \<open>key_sign\<close> returns the 64 raw bytes, \<open>verifying_key\<close> the public half,
  \<open>to_pem\<close>/\<open>from_pem\<close> its SPKI text, \<open>b64_encode\<close>/\<open>b64_decode\<close> standard base64,
  \<open>sig_from_slice\<close> the length check, \<open>vk_verify\<close> the verification.
\<close>

record sig_lib =
  key_sign :: "nat \<Rightarrow> string \<Rightarrow> string"
  verifying_key :: "nat \<Rightarrow> nat"
  to_pem :: "nat \<Rightarrow> (string, string) result"
  from_pem :: "string \<Rightarrow> (string, nat) result"
  b64_encode :: "string \<Rightarrow> string"
  b64_decode :: "string \<Rightarrow> (string, string) result"
  sig_from_slice :: "string \<Rightarrow> (string, string) result"
  vk_verify :: "nat \<Rightarrow> string \<Rightarrow> string \<Rightarrow> bool"

record signed_report =
  sr_report :: graduation_report
  sr_report_canonical_json :: string
  sr_signature :: "string option"
  sr_algorithm :: string
  sr_key_id :: string
  sr_pubkey_pem :: "string option"
  sr_signed_at :: "time option"

definition sign_report ::
    "lib \<Rightarrow> sig_lib \<Rightarrow> graduation_report \<Rightarrow> nat \<Rightarrow> time \<Rightarrow> (string, signed_report) result" where
  "sign_report L S report key signed_at =
     (let canonical = build_report_canonical_json L report;
          sig_b64 = b64_encode S (key_sign S key canonical)
      in and_then (to_pem S (verifying_key S key)) (\<lambda>pubkey_pem.
           Inr \<lparr>sr_report = report, sr_report_canonical_json = canonical,
                sr_signature = Some sig_b64, sr_algorithm = ''ed25519'', sr_key_id = REPORT_KEY_ID,
                sr_pubkey_pem = Some pubkey_pem, sr_signed_at = Some signed_at\<rparr>))"

definition unsigned_report :: "lib \<Rightarrow> graduation_report \<Rightarrow> signed_report" where
  "unsigned_report L report =
     \<lparr>sr_report = report, sr_report_canonical_json = build_report_canonical_json L report,
      sr_signature = None, sr_algorithm = ''ed25519'', sr_key_id = REPORT_KEY_ID,
      sr_pubkey_pem = None, sr_signed_at = None\<rparr>"

datatype malformed = NoPublicKey | BadPem string | BadBase64 string | BadSignatureBytes string

datatype forged = CanonicalMismatch | VerificationFailed

datatype verify_outcome = Valid | Unsigned | Forged forged | Malformed malformed

definition verify_report :: "lib \<Rightarrow> sig_lib \<Rightarrow> signed_report \<Rightarrow> string option \<Rightarrow> verify_outcome" where
  "verify_report L S rep override =
     (if build_report_canonical_json L (sr_report rep) \<noteq> sr_report_canonical_json rep
      then Forged CanonicalMismatch
      else case sr_signature rep of
        None \<Rightarrow> Unsigned
      | Some sig_b64 \<Rightarrow>
          (case (case override of Some p \<Rightarrow> Some p | None \<Rightarrow> sr_pubkey_pem rep) of
             None \<Rightarrow> Malformed NoPublicKey
           | Some pem \<Rightarrow>
               (case from_pem S pem of
                  Inl e \<Rightarrow> Malformed (BadPem e)
                | Inr vk \<Rightarrow>
                    (case b64_decode S sig_b64 of
                       Inl e \<Rightarrow> Malformed (BadBase64 e)
                     | Inr raw \<Rightarrow>
                         (case sig_from_slice S raw of
                            Inl e \<Rightarrow> Malformed (BadSignatureBytes e)
                          | Inr s \<Rightarrow>
                              if vk_verify S vk (sr_report_canonical_json rep) s then Valid
                              else Forged VerificationFailed)))))"

section \<open>Counting\<close>

lemma sum_bump: "sum_list (map snd (bump k m)) = Suc (sum_list (map snd m))"
  by (induction k m rule: bump.induct) auto

definition would_deny_row :: "entry_row \<Rightarrow> bool" where
  "would_deny_row r \<longleftrightarrow> er_intent_category r \<in> set WOULD_DENY_INTENTS"

definition would_pend_row :: "entry_row \<Rightarrow> bool" where
  "would_pend_row r \<longleftrightarrow> er_intent_category r = ''PendingReview''"

lemma would_exclusive: "would_pend_row r \<Longrightarrow> \<not> would_deny_row r"
  by (simp add: would_pend_row_def would_deny_row_def WOULD_DENY_INTENTS_def)

lemma tally_row_counts:
  "gs_total (ty_stats (tally_row L r ty)) = gs_total (ty_stats ty) + 1"
  "gs_would_deny (ty_stats (tally_row L r ty)) = gs_would_deny (ty_stats ty) + (if would_deny_row r then 1 else 0)"
  "gs_would_pend (ty_stats (tally_row L r ty)) = gs_would_pend (ty_stats ty) + (if would_pend_row r then 1 else 0)"
  "gs_allowed (ty_stats (tally_row L r ty)) = gs_allowed (ty_stats ty) + (if er_authorized r \<noteq> 0 then 1 else 0)"
  "ty_intents (tally_row L r ty) = bump (er_intent_category r) (ty_intents ty)"
  "ty_agents (tally_row L r ty) = bump (er_agent_id r) (ty_agents ty)"
  using would_exclusive [of r]
  by (auto simp: tally_row_def Let_def would_deny_row_def would_pend_row_def)

lemma fold_tally_counts:
  "gs_total (ty_stats (fold (tally_row L) rows ty)) = gs_total (ty_stats ty) + length rows \<and>
   gs_would_deny (ty_stats (fold (tally_row L) rows ty)) =
     gs_would_deny (ty_stats ty) + length (filter would_deny_row rows) \<and>
   gs_would_pend (ty_stats (fold (tally_row L) rows ty)) =
     gs_would_pend (ty_stats ty) + length (filter would_pend_row rows) \<and>
   gs_allowed (ty_stats (fold (tally_row L) rows ty)) =
     gs_allowed (ty_stats ty) + length (filter (\<lambda>r. er_authorized r \<noteq> 0) rows) \<and>
   sum_list (map snd (ty_intents (fold (tally_row L) rows ty))) =
     sum_list (map snd (ty_intents ty)) + length rows"
  by (induction rows arbitrary: ty) (simp_all add: tally_row_counts sum_bump)

lemma stats_of_rows_counts:
  "gs_total (stats_of_rows L since rows) = length rows"
  "gs_would_deny (stats_of_rows L since rows) = length (filter would_deny_row rows)"
  "gs_would_pend (stats_of_rows L since rows) = length (filter would_pend_row rows)"
  "gs_allowed (stats_of_rows L since rows) = length (filter (\<lambda>r. er_authorized r \<noteq> 0) rows)"
  "sum_list (map snd (gs_by_intent (stats_of_rows L since rows))) = length rows"
  by (simp_all add: stats_of_rows_def tally_rows_def Let_def fold_tally_counts)

lemma length_filter_sort_key: "length (filter P (sort_key f xs)) = length (filter P xs)"
  by (metis mset_filter mset_sort size_mset)

lemma graduation_stats_query_Inr:
  "graduation_stats_query L since c = (Inr s, c') \<Longrightarrow> same_tables c c' \<and>
     s = stats_of_rows L since (sort_key er_seq (filter (in_window L since) (t_entries c)))"
  by (auto simp: graduation_stats_query_def db_simps same_tables_def split: if_splits)

section \<open>Properties\<close>

text \<open>
  C32. The report recommends enforcement exactly when the chain verified, the window has rows, and none
  of them carries an intent that enforcement would block or park; its counts are the numbers of such
  rows, and the breakdown by intent adds up to the total.
\<close>

theorem recommendation_sound:
  assumes "graduation_stats_query L since c = (Inr s, c')"
    and window_def: "window = filter (in_window L since) (t_entries c)"
    and rep_def: "rep = from_stats s chain_valid now"
  shows "(gr_recommend_enforce rep \<longleftrightarrow> chain_valid \<and> window \<noteq> [] \<and>
            (\<forall>r \<in> set window. er_intent_category r \<notin>
               {''PolicyDeny'', ''BrainDeny'', ''PromptInjection'', ''RateLimitDenied'', ''PendingReview''})) \<and>
    gr_total_requests rep = length window \<and>
    gr_would_deny rep = length (filter would_deny_row window) \<and>
    gr_would_pend rep = length (filter would_pend_row window) \<and>
    sum_list (map snd (gr_by_intent_category rep)) = gr_total_requests rep"
proof -
  from graduation_stats_query_Inr [OF assms(1)]
  have s: "s = stats_of_rows L since (sort_key er_seq window)" by (simp add: window_def)
  have "gs_total s = length window" "gs_would_deny s = length (filter would_deny_row window)"
    "gs_would_pend s = length (filter would_pend_row window)"
    "sum_list (map snd (gs_by_intent s)) = length window"
    by (simp_all add: s stats_of_rows_counts length_filter_sort_key)
  moreover from this have "fst (recommendation s chain_valid) \<longleftrightarrow> chain_valid \<and> window \<noteq> [] \<and>
      (\<forall>r \<in> set window. \<not> would_deny_row r \<and> \<not> would_pend_row r)"
    by (auto simp: recommendation_def filter_empty_conv)
  moreover have "gr_recommend_enforce rep = fst (recommendation s chain_valid)"
    by (simp add: rep_def from_stats_def split: prod.splits)
  ultimately show ?thesis
    by (auto simp: rep_def from_stats_def would_deny_row_def would_pend_row_def WOULD_DENY_INTENTS_def
        split: prod.splits)
qed

theorem recommendation_sound_witness:
  "\<exists>s. fst (graduation_stats_query lib0 None (conn0\<lparr>t_entries := [forged_row]\<rparr>)) = Inr s \<and>
     gr_recommend_enforce (from_stats s True 0) \<and> \<not> gr_recommend_enforce (from_stats s False 0)"
proof -
  let ?c = "conn0\<lparr>t_entries := [forged_row]\<rparr>"
  obtain s c' where q: "graduation_stats_query lib0 None ?c = (Inr s, c')"
    by (simp add: graduation_stats_query_def db_simps)
  from recommendation_sound [OF q refl refl, of True 0] recommendation_sound [OF q refl refl, of False 0] q show ?thesis
    by (auto simp: in_window_def forged_row_def)
qed

definition sig_ok :: "sig_lib \<Rightarrow> bool" where
  "sig_ok S \<longleftrightarrow>
     (\<forall>k p. to_pem S k = Inr p \<longrightarrow> from_pem S p = Inr k) \<and>
     (\<forall>x. b64_decode S (b64_encode S x) = Inr x) \<and>
     (\<forall>k m. sig_from_slice S (key_sign S k m) = Inr (key_sign S k m)) \<and>
     (\<forall>k m. vk_verify S (verifying_key S k) m (key_sign S k m))"

text \<open>The counters are \<open>u64\<close>.\<close>

definition report_ok :: "graduation_report \<Rightarrow> bool" where
  "report_ok r \<longleftrightarrow> (\<forall>n \<in> {gr_ledger_entries_checked r, gr_total_requests r, gr_would_deny r, gr_would_pend r,
      gr_allowed r} \<union> snd ` set (gr_by_intent_category r) \<union> snd ` set (gr_top_agents r). n < 2 ^ 64)"

lemma report_json_wf: "report_ok r \<Longrightarrow> json_wf (report_json L r)"
  by (auto simp: report_ok_def report_json_def json_nat_def int_ok_def count_json_def jopt_def
      split: option.splits)

lemma count_json_inj: "map (count_json key) xs = map (count_json key) ys \<longleftrightarrow> xs = ys"
proof -
  have "inj (count_json key)"
    by (rule injI) (auto simp: count_json_def json_nat_def prod_eq_iff)
  then show ?thesis by (simp add: inj_map_eq_map)
qed

lemma jopt_time_inj:
  assumes "inj (json_time L)"
  shows "jopt (\<lambda>t. JStr (json_time L t)) x = jopt (\<lambda>t. JStr (json_time L t)) y \<longleftrightarrow> x = y"
  using assms by (auto simp: jopt_def inj_eq split: option.splits)

lemma report_json_inj:
  assumes "print_inj L" "report_json L r = report_json L r'"
  shows "r = r'"
  using assms
  by (cases r; cases r')
     (simp add: report_json_def print_inj_def inj_eq count_json_inj jopt_time_inj json_nat_def)


definition sig0 :: sig_lib where
  "sig0 = \<lparr>key_sign = (\<lambda>k m. m), verifying_key = (\<lambda>k. k), to_pem = (\<lambda>k. Inr (marks k)),
     from_pem = (\<lambda>p. Inr (length p)), b64_encode = (\<lambda>x. x), b64_decode = Inr, sig_from_slice = Inr,
     vk_verify = (\<lambda>k m s. s = m)\<rparr>"

definition report0 :: graduation_report where
  "report0 = from_stats (stats_of_rows lib0 None []) True 0"


end
