(* ===== verification/Policy.thy ===== *)
theory Policy
  imports Heuristics
begin

text \<open>
  The policy engine wrapper (\<open>src/policy.rs\<close>): the velocity tracker, the evaluation of the three Rego
  rules, and the extraction of reasons. The Rego engine itself is third-party (\<open>eval_rule\<close> of \<open>lib\<close>);
  the rules that ship with the program are modelled in theory \<open>Governance\<close>.
\<close>

section \<open>The velocity tracker\<close>

text \<open>
  \<open>Instant\<close>s are nanoseconds of the monotonic clock; the \<open>HashMap\<close> is a map from agents to their
  deques, oldest hit first.
\<close>

type_synonym instant = nat

type_synonym velocity_map = "string \<rightharpoonup> instant list"

definition evict :: "nat \<Rightarrow> instant \<Rightarrow> instant list \<Rightarrow> instant list" where
  "evict window now deque = dropWhile (\<lambda>front. now - front > window) deque"

definition sweep :: "nat \<Rightarrow> instant \<Rightarrow> velocity_map \<Rightarrow> velocity_map" where
  "sweep window now m agent =
     (case m agent of
        None \<Rightarrow> None
      | Some deque \<Rightarrow> (case evict window now deque of [] \<Rightarrow> None | d # ds \<Rightarrow> Some (d # ds)))"

definition record_and_count ::
    "nat \<Rightarrow> instant \<Rightarrow> string \<Rightarrow> velocity_map \<Rightarrow> nat \<times> velocity_map" where
  "record_and_count window now agent_id m =
     (let m1 = sweep window now m;
          entry = (case m1 agent_id of None \<Rightarrow> [] | Some deque \<Rightarrow> deque) @ [now]
      in (length entry mod 2 ^ 32, m1(agent_id \<mapsto> entry)))"

section \<open>Evaluation\<close>

record policy_input =
  pi_tool_type :: string
  pi_last_tool :: "string option"
  pi_intent_score :: rat
  pi_current_time :: "string option"
  pi_agent_id :: "string option"
  pi_method :: "string option"
  pi_recent_request_count :: nat
  pi_correlation_id :: "string option"

record policy_decision =
  pd_allow :: bool
  pd_reasons :: "string list"
  pd_policy_review_reasons :: "string list"

definition policy_input_json :: "policy_input \<Rightarrow> json" where
  "policy_input_json inp = JObj
     [(''tool_type'', JStr (pi_tool_type inp)),
      (''agent_history'', JObj [(''last_tool'', jopt JStr (pi_last_tool inp))]),
      (''intent_score'', JNum (Double (pi_intent_score inp))),
      (''current_time'', jopt JStr (pi_current_time inp)),
      (''agent_id'', jopt JStr (pi_agent_id inp)), (''method'', jopt JStr (pi_method inp)),
      (''recent_request_count'', JNum (Integral (int (pi_recent_request_count inp)))),
      (''correlation_id'', jopt JStr (pi_correlation_id inp))]"

definition policy_json :: "policy_decision \<Rightarrow> json" where
  "policy_json d = json_obj
     [(''allow'', JBool (pd_allow d)), (''reasons'', jstrs (pd_reasons d)),
      (''review_reasons'', jstrs (pd_policy_review_reasons d))]"

definition deny_with :: "string \<Rightarrow> policy_decision" where
  "deny_with reason =
     \<lparr>pd_allow = False, pd_reasons = [reason], pd_policy_review_reasons = []\<rparr>"

fun string_value :: "rego_value \<Rightarrow> string option" where
  "string_value (RString s) = Some s"
| "string_value _ = None"

fun extract_reasons :: "rego_value \<Rightarrow> string list" where
  "extract_reasons (RSet items) = sort (List.map_filter string_value items)"
| "extract_reasons (RArray items) = sort (List.map_filter string_value items)"
| "extract_reasons _ = []"

definition rule_name :: "string \<Rightarrow> string" where
  "rule_name r = ''data.clavenar.authz.'' @ r"

definition eval_labelled :: "lib \<Rightarrow> time \<Rightarrow> string \<Rightarrow> string \<Rightarrow> (string, rego_value) result" where
  "eval_labelled L now label inp =
     (case eval_rule L now (rule_name label) inp of
        Inl e \<Rightarrow> Inl (''Policy engine error (eval '' @ label @ ''): '' @ e)
      | Inr v \<Rightarrow> Inr v)"

definition evaluate_rego :: "lib \<Rightarrow> time \<Rightarrow> string \<Rightarrow> (string, policy_decision) result" where
  "evaluate_rego L now input_json =
     and_then (case set_input_json L input_json of
                 Inl e \<Rightarrow> Inl (''Policy engine error (set_input): '' @ e)
               | Inr u \<Rightarrow> Inr u) (\<lambda>_.
     and_then (eval_labelled L now ''allow'' input_json) (\<lambda>allow_value.
     and_then (eval_labelled L now ''deny'' input_json) (\<lambda>deny_value.
     and_then (eval_labelled L now ''review'' input_json) (\<lambda>review_value.
       let allow = (allow_value = RBool True);
           reasons = extract_reasons deny_value;
           review_reasons = extract_reasons review_value;
           reasons = (if allow \<and> reasons = [] \<and> review_reasons = []
                      then [''Deterministic policy check passed.''] else reasons)
       in Inr \<lparr>pd_allow = allow, pd_reasons = reasons,
               pd_policy_review_reasons = review_reasons\<rparr>))))"

text \<open>
  \<open>evaluate\<close>: the live velocity count is injected when the caller preloaded none; then the worker
  runs the rules, or fails with a message (\<open>worker\<close>: the permit, the lock, the blocking task).
\<close>

definition evaluate ::
    "lib \<Rightarrow> nat \<Rightarrow> instant \<Rightarrow> time \<Rightarrow> string option \<Rightarrow> policy_input \<Rightarrow> velocity_map \<Rightarrow>
     policy_decision \<times> velocity_map" where
  "evaluate L window now wall worker inp m =
     (let (effective, m1) =
            (case (pi_recent_request_count inp, pi_agent_id inp) of
               (0, Some agent_id) \<Rightarrow>
                 (let (n, m1) = record_and_count window now agent_id m
                  in (inp\<lparr>pi_recent_request_count := n\<rparr>, m1))
             | _ \<Rightarrow> (inp, m));
          input_json = print_json L (policy_input_json effective)
      in ((case worker of
             Some failure \<Rightarrow> deny_with failure
           | None \<Rightarrow>
               (case evaluate_rego L wall input_json of
                  Inl reason \<Rightarrow> deny_with reason
                | Inr decision \<Rightarrow> decision)), m1))"

section \<open>The three tiers\<close>

datatype tier = Green | Yellow | Red

text \<open>\<open>classify\<close> of \<open>src/proxy.rs\<close>.\<close>

definition classify :: "heuristic_verdict \<Rightarrow> policy_decision \<Rightarrow> tier" where
  "classify brain policy =
     (if \<not> hv_authorized brain \<or> \<not> pd_allow policy then Red
      else if pd_policy_review_reasons policy \<noteq> [] then Yellow
      else Green)"

section \<open>Tracker lemmas\<close>

text \<open>
  The abstract tracker is the list of all hits, oldest first. \<open>tracks window h t m\<close>: after a call at
  time \<open>t\<close> the map holds, for every agent, the hits of its last window, and no empty deque.
\<close>

definition hits_of :: "string \<Rightarrow> (string \<times> instant) list \<Rightarrow> instant list" where
  "hits_of agent h = map snd (filter (\<lambda>hit. fst hit = agent) h)"

definition in_last :: "nat \<Rightarrow> instant \<Rightarrow> instant \<Rightarrow> bool" where
  "in_last window now t \<longleftrightarrow> now - t \<le> window"

definition recent :: "nat \<Rightarrow> instant \<Rightarrow> string \<Rightarrow> (string \<times> instant) list \<Rightarrow> instant list" where
  "recent window now agent h = filter (in_last window now) (hits_of agent h)"

definition tracks :: "nat \<Rightarrow> (string \<times> instant) list \<Rightarrow> instant \<Rightarrow> velocity_map \<Rightarrow> bool" where
  "tracks window h t m \<longleftrightarrow> sorted (map snd h) \<and>
     (\<forall>agent. m agent = (case recent window t agent h of [] \<Rightarrow> None | d # ds \<Rightarrow> Some (d # ds)))"

lemma hits_of_snoc: "hits_of agent (h @ [(a, now)]) = hits_of agent h @ (if a = agent then [now] else [])"
  by (simp add: hits_of_def)

lemma sorted_hits: "sorted (map snd h) \<Longrightarrow> sorted (hits_of agent h)"
  unfolding hits_of_def by (induction h) auto

lemma evict_sorted: "sorted d \<Longrightarrow> evict window now d = filter (in_last window now) d"
proof (induction d)
  case Nil
  then show ?case by (simp add: evict_def)
next
  case (Cons x xs)
  show ?case
  proof (cases "now - x > window")
    case True
    with Cons show ?thesis by (simp add: evict_def in_last_def)
  next
    case False
    with Cons.prems have "filter (in_last window now) (x # xs) = x # xs"
      by (intro filter_True) (auto simp: in_last_def)
    with False show ?thesis by (simp add: evict_def)
  qed
qed

lemma filter_in_last_mono:
  "t \<le> now \<Longrightarrow> filter (in_last window now) (filter (in_last window t) xs) = filter (in_last window now) xs"
  by (induction xs) (auto simp: in_last_def)

lemma evict_recent:
  assumes "sorted (map snd h)" "t \<le> now"
  shows "evict window now (recent window t agent h) = recent window now agent h"
proof -
  have "sorted (recent window t agent h)"
    unfolding recent_def by (rule sorted_wrt_filter) (rule sorted_hits [OF assms(1)])
  then have "evict window now (recent window t agent h) = filter (in_last window now) (recent window t agent h)"
    by (rule evict_sorted)
  then show ?thesis
    unfolding recent_def by (simp only: filter_in_last_mono [OF assms(2)])
qed

lemma sweep_tracks:
  assumes "tracks window h t m" "t \<le> now"
  shows "tracks window h now (sweep window now m)"
proof -
  have "sweep window now m agent =
      (case recent window now agent h of [] \<Rightarrow> None | d # ds \<Rightarrow> Some (d # ds))" for agent
  proof (cases "recent window t agent h")
    case Nil
    then have "recent window now agent h = []"
      using evict_recent [of h t now window agent] assms by (simp add: tracks_def evict_def)
    with Nil assms(1) show ?thesis by (simp add: sweep_def tracks_def)
  next
    case (Cons d ds)
    with assms evict_recent [of h t now window agent] show ?thesis
      by (simp add: sweep_def tracks_def)
  qed
  with assms(1) show ?thesis by (simp add: tracks_def)
qed

section \<open>Properties\<close>

text \<open>
  The velocity tracker refines the list of all hits: each call returns the number of hits of the
  agent within the window that ends now, itself included, and leaves a map that again represents the
  whole history, with no agent kept whose hits have all expired.
\<close>

theorem tracker_counts_window:
  assumes "tracks window h t m" "t \<le> now" "\<forall>hit \<in> set h. snd hit \<le> t"
    and "record_and_count window now a m = (n, m')"
  shows "tracks window (h @ [(a, now)]) now m' \<and>
    n = length (recent window now a (h @ [(a, now)])) mod 2 ^ 32"
proof -
  let ?m = "sweep window now m"
  have s: "tracks window h now ?m" using assms(1,2) by (rule sweep_tracks)
  have r: "recent window now agent (h @ [(a, now)]) = recent window now agent h @ (if a = agent then [now] else [])" for agent
    by (simp add: recent_def hits_of_snoc in_last_def)
  have entry: "(case ?m a of None \<Rightarrow> [] | Some deque \<Rightarrow> deque) = recent window now a h"
    using s by (simp add: tracks_def split: list.splits)
  have sorted: "sorted (map snd (h @ [(a, now)]))"
    using assms(1,2,3) by (auto simp: tracks_def sorted_append intro: order_trans)
  have m: "(?m(a \<mapsto> recent window now a h @ [now])) agent =
      (case recent window now agent (h @ [(a, now)]) of [] \<Rightarrow> None | d # ds \<Rightarrow> Some (d # ds))" for agent
    using s by (cases "recent window now a h") (auto simp: tracks_def r)
  from assms(4) entry have m': "m' = ?m(a \<mapsto> recent window now a h @ [now])"
    and n: "n = length (recent window now a h @ [now]) mod 2 ^ 32"
    by (auto simp: record_and_count_def Let_def)
  show ?thesis
    unfolding tracks_def m' using sorted m n by (simp only: r) simp
qed

theorem tracker_counts_window_witness:
  "fst (record_and_count 60 100 ''a'' (snd (record_and_count 60 30 ''a'' Map.empty))) = 1 \<and>
   fst (record_and_count 60 80 ''a'' (snd (record_and_count 60 30 ''a'' Map.empty))) = 2"
proof -
  have e: "tracks 60 [] 0 Map.empty" by (simp add: tracks_def recent_def hits_of_def)
  obtain n m where r: "record_and_count 60 30 ''a'' Map.empty = (n, m)" by fastforce
  have t: "tracks 60 [(''a'', 30)] 30 m"
    using tracker_counts_window [OF e _ _ r] by simp
  obtain n1 m1 where r1: "record_and_count 60 100 ''a'' m = (n1, m1)" by fastforce
  obtain n2 m2 where r2: "record_and_count 60 80 ''a'' m = (n2, m2)" by fastforce
  from tracker_counts_window [OF t _ _ r1] tracker_counts_window [OF t _ _ r2] r r1 r2 show ?thesis
    by (simp add: recent_def hits_of_def in_last_def)
qed

end
