(* ===== verification/Governance.thy ===== *)
theory Governance
  imports Policy Sample
begin

text \<open>
  The governance policy that is compiled into the program (\<open>policies/governance.rego\<close>), rule by rule,
  and the tiers it gives together with the heuristic Brain.
\<close>

section \<open>The rules\<close>

datatype violation =
    SqlExecution
  | ShellAccess
  | IntentScore rat
  | BulkExport "nat \<times> nat \<times> nat" string
  | TokenVelocity nat

text \<open>\<open>ns_now\<close>, \<open>time.clock\<close> and \<open>time.weekday\<close>; an unparsable \<open>current_time\<close> leaves them undefined.\<close>

definition ns_now :: "lib \<Rightarrow> time \<Rightarrow> policy_input \<Rightarrow> time option" where
  "ns_now L wall inp =
     (case pi_current_time inp of None \<Rightarrow> Some wall | Some s \<Rightarrow> parse_time L s)"

definition clock_now :: "time \<Rightarrow> nat \<times> nat \<times> nat" where
  "clock_now ns =
     (let secs = nat ((ns div 1000000000) mod 86400)
      in (secs div 3600, secs div 60 mod 60, secs mod 60))"

definition weekday_now :: "time \<Rightarrow> string" where
  "weekday_now ns =
     [''Thursday'', ''Friday'', ''Saturday'', ''Sunday'', ''Monday'', ''Tuesday'', ''Wednesday''] !
       nat ((ns div (86400 * 1000000000)) mod 7)"

definition is_business_hours :: "time \<Rightarrow> bool" where
  "is_business_hours ns \<longleftrightarrow>
     9 \<le> fst (clock_now ns) \<and> fst (clock_now ns) < 17 \<and>
     weekday_now ns \<noteq> ''Saturday'' \<and> weekday_now ns \<noteq> ''Sunday''"

definition recent_request_limit :: nat where
  "recent_request_limit = 100"

definition deny_rules :: "lib \<Rightarrow> time \<Rightarrow> policy_input \<Rightarrow> violation list" where
  "deny_rules L wall inp =
     (if pi_tool_type inp = ''sql_execute'' then [SqlExecution] else []) @
     (if pi_tool_type inp = ''shell_exec'' then [ShellAccess] else []) @
     (if 2 / 10 \<le> pi_intent_score inp then [IntentScore (pi_intent_score inp)] else []) @
     (case ns_now L wall inp of
        None \<Rightarrow> []
      | Some ns \<Rightarrow>
          if pi_tool_type inp = ''bulk_export'' \<and> \<not> is_business_hours ns
          then [BulkExport (clock_now ns) (weekday_now ns)] else []) @
     (if recent_request_limit < pi_recent_request_count inp
      then [TokenVelocity (pi_recent_request_count inp)] else [])"

definition review_rules :: "policy_input \<Rightarrow> string list" where
  "review_rules inp =
     (if pi_tool_type inp = ''wire_transfer''
      then [''Review: Wire transfers require human approval before execution.''] else [])"

definition allow_rule :: "lib \<Rightarrow> time \<Rightarrow> policy_input \<Rightarrow> bool" where
  "allow_rule L wall inp \<longleftrightarrow> length (deny_rules L wall inp) = 0"

text \<open>The messages; \<open>fmt2\<close> is the formatting directive for two decimals.\<close>

definition two_digits :: "nat \<Rightarrow> string" where
  "two_digits n = (if n < 10 then ''0'' @ show_nat n else show_nat n)"

definition dash :: string where
  "dash = [CHR 0xE2, CHR 0x80, CHR 0x94]"

fun violation_text :: "(rat \<Rightarrow> string) \<Rightarrow> violation \<Rightarrow> string" where
  "violation_text fmt2 SqlExecution =
     ''Violation: Direct execution of SQL queries is prohibited for this agent.''"
| "violation_text fmt2 ShellAccess = ''Violation: Direct shell access is prohibited.''"
| "violation_text fmt2 (IntentScore q) =
     ''Violation: Intent score '' @ fmt2 q @ '' exceeds safety threshold 0.2.''"
| "violation_text fmt2 (BulkExport (h, m, s) day) =
     ''Violation: Bulk export attempted at '' @ two_digits h @ '':'' @ two_digits m @ '':'' @ two_digits s @
     '' on '' @ day @
     '' (UTC). High-risk operations are restricted to business hours (Mon-Fri, 09:00-17:00 UTC).''"
| "violation_text fmt2 (TokenVelocity n) =
     ''Violation: Token velocity exceeded '' @ dash @ '' '' @ show_nat n @
     '' requests in the last 60s (limit '' @ show_nat recent_request_limit @
     ''). Possible recursive loop / denial-of-wallet attack.''"

definition governance_value ::
    "lib \<Rightarrow> (rat \<Rightarrow> string) \<Rightarrow> time \<Rightarrow> policy_input \<Rightarrow> string \<Rightarrow> rego_value" where
  "governance_value L fmt2 wall inp rule =
     (if rule = rule_name ''allow'' then RBool (allow_rule L wall inp)
      else if rule = rule_name ''deny''
      then RSet (map (\<lambda>v. RString (violation_text fmt2 v)) (deny_rules L wall inp))
      else RSet (map RString (review_rules inp)))"

text \<open>What is relied on of the Rego engine: it evaluates these rules on the input it was given.\<close>

definition runs_governance :: "lib \<Rightarrow> (rat \<Rightarrow> string) \<Rightarrow> bool" where
  "runs_governance L fmt2 \<longleftrightarrow>
     (\<forall>inp. set_input_json L (print_json L (policy_input_json inp)) = Inr ()) \<and>
     (\<forall>wall inp. \<forall>r \<in> {''allow'', ''deny'', ''review''}. pi_recent_request_count inp < 2 ^ 32 \<longrightarrow>
        eval_rule L wall (rule_name r) (print_json L (policy_input_json inp)) =
          Inr (governance_value L fmt2 wall inp (rule_name r)))"

section \<open>Lemmas\<close>

definition effective_input :: "nat \<Rightarrow> instant \<Rightarrow> policy_input \<Rightarrow> velocity_map \<Rightarrow> policy_input" where
  "effective_input window now inp m =
     (case (pi_recent_request_count inp, pi_agent_id inp) of
        (0, Some agent_id) \<Rightarrow> inp\<lparr>pi_recent_request_count := fst (record_and_count window now agent_id m)\<rparr>
      | _ \<Rightarrow> inp)"

lemma effective_input_sel [simp]:
  "pi_tool_type (effective_input window now inp m) = pi_tool_type inp"
  "pi_intent_score (effective_input window now inp m) = pi_intent_score inp"
  "pi_current_time (effective_input window now inp m) = pi_current_time inp"
  by (auto simp: effective_input_def split: nat.splits option.splits)

lemma effective_input_bound:
  "pi_recent_request_count inp < 2 ^ 32 \<Longrightarrow> pi_recent_request_count (effective_input window now inp m) < 2 ^ 32"
  by (auto simp: effective_input_def record_and_count_def Let_def split: nat.splits option.splits)

lemma evaluate_effective:
  "fst (evaluate L window now wall None inp m) =
     (case evaluate_rego L wall (print_json L (policy_input_json (effective_input window now inp m))) of
        Inl reason \<Rightarrow> deny_with reason | Inr d \<Rightarrow> d)"
  by (auto simp: evaluate_def effective_input_def Let_def split: nat.splits option.splits prod.splits)

lemma map_filter_strings: "List.map_filter string_value (map (\<lambda>v. RString (f v)) vs) = map f vs"
  by (induction vs) (auto simp: List.map_filter_simps)

lemma evaluate_rego_governance:
  assumes "runs_governance L fmt2" "pi_recent_request_count inp < 2 ^ 32"
  shows "\<exists>d. evaluate_rego L wall (print_json L (policy_input_json inp)) = Inr d \<and>
    pd_allow d = allow_rule L wall inp \<and>
    pd_policy_review_reasons d = review_rules inp"
proof -
  have ne: "rule_name ''deny'' \<noteq> rule_name ''allow''" "rule_name ''review'' \<noteq> rule_name ''allow''"
    "rule_name ''review'' \<noteq> rule_name ''deny''" by (simp_all add: rule_name_def)
  have "sort (review_rules inp) = review_rules inp" by (simp add: review_rules_def)
  with assms ne show ?thesis
    using map_filter_strings [of "\<lambda>x. x"]
    by (auto simp: evaluate_rego_def runs_governance_def eval_labelled_def governance_value_def Let_def)
qed

lemma governance_decision:
  assumes "runs_governance L fmt2" "pi_recent_request_count inp < 2 ^ 32"
  shows "pd_allow (fst (evaluate L window now wall None inp m)) \<longleftrightarrow>
      deny_rules L wall (effective_input window now inp m) = []"
    and "pd_policy_review_reasons (fst (evaluate L window now wall None inp m)) = review_rules inp"
proof -
  from evaluate_rego_governance [OF assms(1) effective_input_bound [OF assms(2)], of wall window now m]
  obtain d where
    "evaluate_rego L wall (print_json L (policy_input_json (effective_input window now inp m))) = Inr d"
    "pd_allow d = allow_rule L wall (effective_input window now inp m)"
    "pd_policy_review_reasons d = review_rules (effective_input window now inp m)" by blast
  then show "pd_allow (fst (evaluate L window now wall None inp m)) \<longleftrightarrow>
      deny_rules L wall (effective_input window now inp m) = []"
    "pd_policy_review_reasons (fst (evaluate L window now wall None inp m)) = review_rules inp"
    by (simp_all add: evaluate_effective allow_rule_def review_rules_def)
qed

lemma deny_rules_empty:
  "deny_rules L wall inp = [] \<longleftrightarrow>
     pi_tool_type inp \<noteq> ''sql_execute'' \<and> pi_tool_type inp \<noteq> ''shell_exec'' \<and>
     pi_intent_score inp < 2 / 10 \<and>
     \<not> (pi_tool_type inp = ''bulk_export'' \<and> (\<exists>ns. ns_now L wall inp = Some ns \<and> \<not> is_business_hours ns)) \<and>
     pi_recent_request_count inp \<le> recent_request_limit"
  by (auto simp: deny_rules_def split: option.splits if_splits)

lemma ns_now_effective [simp]: "ns_now L wall (effective_input window now inp m) = ns_now L wall inp"
  by (simp add: ns_now_def)

section \<open>A concrete engine\<close>

definition string_field :: "string \<Rightarrow> json \<Rightarrow> string option" where
  "string_field k v = Option.bind (json_get k v) as_str"

fun num_field :: "string \<Rightarrow> json \<Rightarrow> rat" where
  "num_field k v = (case json_get k v of
     Some (JNum (Integral i)) \<Rightarrow> of_int i | Some (JNum (Double q)) \<Rightarrow> q | _ \<Rightarrow> 0)"

definition input_of_json :: "json \<Rightarrow> policy_input" where
  "input_of_json v =
     \<lparr>pi_tool_type = (case string_field ''tool_type'' v of None \<Rightarrow> [] | Some s \<Rightarrow> s),
      pi_last_tool = Option.bind (json_get ''agent_history'' v) (string_field ''last_tool''),
      pi_intent_score = num_field ''intent_score'' v,
      pi_current_time = string_field ''current_time'' v, pi_agent_id = string_field ''agent_id'' v,
      pi_method = string_field ''method'' v,
      pi_recent_request_count = nat \<lfloor>num_field ''recent_request_count'' v\<rfloor>,
      pi_correlation_id = string_field ''correlation_id'' v\<rparr>"

lemma input_round_trip: "input_of_json (policy_input_json inp) = inp"
  by (cases inp) (auto simp: input_of_json_def policy_input_json_def string_field_def jopt_def
      split: option.splits)

definition governance_rules :: "time \<Rightarrow> string \<Rightarrow> string \<Rightarrow> (string, rego_value) result" where
  "governance_rules wall rule inp =
     (case sample_parse [] inp of
        None \<Rightarrow> Inl ''input''
      | Some v \<Rightarrow> Inr (governance_value lib0 (\<lambda>q. []) wall (input_of_json v) rule))"

definition gov_lib :: "(string \<times> json) list \<Rightarrow> (string \<times> url) list \<Rightarrow> lib" where
  "gov_lib bodies urls = sample_lib bodies urls governance_rules"

lemma governance_value_sample:
  "governance_value (sample_lib bodies urls rules) fmt2 wall inp rule = governance_value lib0 fmt2 wall inp rule"
proof -
  have "parse_time (sample_lib bodies urls rules) = parse_time lib0"
    by (simp add: sample_lib_def lib0_def)
  then have "ns_now (sample_lib bodies urls rules) wall inp = ns_now lib0 wall inp"
    by (cases "pi_current_time inp") (simp_all add: ns_now_def)
  then show ?thesis by (simp add: governance_value_def allow_rule_def deny_rules_def)
qed

lemma gov_lib_runs: "runs_governance (gov_lib bodies urls) (\<lambda>q. [])"
  unfolding runs_governance_def
proof (intro conjI allI ballI impI)
  fix wall :: time and inp :: policy_input and r
  assume "pi_recent_request_count inp < 2 ^ 32"
  then have "json_wf (policy_input_json inp)"
    by (simp add: policy_input_json_def int_ok_def jopt_def split: option.splits)
  then have "sample_parse [] (print_json (gov_lib bodies urls) (policy_input_json inp)) = Some (policy_input_json inp)"
    by (simp add: gov_lib_def sample_lib_def sample_parse_def)
  then have "governance_rules wall (rule_name r) (print_json (gov_lib bodies urls) (policy_input_json inp)) =
      Inr (governance_value lib0 (\<lambda>q. []) wall inp (rule_name r))"
    by (simp add: governance_rules_def input_round_trip)
  then show "eval_rule (gov_lib bodies urls) wall (rule_name r) (print_json (gov_lib bodies urls) (policy_input_json inp)) =
      Inr (governance_value (gov_lib bodies urls) (\<lambda>q. []) wall inp (rule_name r))"
    unfolding gov_lib_def governance_value_sample by (simp add: sample_lib_def)
qed (simp add: gov_lib_def sample_lib_def)

section \<open>Properties\<close>

text \<open>
  C31. With the shipped rules the tier of a request is exactly: red if the Brain found an injection or a
  dangerous tool, on a bulk export outside business hours, or above the velocity limit; otherwise
  yellow for a wire transfer; otherwise green. Whatever the Brain rejects the policy rejects too.
\<close>

theorem governance_tiers:
  assumes "runs_governance L fmt2" "pi_recent_request_count inp < 2 ^ 32"
    and "pi_tool_type inp = t" "pi_intent_score inp = hv_intent_score (inspect t payload)"
    and policy: "policy = fst (evaluate L window now wall None inp m)"
  shows "classify (inspect t payload) policy =
      (if hv_injection_detected (inspect t payload) \<or> t \<in> set DANGEROUS_TOOL_NAMES \<or>
          t = ''bulk_export'' \<and> (\<exists>ns. ns_now L wall inp = Some ns \<and> \<not> is_business_hours ns) \<or>
          100 < pi_recent_request_count (effective_input window now inp m) then Red
       else if t = ''wire_transfer'' then Yellow else Green) \<and>
    (\<not> hv_authorized (inspect t payload) \<longrightarrow> \<not> pd_allow policy)"
proof -
  have d: "t = ''sql_execute'' \<or> t = ''shell_exec'' \<Longrightarrow> t \<in> set DANGEROUS_TOOL_NAMES"
    by (auto simp: DANGEROUS_TOOL_NAMES_def)
  have s: "hv_intent_score (inspect t payload) < 2 / 10 \<longleftrightarrow> hv_authorized (inspect t payload)"
    by (simp add: inspect_score_cases inspect_authorized)
  note g = governance_decision [OF assms(1,2), of window now wall m, folded policy]
  then have allow: "pd_allow policy \<longleftrightarrow> hv_authorized (inspect t payload) \<and>
      \<not> (t = ''bulk_export'' \<and> (\<exists>ns. ns_now L wall inp = Some ns \<and> \<not> is_business_hours ns)) \<and>
      pi_recent_request_count (effective_input window now inp m) \<le> 100"
    using d s inspect_authorized [of t payload] assms(3,4)
    by (auto simp: deny_rules_empty recent_request_limit_def)
  have "pd_policy_review_reasons policy = [] \<longleftrightarrow> t \<noteq> ''wire_transfer''"
    using g(2) assms(3) by (simp add: review_rules_def)
  with allow show ?thesis
    using inspect_authorized [of t payload] by (auto simp: classify_def)
qed

definition input0 :: "string \<Rightarrow> policy_input" where
  "input0 t = \<lparr>pi_tool_type = t, pi_last_tool = None, pi_intent_score = 5 / 100, pi_current_time = None,
     pi_agent_id = Some ''t/a'', pi_method = None, pi_recent_request_count = 0, pi_correlation_id = None\<rparr>"

text \<open>Saturday 2 May 2026, 12:00 UTC: a bulk export is refused, a wire transfer waits for review.\<close>

theorem governance_tiers_witness:
  "classify (inspect ''wire_transfer'' ''hi'')
     (fst (evaluate (gov_lib [] []) 60 7 (1777723200 * 1000000000) None (input0 ''wire_transfer'') Map.empty)) = Yellow \<and>
   classify (inspect ''bulk_export'' ''hi'')
     (fst (evaluate (gov_lib [] []) 60 7 (1777723200 * 1000000000) None (input0 ''bulk_export'') Map.empty)) = Red"
proof -
  have w: "hv_injection_detected (inspect ''wire_transfer'' ''hi'') = False"
    "hv_injection_detected (inspect ''bulk_export'' ''hi'') = False" by code_simp+
  have s: "hv_intent_score (inspect ''wire_transfer'' ''hi'') = 5 / 100"
    "hv_intent_score (inspect ''bulk_export'' ''hi'') = 5 / 100"
    using w by (simp_all add: inspect_score_cases DANGEROUS_TOOL_NAMES_def)
  have b: "\<not> is_business_hours (1777723200 * 1000000000)"
    by (simp add: is_business_hours_def clock_now_def weekday_now_def Let_def)
  have n: "ns_now L wall (input0 t) = Some wall" for L wall t by (simp add: ns_now_def input0_def)
  have c: "pi_recent_request_count (effective_input 60 7 (input0 t) Map.empty) = 1" for t
    by (simp add: effective_input_def input0_def record_and_count_def sweep_def)
  have i: "pi_recent_request_count (input0 t) < 2 ^ 32" "pi_tool_type (input0 t) = t"
    "pi_intent_score (input0 t) = 5 / 100" for t by (simp_all add: input0_def)
  have d: "''wire_transfer'' \<notin> set DANGEROUS_TOOL_NAMES" by (simp add: DANGEROUS_TOOL_NAMES_def)
  note T = governance_tiers [OF gov_lib_runs i(1,2), OF _ refl, of _ _ "[]" "[]" 60 7 "1777723200 * 1000000000" Map.empty]
  have s': "pi_intent_score (input0 ''wire_transfer'') = hv_intent_score (inspect ''wire_transfer'' ''hi'')"
    "pi_intent_score (input0 ''bulk_export'') = hv_intent_score (inspect ''bulk_export'' ''hi'')"
    by (simp_all only: i(3) s)
  from T [OF s'(1), THEN conjunct1] have 1: "classify (inspect ''wire_transfer'' ''hi'')
      (fst (evaluate (gov_lib [] []) 60 7 (1777723200 * 1000000000) None (input0 ''wire_transfer'') Map.empty)) = Yellow"
    unfolding w(1) c using d by simp
  from T [OF s'(2), THEN conjunct1] have 2: "classify (inspect ''bulk_export'' ''hi'')
      (fst (evaluate (gov_lib [] []) 60 7 (1777723200 * 1000000000) None (input0 ''bulk_export'') Map.empty)) = Red"
    unfolding n using b by simp
  from 1 2 show ?thesis ..
qed

end
