(* ===== verification/Rate_Limit.thy ===== *)
theory Rate_Limit
  imports Policy "HOL-Library.AList"
begin

text \<open>
  The per-agent token-bucket limiter (\<open>src/rate_limit.rs\<close>). \<open>Instant\<close>s are nanoseconds; the \<open>f64\<close>
  arithmetic is rational arithmetic, without its rounding. The \<open>HashMap\<close> is an association list,
  whose order nothing depends on.
\<close>

section \<open>The model\<close>

definition MAX_BUCKETS :: nat where
  "MAX_BUCKETS = 10000"

definition IDLE_PRUNE_AFTER :: nat where
  "IDLE_PRUNE_AFTER = 3600 * 1000000000"

record rate_limit_config =
  rc_qps :: rat
  rc_burst :: nat

definition rate_limit_disabled :: rate_limit_config where
  "rate_limit_disabled = \<lparr>rc_qps = 0, rc_burst = 0\<rparr>"

definition is_enabled :: "rate_limit_config \<Rightarrow> bool" where
  "is_enabled cfg \<longleftrightarrow> 0 < rc_qps cfg \<and> 0 < rc_burst cfg"

datatype rate_limit_outcome = Allowed | Denied string nat

record token_bucket =
  tb_capacity :: nat
  tb_tokens :: rat
  tb_refill_per_sec :: rat
  tb_last_refill :: instant
  tb_last_touch :: instant

definition new_bucket :: "rate_limit_config \<Rightarrow> instant \<Rightarrow> token_bucket" where
  "new_bucket cfg now =
     (let capacity = max (rc_burst cfg) 1
      in \<lparr>tb_capacity = capacity, tb_tokens = of_nat capacity, tb_refill_per_sec = rc_qps cfg,
          tb_last_refill = now, tb_last_touch = now\<rparr>)"

definition as_secs :: "nat \<Rightarrow> rat" where
  "as_secs ns = of_nat ns / 1000000000"

definition refill :: "instant \<Rightarrow> token_bucket \<Rightarrow> token_bucket" where
  "refill now b =
     (let elapsed = as_secs (now - tb_last_refill b)
      in if elapsed \<le> 0 then b
         else b\<lparr>tb_tokens := min (tb_tokens b + elapsed * tb_refill_per_sec b) (of_nat (tb_capacity b)),
                tb_last_refill := now\<rparr>)"

text \<open>\<open>ceil() as u64\<close> saturates.\<close>

definition ceil_u64 :: "rat \<Rightarrow> nat" where
  "ceil_u64 q = min (nat \<lceil>q\<rceil>) (2 ^ 64 - 1)"

definition try_consume :: "instant \<Rightarrow> token_bucket \<Rightarrow> (nat, unit) result \<times> token_bucket" where
  "try_consume now b0 =
     (let b = (refill now b0)\<lparr>tb_last_touch := now\<rparr>
      in if 1 \<le> tb_tokens b then (Inr (), b\<lparr>tb_tokens := tb_tokens b - 1\<rparr>)
         else let deficit = 1 - tb_tokens b;
                  seconds = (if 0 < tb_refill_per_sec b then ceil_u64 (deficit / tb_refill_per_sec b) else 1)
              in (Inl (max seconds 1), b))"

type_synonym buckets = "(string \<times> token_bucket) list"

definition prunable :: "instant \<Rightarrow> token_bucket \<Rightarrow> bool" where
  "prunable now b \<longleftrightarrow>
     of_nat (tb_capacity b) \<le> tb_tokens b \<and> IDLE_PRUNE_AFTER \<le> now - tb_last_touch b"

definition maybe_prune :: "instant \<Rightarrow> buckets \<Rightarrow> buckets" where
  "maybe_prune now m =
     (if length m < MAX_BUCKETS then m else filter (\<lambda>kb. \<not> prunable now (snd kb)) m)"

text \<open>\<open>from_config\<close>: the limiter is its configuration with an empty map, or absent.\<close>

definition from_config :: "rate_limit_config \<Rightarrow> (rate_limit_config \<times> buckets) option" where
  "from_config cfg = (if is_enabled cfg then Some (cfg, []) else None)"

definition check_rate :: "rate_limit_config \<Rightarrow> instant \<Rightarrow> string \<Rightarrow> buckets \<Rightarrow> rate_limit_outcome \<times> buckets" where
  "check_rate cfg now agent_id m0 =
     (let m = maybe_prune now m0;
          bucket = (case map_of m agent_id of None \<Rightarrow> new_bucket cfg now | Some b \<Rightarrow> b);
          (res, bucket') = try_consume now bucket;
          m' = AList.update agent_id bucket' m
      in (case res of Inr _ \<Rightarrow> Allowed | Inl secs \<Rightarrow> Denied agent_id secs, m'))"

section \<open>One bucket\<close>

definition bucket_ok :: "rate_limit_config \<Rightarrow> instant \<Rightarrow> token_bucket \<Rightarrow> bool" where
  "bucket_ok cfg t b \<longleftrightarrow>
     tb_capacity b = rc_burst cfg \<and> tb_refill_per_sec b = rc_qps cfg \<and>
     0 \<le> tb_tokens b \<and> tb_tokens b < of_nat (rc_burst cfg) \<and>
     tb_last_refill b \<le> t"

definition level :: "rate_limit_config \<Rightarrow> instant \<Rightarrow> token_bucket option \<Rightarrow> rat" where
  "level cfg now ob =
     (case ob of
        None \<Rightarrow> of_nat (rc_burst cfg)
      | Some b \<Rightarrow> min (tb_tokens b + as_secs (now - tb_last_refill b) * rc_qps cfg) (of_nat (rc_burst cfg)))"

definition bucket_at :: "rate_limit_config \<Rightarrow> instant \<Rightarrow> token_bucket option \<Rightarrow> token_bucket" where
  "bucket_at cfg now ob = (case ob of None \<Rightarrow> new_bucket cfg now | Some b \<Rightarrow> b)"

lemma as_secs_nonneg [simp]: "0 \<le> as_secs n"
  by (simp add: as_secs_def)

lemma as_secs_pos_iff: "as_secs n \<le> 0 \<longleftrightarrow> n = 0"
  by (simp add: as_secs_def)

lemma as_secs_split: "t \<le> u \<Longrightarrow> u \<le> v \<Longrightarrow> as_secs (v - t) = as_secs (v - u) + as_secs (u - t)"
  by (simp add: as_secs_def add_divide_distrib [symmetric] of_nat_add [symmetric] del: of_nat_add)

text \<open>
  \<open>bucket_step\<close> consults one agent's bucket: at the level \<open>level\<close> the request is allowed when a
  whole token is there, and takes it.
\<close>

definition bucket_step ::
    "rate_limit_config \<Rightarrow> instant \<Rightarrow> token_bucket option \<Rightarrow> (nat, unit) result \<times> token_bucket" where
  "bucket_step cfg now ob = try_consume now (bucket_at cfg now ob)"

definition taken :: "rate_limit_config \<Rightarrow> instant \<Rightarrow> token_bucket option \<Rightarrow> rat" where
  "taken cfg now ob = level cfg now ob - (if 1 \<le> level cfg now ob then 1 else 0)"

lemma refill_level:
  assumes "is_enabled cfg" "\<And>b. ob = Some b \<Longrightarrow> bucket_ok cfg t b" "t \<le> now"
  shows "tb_tokens (refill now (bucket_at cfg now ob)) = level cfg now ob"
    and "tb_refill_per_sec (refill now (bucket_at cfg now ob)) = rc_qps cfg"
    and "tb_capacity (refill now (bucket_at cfg now ob)) = rc_burst cfg"
    and "tb_last_refill (refill now (bucket_at cfg now ob)) = now"
proof -
  have "tb_tokens (refill now (bucket_at cfg now ob)) = level cfg now ob \<and>
    tb_refill_per_sec (refill now (bucket_at cfg now ob)) = rc_qps cfg \<and>
    tb_capacity (refill now (bucket_at cfg now ob)) = rc_burst cfg \<and>
    tb_last_refill (refill now (bucket_at cfg now ob)) = now"
  proof (cases ob)
    case None
    with assms(1) show ?thesis
      by (simp add: bucket_at_def refill_def new_bucket_def level_def as_secs_pos_iff is_enabled_def Let_def)
  next
    case (Some b)
    with assms(2) have ok: "bucket_ok cfg t b" by blast
    show ?thesis
    proof (cases "now - tb_last_refill b = 0")
      case True
      with ok assms(3) have "now = tb_last_refill b" by (simp add: bucket_ok_def)
      with ok Some True show ?thesis
        by (simp add: bucket_at_def refill_def level_def bucket_ok_def as_secs_def Let_def)
    next
      case False
      with ok Some show ?thesis
        by (simp add: bucket_at_def refill_def level_def bucket_ok_def as_secs_pos_iff Let_def del: diff_is_0_eq)
    qed
  qed
  then show "tb_tokens (refill now (bucket_at cfg now ob)) = level cfg now ob"
    "tb_refill_per_sec (refill now (bucket_at cfg now ob)) = rc_qps cfg"
    "tb_capacity (refill now (bucket_at cfg now ob)) = rc_burst cfg"
    "tb_last_refill (refill now (bucket_at cfg now ob)) = now" by simp_all
qed

lemma level_bounds:
  assumes "is_enabled cfg" "\<And>b. ob = Some b \<Longrightarrow> bucket_ok cfg t b"
  shows "0 \<le> level cfg now ob" "level cfg now ob \<le> of_nat (rc_burst cfg)"
proof -
  have "0 \<le> level cfg now ob \<and> level cfg now ob \<le> of_nat (rc_burst cfg)"
  proof (cases ob)
    case None
    then show ?thesis by (simp add: level_def)
  next
    case (Some b)
    with assms(2) have "bucket_ok cfg t b" by blast
    moreover have "0 \<le> as_secs (now - tb_last_refill b) * rc_qps cfg"
      using assms(1) by (simp add: is_enabled_def)
    ultimately show ?thesis by (simp add: level_def Some bucket_ok_def min_def)
  qed
  then show "0 \<le> level cfg now ob" "level cfg now ob \<le> of_nat (rc_burst cfg)" by simp_all
qed

lemma bucket_step_spec:
  assumes "is_enabled cfg" "\<And>b. ob = Some b \<Longrightarrow> bucket_ok cfg t b" "t \<le> now"
  shows "fst (bucket_step cfg now ob) =
      (if 1 \<le> level cfg now ob then Inr ()
       else Inl (max (ceil_u64 ((1 - level cfg now ob) / rc_qps cfg)) 1))"
    and "tb_tokens (snd (bucket_step cfg now ob)) = taken cfg now ob"
    and "tb_last_refill (snd (bucket_step cfg now ob)) = now"
    and "bucket_ok cfg now (snd (bucket_step cfg now ob))"
proof -
  note r = refill_level [OF assms]
  have q: "0 < rc_qps cfg" "1 \<le> rc_burst cfg" using assms(1) by (simp_all add: is_enabled_def)
  show "fst (bucket_step cfg now ob) =
      (if 1 \<le> level cfg now ob then Inr ()
       else Inl (max (ceil_u64 ((1 - level cfg now ob) / rc_qps cfg)) 1))"
    "tb_tokens (snd (bucket_step cfg now ob)) = taken cfg now ob"
    "tb_last_refill (snd (bucket_step cfg now ob)) = now"
    using q r by (simp_all add: bucket_step_def try_consume_def taken_def Let_def)
  have "(1::rat) \<le> of_nat (rc_burst cfg)" using q(2) by simp
  then have "taken cfg now ob < of_nat (rc_burst cfg)" "0 \<le> taken cfg now ob"
    using level_bounds [where ob = ob and t = t and now = now, OF assms(1,2)] by (auto simp: taken_def)
  then show "bucket_ok cfg now (snd (bucket_step cfg now ob))"
    using r by (auto simp: bucket_ok_def bucket_step_def try_consume_def taken_def Let_def)
qed

lemma level_later:
  assumes "is_enabled cfg" "\<And>b. ob = Some b \<Longrightarrow> bucket_ok cfg t b" "t \<le> now"
  shows "level cfg u (Some (snd (bucket_step cfg now ob))) =
    min (taken cfg now ob + as_secs (u - now) * rc_qps cfg) (of_nat (rc_burst cfg))"
  using bucket_step_spec [OF assms] by (simp add: level_def)

lemma as_secs_mono: "now + secs * 1000000000 \<le> later \<Longrightarrow> of_nat secs \<le> as_secs (later - now)"
proof -
  assume "now + secs * 1000000000 \<le> later"
  then have "secs * 1000000000 \<le> later - now" by simp
  then have "(of_nat (secs * 1000000000) :: rat) \<le> of_nat (later - now)" by (rule of_nat_mono)
  then show ?thesis by (simp add: as_secs_def field_simps)
qed

lemma enough_wait:
  assumes "is_enabled cfg" "0 \<le> l" "l < 1" "1 \<le> rc_qps cfg * 2 ^ 63"
  shows "1 - l \<le> of_nat (max (ceil_u64 ((1 - l) / rc_qps cfg)) 1) * rc_qps cfg"
proof -
  let ?w = "(1 - l) / rc_qps cfg"
  have q: "0 < rc_qps cfg" using assms(1) by (simp add: is_enabled_def)
  have "1 - l \<le> rc_qps cfg * 2 ^ 63" using assms(2,4) by linarith
  then have "?w \<le> of_int (2 ^ 63)" using q by (simp add: field_simps)
  then have "\<lceil>?w\<rceil> \<le> 2 ^ 63" by (simp only: ceiling_le_iff)
  then have "nat \<lceil>?w\<rceil> \<le> nat (2 ^ 63)" by (rule nat_mono)
  also have "nat (2 ^ 63) \<le> 2 ^ 64 - 1" by simp
  finally have "nat \<lceil>?w\<rceil> \<le> 2 ^ 64 - 1" .
  then have "ceil_u64 ?w = nat \<lceil>?w\<rceil>" by (simp add: ceil_u64_def)
  moreover have "?w \<le> of_nat (nat \<lceil>?w\<rceil>)" by linarith
  ultimately have "?w \<le> of_nat (max (ceil_u64 ?w) 1)" by simp
  with q show ?thesis by (simp add: field_simps)
qed

section \<open>The map\<close>

definition buckets_ok :: "rate_limit_config \<Rightarrow> instant \<Rightarrow> buckets \<Rightarrow> bool" where
  "buckets_ok cfg t m \<longleftrightarrow> (\<forall>(a, b) \<in> set m. bucket_ok cfg t b)"

lemma no_pruning:
  assumes "buckets_ok cfg t m"
  shows "maybe_prune now m = m"
proof -
  have "\<not> prunable now (snd kb)" if "kb \<in> set m" for kb
    using assms that by (fastforce simp: buckets_ok_def prunable_def bucket_ok_def)
  then show ?thesis by (simp add: maybe_prune_def)
qed

lemma buckets_ok_at: "buckets_ok cfg t m \<Longrightarrow> map_of m a = Some b \<Longrightarrow> bucket_ok cfg t b"
  by (auto simp: buckets_ok_def dest: map_of_SomeD)

lemma bucket_ok_mono: "bucket_ok cfg t b \<Longrightarrow> t \<le> u \<Longrightarrow> bucket_ok cfg u b"
  by (simp add: bucket_ok_def)

lemma set_update: "set (AList.update k v m) \<subseteq> insert (k, v) (set m)"
  by (induction m) auto

lemma check_rate_step:
  assumes "is_enabled cfg" "buckets_ok cfg t m" "t \<le> now"
  shows "check_rate cfg now a m =
    (case bucket_step cfg now (map_of m a) of
       (res, b) \<Rightarrow> (case res of Inr _ \<Rightarrow> Allowed | Inl secs \<Rightarrow> Denied a secs, AList.update a b m))"
    and "buckets_ok cfg now (snd (check_rate cfg now a m))"
proof -
  show eq: "check_rate cfg now a m =
    (case bucket_step cfg now (map_of m a) of
       (res, b) \<Rightarrow> (case res of Inr _ \<Rightarrow> Allowed | Inl secs \<Rightarrow> Denied a secs, AList.update a b m))"
    unfolding check_rate_def bucket_step_def bucket_at_def no_pruning [OF assms(2)] by (simp add: Let_def)
  have "bucket_ok cfg now (snd (bucket_step cfg now (map_of m a)))"
    using bucket_step_spec(4) [OF assms(1) _ assms(3)] buckets_ok_at [OF assms(2)] by blast
  moreover have "set (snd (check_rate cfg now a m)) \<subseteq>
      insert (a, snd (bucket_step cfg now (map_of m a))) (set m)"
    using set_update [of a "snd (bucket_step cfg now (map_of m a))" m]
    by (cases "bucket_step cfg now (map_of m a)") (simp add: eq)
  moreover have "bucket_ok cfg now b" if "(k, b) \<in> set m" for k b
    using assms(2,3) that bucket_ok_mono by (auto simp: buckets_ok_def)
  ultimately show "buckets_ok cfg now (snd (check_rate cfg now a m))"
    unfolding buckets_ok_def by blast
qed

section \<open>Histories\<close>

text \<open>A history is the list of the checks: who asked, and when.\<close>

fun check_all :: "rate_limit_config \<Rightarrow> (instant \<times> string) list \<Rightarrow> buckets \<Rightarrow> rate_limit_outcome list \<times> buckets" where
  "check_all cfg [] m = ([], m)"
| "check_all cfg ((now, a) # hits) m =
     (case check_rate cfg now a m of
        (outcome, m1) \<Rightarrow> (case check_all cfg hits m1 of (outcomes, m2) \<Rightarrow> (outcome # outcomes, m2)))"

definition outcomes_of :: "string \<Rightarrow> (instant \<times> string) list \<Rightarrow> rate_limit_outcome list \<Rightarrow> rate_limit_outcome list" where
  "outcomes_of a hits outcomes = map snd (filter (\<lambda>ho. snd (fst ho) = a) (zip hits outcomes))"

definition times_of :: "string \<Rightarrow> (instant \<times> string) list \<Rightarrow> instant list" where
  "times_of a hits = map fst (filter (\<lambda>h. snd h = a) hits)"

fun bucket_run ::
    "rate_limit_config \<Rightarrow> string \<Rightarrow> instant list \<Rightarrow> token_bucket option \<Rightarrow>
     rate_limit_outcome list \<times> token_bucket option" where
  "bucket_run cfg a [] ob = ([], ob)"
| "bucket_run cfg a (now # ts) ob =
     (case bucket_step cfg now ob of
        (res, b) \<Rightarrow> (case bucket_run cfg a ts (Some b) of
          (outcomes, ob') \<Rightarrow>
            ((case res of Inr _ \<Rightarrow> Allowed | Inl secs \<Rightarrow> Denied a secs) # outcomes, ob')))"

lemma check_all_append:
  "check_all cfg (xs @ ys) m =
     (case check_all cfg xs m of (o1, m1) \<Rightarrow> (case check_all cfg ys m1 of (o2, m2) \<Rightarrow> (o1 @ o2, m2)))"
  by (induction cfg xs m rule: check_all.induct) (auto split: prod.splits)

lemma length_check_all [simp]: "length (fst (check_all cfg hits m)) = length hits"
  by (induction cfg hits m rule: check_all.induct) (auto split: prod.splits)

lemma check_all_buckets:
  assumes "is_enabled cfg"
  shows "buckets_ok cfg t m \<Longrightarrow> sorted (t # map fst hits) \<Longrightarrow>
    buckets_ok cfg (last (t # map fst hits)) (snd (check_all cfg hits m)) \<and>
    outcomes_of a hits (fst (check_all cfg hits m)) = fst (bucket_run cfg a (times_of a hits) (map_of m a)) \<and>
    map_of (snd (check_all cfg hits m)) a = snd (bucket_run cfg a (times_of a hits) (map_of m a))"
proof (induction hits arbitrary: t m)
  case Nil
  then show ?case by (simp add: outcomes_of_def times_of_def)
next
  case (Cons h hits)
  obtain now x where h: "h = (now, x)" by fastforce
  obtain res b where b: "bucket_step cfg now (map_of m x) = (res, b)" by fastforce
  have step: "check_rate cfg now x m =
      (case res of Inr _ \<Rightarrow> Allowed | Inl secs \<Rightarrow> Denied x secs, AList.update x b m)"
    and ok: "buckets_ok cfg now (AList.update x b m)"
    using check_rate_step [OF assms Cons.prems(1), of now x] Cons.prems(2) by (simp_all add: h b)
  obtain os m2 where r: "check_all cfg hits (AList.update x b m) = (os, m2)" by fastforce
  from Cons.IH [OF ok] Cons.prems(2) r
  have IH: "buckets_ok cfg (last (now # map fst hits)) m2"
    "outcomes_of a hits os = fst (bucket_run cfg a (times_of a hits) (map_of (AList.update x b m) a))"
    "map_of m2 a = snd (bucket_run cfg a (times_of a hits) (map_of (AList.update x b m) a))"
    by (simp_all add: h)
  show ?case
  proof (cases "x = a")
    case True
    obtain os' ob' where "bucket_run cfg a (times_of a hits) (Some b) = (os', ob')" by fastforce
    with IH True show ?thesis
      using b step r by (cases res) (simp_all add: h outcomes_of_def times_of_def update_conv')
  next
    case False
    with IH show ?thesis
      using step r by (simp add: h outcomes_of_def times_of_def update_conv')
  qed
qed

definition allowed :: "rate_limit_outcome list \<Rightarrow> nat" where
  "allowed outcomes = length (filter (\<lambda>outcome. outcome = Allowed) outcomes)"

lemma level_advance:
  assumes "is_enabled cfg" "u \<le> v" "\<And>b. ob = Some b \<Longrightarrow> tb_last_refill b \<le> u"
  shows "level cfg v ob \<le> level cfg u ob + as_secs (v - u) * rc_qps cfg"
proof (cases ob)
  case None
  with assms(1) show ?thesis by (simp add: level_def is_enabled_def)
next
  case (Some b)
  have "as_secs (v - tb_last_refill b) = as_secs (v - u) + as_secs (u - tb_last_refill b)"
    using assms(2,3) Some by (intro as_secs_split) auto
  moreover have "0 \<le> as_secs (v - u) * rc_qps cfg" using assms(1) by (simp add: is_enabled_def)
  ultimately show ?thesis
    by (simp add: level_def Some distrib_right min_def)
qed

lemma bucket_run_budget:
  assumes "is_enabled cfg"
  shows "\<lbrakk>\<And>b. ob = Some b \<Longrightarrow> bucket_ok cfg t b; sorted (t # ts); \<forall>x \<in> set (t # ts). x \<le> T\<rbrakk> \<Longrightarrow>
    of_nat (allowed (fst (bucket_run cfg a ts ob))) \<le> level cfg t ob + as_secs (T - t) * rc_qps cfg"
proof (induction ts arbitrary: t ob)
  case Nil
  have "0 \<le> as_secs (T - t) * rc_qps cfg" using assms by (simp add: is_enabled_def)
  with level_bounds(1) [where ob = ob and t = t and now = t, OF assms Nil(1)] show ?case
    by (simp add: allowed_def)
next
  case (Cons now ts)
  have le: "t \<le> now" "now \<le> T" using Cons.prems(2,3) by simp_all
  obtain res b where b: "bucket_step cfg now ob = (res, b)" by fastforce
  obtain os ob' where r: "bucket_run cfg a ts (Some b) = (os, ob')" by fastforce
  note spec = bucket_step_spec [where ob = ob and t = t and now = now, OF assms Cons.prems(1) le(1), unfolded b, simplified]
  have IH: "of_nat (allowed os) \<le> level cfg now (Some b) + as_secs (T - now) * rc_qps cfg"
    using Cons.IH [of "Some b" now] spec(4) Cons.prems(2,3) by (simp add: r)
  have lv: "level cfg now (Some b) \<le> taken cfg now ob"
    using spec(2,3) by (simp add: level_def as_secs_def)
  have adv: "level cfg now ob \<le> level cfg t ob + as_secs (now - t) * rc_qps cfg"
    using Cons.prems(1) by (intro level_advance [OF assms le(1)]) (auto simp: bucket_ok_def)
  have split: "as_secs (T - t) = as_secs (T - now) + as_secs (now - t)"
    using as_secs_split [OF le] .
  have "of_nat (allowed (fst (bucket_run cfg a (now # ts) ob))) =
      of_nat (allowed os) + (if 1 \<le> level cfg now ob then 1 else 0 :: rat)"
    using spec(1) by (simp add: b r allowed_def)
  with IH lv adv show ?case
    by (simp add: split distrib_right taken_def split: if_splits)
qed

text \<open>A fresh limiter, and the state after a history.\<close>

definition rate_run :: "rate_limit_config \<Rightarrow> (instant \<times> string) list \<Rightarrow> rate_limit_outcome list" where
  "rate_run cfg hits = fst (check_all cfg hits [])"

lemma enabled_from_config: "from_config cfg = Some limiter \<longleftrightarrow> is_enabled cfg \<and> limiter = (cfg, [])"
  by (auto simp: from_config_def)

lemma empty_ok: "buckets_ok cfg t []"
  by (simp add: buckets_ok_def)

lemma run_window:
  assumes "is_enabled cfg" "sorted (map fst (before @ window))"
  shows "outcomes_of a window (drop (length before) (rate_run cfg (before @ window))) =
      fst (bucket_run cfg a (times_of a window) (map_of (snd (check_all cfg before [])) a))"
    and "\<And>b. map_of (snd (check_all cfg before [])) a = Some b \<Longrightarrow> bucket_ok cfg (last (0 # map fst before)) b"
proof -
  let ?m = "snd (check_all cfg before [])" and ?t = "last (0 # map fst before)"
  have ok: "buckets_ok cfg ?t ?m"
    using check_all_buckets [OF assms(1) empty_ok, of 0 before] assms(2) by (simp add: sorted_append)
  have "sorted (?t # map fst window)"
    using assms(2) by (cases before rule: rev_cases) (auto simp: sorted_append)
  from check_all_buckets [OF assms(1) ok this]
  show "outcomes_of a window (drop (length before) (rate_run cfg (before @ window))) =
      fst (bucket_run cfg a (times_of a window) (map_of ?m a))"
    using length_check_all [of cfg before "[]"]
    by (cases "check_all cfg before []") (auto simp: rate_run_def check_all_append split: prod.splits)
  show "\<And>b. map_of ?m a = Some b \<Longrightarrow> bucket_ok cfg ?t b"
    using buckets_ok_at [OF ok] .
qed

section \<open>What the limiter promises its callers\<close>

text \<open>
  The contract of a limiter: every state has a balance of tokens for each agent, from nothing to \<open>burst\<close>, which
  grows by at most \<open>qps\<close> for each second, and from which a check that allows a request takes one.
\<close>

locale rate_limiter =
  fixes check :: "instant \<Rightarrow> string \<Rightarrow> 'm \<Rightarrow> rate_limit_outcome \<times> 'm"
    and ok :: "instant \<Rightarrow> 'm \<Rightarrow> bool"
    and tokens :: "instant \<Rightarrow> 'm \<Rightarrow> string \<Rightarrow> rat"
    and fresh :: 'm and burst :: nat and qps :: rat
  assumes fresh_ok: "ok t m \<Longrightarrow> ok u fresh"
    and ok_later: "ok t m \<Longrightarrow> t \<le> u \<Longrightarrow> ok u m"
    and tokens_bounds: "ok t m \<Longrightarrow> 0 \<le> tokens t m a \<and> tokens t m a \<le> of_nat burst"
    and tokens_later: "ok t m \<Longrightarrow> t \<le> u \<Longrightarrow> tokens u m a \<le> tokens t m a + as_secs (u - t) * qps"
    and check_ok: "ok t m \<Longrightarrow> check t k m = (res, m') \<Longrightarrow> ok t m'"
    and check_pays: "ok t m \<Longrightarrow> check t k m = (res, m') \<Longrightarrow>
      (if res = Allowed \<and> k = a then 1 else 0) + tokens t m' a \<le> tokens t m a"
begin

text \<open>
  An account of what the agent was given since \<open>t0\<close>: what was spent and what is left is covered by the opening
  balance, the income since then, and \<open>burst\<close> for each time that the limiter was reset.
\<close>

definition covered :: "string \<Rightarrow> instant \<Rightarrow> rat \<Rightarrow> nat \<Rightarrow> instant \<Rightarrow> nat \<Rightarrow> 'm \<Rightarrow> bool" where
  "covered a t0 base resets u spent m \<longleftrightarrow> t0 \<le> u \<and> ok u m \<and>
     of_nat spent + tokens u m a \<le> base + of_nat (resets * burst) + as_secs (u - t0) * qps"

lemma covered_start: "ok t0 m \<Longrightarrow> covered a t0 (of_nat spent + of_nat burst) 0 t0 spent m"
  using tokens_bounds [of t0 m a] by (simp add: covered_def as_secs_def)

lemma covered_less:
  assumes "covered a t0 base resets u spent m" "spent' \<le> spent"
  shows "covered a t0 base resets u spent' m"
proof -
  have "(of_nat spent' :: rat) \<le> of_nat spent" using assms(2) by (rule of_nat_mono)
  with assms(1) show ?thesis by (simp add: covered_def)
qed

lemma covered_later:
  assumes "covered a t0 base resets u spent m" "u \<le> v"
  shows "covered a t0 base resets v spent m"
proof -
  have u: "t0 \<le> u" "ok u m" using assms(1) by (simp_all add: covered_def)
  have "as_secs (v - t0) * qps = as_secs (v - u) * qps + as_secs (u - t0) * qps"
    using as_secs_split [OF u(1) assms(2)] by (simp add: distrib_right)
  with assms tokens_later [OF u(2) assms(2), of a] ok_later [OF u(2) assms(2)] show ?thesis
    by (simp add: covered_def)
qed

lemma covered_check:
  assumes "covered a t0 base resets u spent m" "check u k m = (res, m')"
  shows "covered a t0 base resets u (spent + (if res = Allowed \<and> k = a then 1 else 0)) m'"
proof -
  have "ok u m" using assms(1) by (simp add: covered_def)
  from check_ok [OF this assms(2)] check_pays [OF this assms(2), of a] assms(1) show ?thesis
    by (cases "res = Allowed \<and> k = a") (auto simp: covered_def)
qed

lemma covered_reset:
  assumes "covered a t0 base resets u spent m"
  shows "covered a t0 base (Suc resets) u spent fresh"
proof -
  have "ok u m" using assms by (simp add: covered_def)
  from fresh_ok [OF this, of u] tokens_bounds [OF this, of a] tokens_bounds [OF fresh_ok [OF this, of u], of a] assms
  show ?thesis by (simp add: covered_def distrib_right)
qed

lemma covered_spent:
  assumes "covered a t0 base resets u spent m"
  shows "of_nat spent \<le> base + of_nat (resets * burst) + as_secs (u - t0) * qps"
proof -
  have "ok u m" using assms by (simp add: covered_def)
  from tokens_bounds [OF this, of a] assms show ?thesis by (simp add: covered_def)
qed

end

lemma check_rate_pays:
  assumes "is_enabled cfg" "buckets_ok cfg t m" "t \<le> now" "check_rate cfg now k m = (res, m')"
  shows "buckets_ok cfg now m' \<and>
    (if res = Allowed \<and> k = a then 1 else 0) + level cfg now (map_of m' a) \<le> level cfg now (map_of m a)"
proof -
  have ok: "\<And>b. map_of m k = Some b \<Longrightarrow> bucket_ok cfg t b" using buckets_ok_at [OF assms(2)] .
  note step = check_rate_step [OF assms(1-3), of k, unfolded assms(4)]
  obtain r b where b: "bucket_step cfg now (map_of m k) = (r, b)" by fastforce
  with step(1) have res: "res = (case r of Inr _ \<Rightarrow> Allowed | Inl secs \<Rightarrow> Denied k secs)" "m' = AList.update k b m"
    by simp_all
  note spec = bucket_step_spec [where ob = "map_of m k", OF assms(1) ok assms(3), unfolded b, simplified]
  have "level cfg now (map_of m' a) \<le> level cfg now (map_of m a) - (if res = Allowed then 1 else 0)" if "k = a"
  proof -
    have "map_of m' a = Some b" using that by (simp add: res(2) update_conv')
    moreover have "level cfg now (Some b) \<le> taken cfg now (map_of m k)"
      using spec(2,3) by (simp add: level_def as_secs_def)
    moreover have "res = Allowed \<longleftrightarrow> 1 \<le> level cfg now (map_of m k)"
      using spec(1) by (simp add: res(1))
    ultimately show ?thesis using that by (simp add: taken_def)
  qed
  moreover have "map_of m' a = map_of m a" if "k \<noteq> a" using that by (simp add: res(2) update_conv')
  ultimately show ?thesis using step(2) by (cases "k = a") auto
qed

definition enabled_ok :: "rate_limit_config \<Rightarrow> instant \<Rightarrow> buckets \<Rightarrow> bool" where
  "enabled_ok cfg t m \<longleftrightarrow> is_enabled cfg \<and> buckets_ok cfg t m"

definition tokens_left :: "rate_limit_config \<Rightarrow> instant \<Rightarrow> buckets \<Rightarrow> string \<Rightarrow> rat" where
  "tokens_left cfg t m a = level cfg t (map_of m a)"

interpretation rates: rate_limiter "check_rate cfg" "enabled_ok cfg" "tokens_left cfg" "[]" "rc_burst cfg" "rc_qps cfg" for cfg
proof unfold_locales
  fix t u :: instant and m m' :: buckets and a k res
  assume ok: "enabled_ok cfg t m"
  then have e: "is_enabled cfg" and b: "buckets_ok cfg t m" by (simp_all add: enabled_ok_def)
  have at: "bucket_ok cfg t b" if "map_of m a = Some b" for b using buckets_ok_at [OF b that] .
  show "enabled_ok cfg u []" using e by (simp add: enabled_ok_def empty_ok)
  show "0 \<le> tokens_left cfg t m a \<and> tokens_left cfg t m a \<le> of_nat (rc_burst cfg)"
    unfolding tokens_left_def using level_bounds [OF e at] by blast
  show "enabled_ok cfg t m'" if "check_rate cfg t k m = (res, m')"
    using check_rate_pays [OF e b order_refl that] e by (simp add: enabled_ok_def)
  show "(if res = Allowed \<and> k = a then 1 else 0) + tokens_left cfg t m' a \<le> tokens_left cfg t m a"
    if "check_rate cfg t k m = (res, m')"
    using check_rate_pays [OF e b order_refl that, of a] by (simp add: tokens_left_def)
  assume le: "t \<le> u"
  show "enabled_ok cfg u m" using e b le bucket_ok_mono by (fastforce simp: enabled_ok_def buckets_ok_def)
  show "tokens_left cfg u m a \<le> tokens_left cfg t m a + as_secs (u - t) * rc_qps cfg"
    unfolding tokens_left_def using at by (intro level_advance [OF e le]) (auto simp: bucket_ok_def)
qed

section \<open>Properties\<close>

text \<open>
  In every window of a history the limiter allows an agent at most \<open>burst\<close> requests plus \<open>qps\<close> for
  each second of the window, whatever other agents do and however many buckets there are.
\<close>

theorem rate_limit_budget:
  assumes "from_config cfg = Some limiter" "sorted (map fst (before @ window))"
    and "\<forall>h \<in> set window. t1 \<le> fst h \<and> fst h \<le> t2" "\<forall>h \<in> set before. fst h \<le> t1" "t1 \<le> t2"
  shows "of_nat (allowed (outcomes_of a window (drop (length before) (rate_run cfg (before @ window))))) \<le>
    of_nat (rc_burst cfg) + as_secs (t2 - t1) * rc_qps cfg"
proof -
  let ?ob = "map_of (snd (check_all cfg before [])) a"
  have e: "is_enabled cfg" using assms(1) by (simp add: enabled_from_config)
  have last: "last (0 # map fst before) \<le> t1"
    using assms(4) by (cases before rule: rev_cases) auto
  have ok: "bucket_ok cfg t1 b" if "?ob = Some b" for b
    using run_window(2) [OF e assms(2) that] last by (rule bucket_ok_mono)
  have "sorted (t1 # times_of a window)" "\<forall>x \<in> set (t1 # times_of a window). x \<le> t2"
    using assms(2,3,5) by (auto simp: times_of_def sorted_append sorted_filter)
  from bucket_run_budget [where ob = ?ob, OF e ok this]
  have "of_nat (allowed (fst (bucket_run cfg a (times_of a window) ?ob))) \<le>
      level cfg t1 ?ob + as_secs (t2 - t1) * rc_qps cfg" .
  also have "level cfg t1 ?ob \<le> of_nat (rc_burst cfg)"
    using level_bounds(2) [where ob = ?ob, OF e ok] .
  finally show ?thesis by (simp add: run_window(1) [OF e assms(2)])
qed

definition hits0 :: "(instant \<times> string) list" where
  "hits0 = [(0, ''a''), (1, ''a''), (2, ''b''), (3, ''a''), (2000000000, ''a'')]"

theorem rate_limit_budget_witness:
  "allowed (outcomes_of ''a'' hits0 (rate_run \<lparr>rc_qps = 1 / 2, rc_burst = 2\<rparr> hits0)) \<le> 3"
proof -
  have "from_config \<lparr>rc_qps = 1 / 2, rc_burst = 2\<rparr> = Some (\<lparr>rc_qps = 1 / 2, rc_burst = 2\<rparr>, [])"
    by (simp add: from_config_def is_enabled_def)
  from rate_limit_budget [OF this, of "[]" hits0 0 2000000000 "''a''"]
  have "(of_nat (allowed (outcomes_of ''a'' hits0 (rate_run \<lparr>rc_qps = 1 / 2, rc_burst = 2\<rparr> hits0))) :: rat) \<le> 3"
    by (simp add: hits0_def as_secs_def)
  then show ?thesis by simp
qed

text \<open>
  The outcomes of an agent are those of a limiter that only ever saw this agent: neither the
  traffic of other agents nor the pruning of buckets influences them.
\<close>

theorem agents_independent:
  assumes "from_config cfg = Some limiter" "sorted (map fst hits)"
  shows "outcomes_of a hits (rate_run cfg hits) = rate_run cfg (filter (\<lambda>h. snd h = a) hits)"
proof -
  let ?own = "filter (\<lambda>h. snd h = a) hits"
  have e: "is_enabled cfg" using assms(1) by (simp add: enabled_from_config)
  have "outcomes_of a ?own (rate_run cfg ?own) = rate_run cfg ?own"
  proof -
    have "filter (\<lambda>ho. snd (fst ho) = a) (zip ?own (rate_run cfg ?own)) = zip ?own (rate_run cfg ?own)"
      by (rule filter_True) (auto dest: set_zip_leftD)
    then show ?thesis by (simp add: outcomes_of_def rate_run_def)
  qed
  moreover have "outcomes_of a ?own (rate_run cfg ?own) = fst (bucket_run cfg a (times_of a ?own) None)"
    using run_window(1) [OF e, of "[]" ?own a] assms(2) by (simp add: sorted_filter)
  moreover have "outcomes_of a hits (rate_run cfg hits) = fst (bucket_run cfg a (times_of a hits) None)"
    using run_window(1) [OF e, of "[]" hits a] assms(2) by simp
  ultimately show ?thesis by (simp add: times_of_def)
qed

theorem agents_independent_witness:
  "outcomes_of ''a'' hits0 (rate_run \<lparr>rc_qps = 1 / 2, rc_burst = 2\<rparr> hits0) =
     rate_run \<lparr>rc_qps = 1 / 2, rc_burst = 2\<rparr> [(0, ''a''), (1, ''a''), (3, ''a''), (2000000000, ''a'')]"
proof -
  have "outcomes_of ''a'' hits0 (rate_run \<lparr>rc_qps = 1 / 2, rc_burst = 2\<rparr> hits0) =
      rate_run \<lparr>rc_qps = 1 / 2, rc_burst = 2\<rparr> (filter (\<lambda>h. snd h = ''a'') hits0)"
    by (rule agents_independent [where limiter = "(\<lparr>rc_qps = 1 / 2, rc_burst = 2\<rparr>, [])"])
       (simp_all add: from_config_def is_enabled_def hits0_def)
  then show ?thesis by (simp add: hits0_def)
qed

text \<open>A window that starts and ends with an agent that does not ask in between.\<close>

lemma outcomes_ends:
  assumes "a \<notin> snd ` set others" "length outs = Suc (Suc (length others))"
  shows "outcomes_of a ((t, a) # others @ [(u, a)]) outs = [hd outs, last outs]"
proof -
  from assms(2) obtain x rest where o1: "outs = x # rest" "length rest = Suc (length others)"
    by (cases outs) simp_all
  then obtain os y where o2: "rest = os @ [y]" "length os = length others"
    by (cases rest rule: rev_cases) simp_all
  have "filter (\<lambda>ho. snd (fst ho) = a) (zip others os) = []"
    using assms(1) by (force simp: filter_empty_conv dest: set_zip_leftD)
  then show ?thesis using o1(1) o2 by (simp add: outcomes_of_def)
qed

text \<open>After the advertised wait the level is back at one token, and the agent is allowed.\<close>

lemma allowed_after_wait:
  assumes e: "is_enabled cfg" and ok: "\<And>b. ob = Some b \<Longrightarrow> bucket_ok cfg t b" and le: "t \<le> now" "now \<le> later"
    and "1 \<le> rc_qps cfg * 2 ^ 63" and refused: "bucket_step cfg now ob = (Inl secs, b)"
    and wait: "now + secs * 1000000000 \<le> later"
  shows "1 \<le> secs \<and> fst (bucket_step cfg later (Some b)) = Inr ()"
proof -
  note spec = bucket_step_spec [where ob = ob, OF e ok le(1), unfolded refused, simplified]
  then have low: "level cfg now ob < 1"
    and secs: "secs = max (ceil_u64 ((1 - level cfg now ob) / rc_qps cfg)) 1"
    by (simp_all split: if_splits)
  have "0 \<le> level cfg now ob" using level_bounds(1) [where ob = ob, OF e ok] .
  from enough_wait [OF e this low assms(5)] have "1 - level cfg now ob \<le> of_nat secs * rc_qps cfg"
    by (simp add: secs)
  also have "of_nat secs * rc_qps cfg \<le> as_secs (later - now) * rc_qps cfg"
    using wait e by (intro mult_right_mono) (simp_all add: as_secs_mono is_enabled_def)
  finally have "1 \<le> taken cfg now ob + as_secs (later - now) * rc_qps cfg"
    using low by (simp add: taken_def)
  moreover have "level cfg later (Some b) =
      min (taken cfg now ob + as_secs (later - now) * rc_qps cfg) (of_nat (rc_burst cfg))"
    using level_later [where ob = ob, OF e ok le(1)] refused by simp
  moreover have "(1::rat) \<le> of_nat (rc_burst cfg)" using e by (simp add: is_enabled_def Suc_le_eq)
  ultimately have "1 \<le> level cfg later (Some b)" by simp
  then show ?thesis
    using bucket_step_spec(1) [where ob = "Some b" and t = now and now = later, OF e _ le(2)] spec(4) secs by simp
qed



text \<open>
  Pruning never removes a bucket: in every state that checks lead to, each bucket is below its
  capacity, since the test for a full bucket reads the tokens before they are refilled.
\<close>

theorem pruning_is_ineffective:
  assumes "from_config cfg = Some limiter" "sorted (map fst hits)"
  shows "maybe_prune now (snd (check_all cfg hits [])) = snd (check_all cfg hits [])"
proof -
  have e: "is_enabled cfg" using assms(1) by (simp add: enabled_from_config)
  have "buckets_ok cfg (last (0 # map fst hits)) (snd (check_all cfg hits []))"
    using check_all_buckets [OF e empty_ok, of 0 hits] assms(2) by simp
  then show ?thesis by (rule no_pruning)
qed

theorem pruning_is_ineffective_witness:
  "maybe_prune 9000000000000 (snd (check_all \<lparr>rc_qps = 1 / 2, rc_burst = 2\<rparr> hits0 [])) =
     snd (check_all \<lparr>rc_qps = 1 / 2, rc_burst = 2\<rparr> hits0 [])"
  by (rule pruning_is_ineffective [where limiter = "(\<lparr>rc_qps = 1 / 2, rc_burst = 2\<rparr>, [])"])
     (simp_all add: from_config_def is_enabled_def hits0_def)

end
