(* ===== verification/Supply_Chain.thy ===== *)
theory Supply_Chain
  imports Ledger_Tamper "HOL-Library.AList"
begin

text \<open>
  The supply-chain shield (\<open>src/supply_chain.rs\<close>): the first \<open>tools/list\<close> response of an agent is
  pinned, and every later one that differs is recorded in the ledger.
\<close>

section \<open>The model\<close>

text \<open>A catalog maps tool names to hashes of their definitions; the store maps agents to catalogs.\<close>

type_synonym catalog = "(string \<times> string) list"

type_synonym tool_pins = "string \<rightharpoonup> catalog"

text \<open>The nested function \<open>sort\<close> of \<open>canonicalize\<close>.\<close>

fun sort_json :: "json \<Rightarrow> json" where
  "sort_json (JObj m) = JObj (fold (\<lambda>(k, v). obj_insert k v) (map (\<lambda>kv. (fst kv, sort_json (snd kv))) m) [])"
| "sort_json (JArr xs) = JArr (map sort_json xs)"
| "sort_json other = other"

definition canonicalize :: "lib \<Rightarrow> json \<Rightarrow> string" where
  "canonicalize L v = print_json L (sort_json v)"

definition tool_definition :: "json \<Rightarrow> json" where
  "tool_definition tool = json_obj
     [(''description'', jopt (\<lambda>v. v) (json_get ''description'' tool)),
      (''inputSchema'', jopt (\<lambda>v. v) (json_get ''inputSchema'' tool))]"

definition tool_name :: "json \<Rightarrow> string option" where
  "tool_name tool = Option.bind (json_get ''name'' tool) as_str"

definition catalog_of_tools :: "lib \<Rightarrow> json list \<Rightarrow> catalog" where
  "catalog_of_tools L tools =
     fold (\<lambda>tool out.
       (case tool_name tool of
          None \<Rightarrow> out
        | Some name \<Rightarrow> AList.update name (sha256_hex L (canonicalize L (tool_definition tool))) out))
       tools []"

definition tools_of_body :: "lib \<Rightarrow> string \<Rightarrow> json list option" where
  "tools_of_body L body =
     Option.bind (parse_json L body) (\<lambda>parsed.
     Option.bind (json_path [''result'', ''tools''] parsed) as_array)"

definition definition_hashes :: "lib \<Rightarrow> string \<Rightarrow> catalog option" where
  "definition_hashes L body = map_option (catalog_of_tools L) (tools_of_body L body)"

text \<open>
  The iteration order of the \<open>HashMap\<close>s does not matter: the lines are sorted. \<open>quoted\<close> puts a name
  in single quotes.
\<close>

definition quoted :: "string \<Rightarrow> string" where
  "quoted name = CHR 0x27 # name @ [CHR 0x27]"

definition fresh_change :: "catalog \<Rightarrow> string \<times> string \<Rightarrow> string list" where
  "fresh_change pinned nh =
     (case map_of pinned (fst nh) of
        None \<Rightarrow> [''tool '' @ quoted (fst nh) @ '' added since pin'']
      | Some pinned_hash \<Rightarrow>
          if pinned_hash \<noteq> snd nh then [''tool '' @ quoted (fst nh) @ '' definition changed since pin'']
          else [])"

definition removed_since :: "catalog \<Rightarrow> catalog \<Rightarrow> string list" where
  "removed_since pinned newer = filter (\<lambda>name. map_of newer name = None) (map fst pinned)"

definition diff_against_pin :: "catalog \<Rightarrow> catalog \<Rightarrow> string list" where
  "diff_against_pin pinned newer =
     sort (concat (map (fresh_change pinned) newer) @
           map (\<lambda>name. ''tool '' @ quoted name @ '' removed since pin'') (removed_since pinned newer))"

definition poisoned_log :: "string \<Rightarrow> string list \<Rightarrow> log_request" where
  "poisoned_log agent_id changes =
     \<lparr>lr_agent_id = agent_id, lr_method = ''tools/list'', lr_intent_category = ''SupplyChain'',
      lr_authorized = False,
      lr_reasoning = ''tool_schema_poisoned: upstream tools/list diverged from the pinned catalog '' @
        [CHR 0xE2, CHR 0x80, CHR 0x94] @ '' '' @ join_str ''; '' changes,
      lr_policy_decision = Some (json_obj [(''signal'', JStr ''tool_schema_poisoned'')]),
      lr_correlation_id = None\<rparr>"

text \<open>A failed append is only logged, so the result has the new state alone.\<close>

definition observe_tools_list ::
    "lib \<Rightarrow> string \<Rightarrow> string \<Rightarrow> string \<Rightarrow> tool_pins \<times> conn \<Rightarrow> tool_pins \<times> conn" where
  "observe_tools_list L agent_key agent_id body s =
     (case s of (pins, c) \<Rightarrow>
        (case definition_hashes L body of
           None \<Rightarrow> (pins, c)
         | Some newer \<Rightarrow>
             (case pins agent_key of
                None \<Rightarrow> (pins(agent_key \<mapsto> newer), c)
              | Some pinned \<Rightarrow>
                  (case diff_against_pin pinned newer of
                     [] \<Rightarrow> (pins, c)
                   | changes \<Rightarrow> (pins, snd (append_ledger L (poisoned_log agent_id changes) c))))))"

section \<open>Lemmas\<close>

text \<open>What a catalog records: under every name the definition of the last tool of that name.\<close>

definition last_definition :: "json list \<Rightarrow> string \<Rightarrow> json option" where
  "last_definition tools name =
     map_option tool_definition (find (\<lambda>tool. tool_name tool = Some name) (rev tools))"

lemma map_of_catalog:
  "map_of (catalog_of_tools L tools) name =
     map_option (\<lambda>d. sha256_hex L (canonicalize L d)) (last_definition tools name)"
  by (induction tools rule: rev_induct)
     (auto simp: catalog_of_tools_def last_definition_def update_conv' split: option.splits)

lemma distinct_catalog: "distinct (map fst (catalog_of_tools L tools))"
  by (induction tools rule: rev_induct)
     (auto simp: catalog_of_tools_def distinct_update split: option.splits)

lemma fresh_change_empty: "fresh_change pinned nh = [] \<longleftrightarrow> map_of pinned (fst nh) = Some (snd nh)"
  by (auto simp: fresh_change_def split: option.splits)

lemma diff_empty_iff:
  assumes "distinct (map fst newer)"
  shows "diff_against_pin pinned newer = [] \<longleftrightarrow> map_of pinned = map_of newer"
proof -
  have "sort xs = [] \<longleftrightarrow> xs = []" for xs :: "string list"
    by (metis length_0_conv length_sort)
  then have "diff_against_pin pinned newer = [] \<longleftrightarrow>
      (\<forall>nh \<in> set newer. fresh_change pinned nh = []) \<and> removed_since pinned newer = []"
    by (simp add: diff_against_pin_def)
  also have "\<dots> \<longleftrightarrow> (\<forall>(n, h) \<in> set newer. map_of pinned n = Some h) \<and>
      (\<forall>n \<in> dom (map_of pinned). map_of newer n \<noteq> None)"
    by (auto simp: fresh_change_empty removed_since_def filter_empty_conv dom_map_of_conv_image_fst)
  also have "\<dots> \<longleftrightarrow> map_of pinned = map_of newer"
  proof
    assume a: "(\<forall>(n, h) \<in> set newer. map_of pinned n = Some h) \<and>
      (\<forall>n \<in> dom (map_of pinned). map_of newer n \<noteq> None)"
    show "map_of pinned = map_of newer"
    proof
      fix n
      show "map_of pinned n = map_of newer n"
      proof (cases "map_of newer n")
        case None
        with a have "n \<notin> dom (map_of pinned)" by blast
        with None show ?thesis by (simp add: domIff)
      next
        case (Some h)
        with a show ?thesis by (auto dest: map_of_SomeD)
      qed
    qed
  next
    assume "map_of pinned = map_of newer"
    with assms show "(\<forall>(n, h) \<in> set newer. map_of pinned n = Some h) \<and>
      (\<forall>n \<in> dom (map_of pinned). map_of newer n \<noteq> None)"
      by (auto simp: map_of_is_SomeI)
  qed
  finally show ?thesis .
qed

lemma set_diff:
  assumes "distinct (map fst newer)"
  shows "set (diff_against_pin pinned newer) =
    {''tool '' @ quoted n @ '' added since pin'' | n. map_of pinned n = None \<and> map_of newer n \<noteq> None} \<union>
    {''tool '' @ quoted n @ '' removed since pin'' | n. map_of pinned n \<noteq> None \<and> map_of newer n = None} \<union>
    {''tool '' @ quoted n @ '' definition changed since pin'' | n. map_of pinned n \<noteq> None \<and>
       map_of newer n \<noteq> None \<and> map_of pinned n \<noteq> map_of newer n}" (is "_ = ?A \<union> ?R \<union> ?C")
proof -
  have "(\<Union>nh \<in> set newer. set (fresh_change pinned nh)) = ?A \<union> ?C"
  proof (intro set_eqI iffI)
    fix x assume "x \<in> (\<Union>nh \<in> set newer. set (fresh_change pinned nh))"
    then obtain n h where m: "(n, h) \<in> set newer" and "x \<in> set (fresh_change pinned (n, h))" by auto
    moreover have "map_of newer n = Some h" using m assms by (rule map_of_is_SomeI [rotated])
    ultimately show "x \<in> ?A \<union> ?C"
      by (fastforce simp: fresh_change_def split: option.splits if_splits)
  next
    fix x assume "x \<in> ?A \<union> ?C"
    then obtain n h where m: "map_of newer n = Some h" and "x \<in> set (fresh_change pinned (n, h))"
      by (fastforce simp: fresh_change_def)
    then show "x \<in> (\<Union>nh \<in> set newer. set (fresh_change pinned nh))"
      using map_of_SomeD [OF m] by blast
  qed
  moreover have "(\<lambda>name. ''tool '' @ quoted name @ '' removed since pin'') ` set (removed_since pinned newer) = ?R"
    by (auto simp: removed_since_def map_of_eq_None_iff)
  ultimately show ?thesis by (simp add: diff_against_pin_def Un_ac)
qed

text \<open>Printing the canonical form distinguishes definitions.\<close>

lemma json_wf_fold_insert:
  "(\<forall>kv \<in> set m. json_wf (snd kv)) \<Longrightarrow> (\<forall>kv \<in> set kvs. json_wf (snd kv)) \<Longrightarrow>
   \<forall>kv \<in> set (fold (\<lambda>(k, v). obj_insert k v) kvs m). json_wf (snd kv)"
  using fold_obj_insert_subset [of kvs m] by blast

lemma json_wf_sort: "json_wf v \<Longrightarrow> json_wf (sort_json v)"
proof (induction v rule: sort_json.induct)
  case (1 m)
  then have "\<forall>kv \<in> set (map (\<lambda>kv. (fst kv, sort_json (snd kv))) m). json_wf (snd kv)" by auto
  with json_wf_fold_insert [of "[]" "map (\<lambda>kv. (fst kv, sort_json (snd kv))) m"] show ?case by simp
qed auto

lemma json_wf_get: "json_wf v \<Longrightarrow> json_get k v = Some w \<Longrightarrow> json_wf w"
  by (cases v) (fastforce dest: map_of_SomeD)+

lemma json_wf_definition: "json_wf tool \<Longrightarrow> json_wf (tool_definition tool)"
  using json_wf_fold_insert [of "[]" "[(''description'', jopt (\<lambda>v. v) (json_get ''description'' tool)),
      (''inputSchema'', jopt (\<lambda>v. v) (json_get ''inputSchema'' tool))]"]
  by (auto simp: tool_definition_def json_obj_def jopt_def dest: json_wf_get split: option.splits)

lemma tools_of_body_wf:
  assumes "print_inj L" "tools_of_body L body = Some tools" "tool \<in> set tools"
  shows "json_wf tool"
proof -
  from assms(2) obtain v r where "parse_json L body = Some v" "json_get ''result'' v = Some r"
      "json_get ''tools'' r = Some (JArr tools)"
    by (auto simp: tools_of_body_def bind_eq_Some_conv split: option.splits elim!: as_array.elims)
  moreover from this(1) assms(1) have "json_wf v" by (auto simp: print_inj_def)
  ultimately have "json_wf (JArr tools)" by (blast intro: json_wf_get)
  with assms(3) show ?thesis by simp
qed

lemma last_definition_wf:
  assumes "print_inj L" "tools_of_body L body = Some tools" "last_definition tools n = Some d"
  shows "json_wf d"
  using assms tools_of_body_wf [OF assms(1,2)] json_wf_definition
  by (auto simp: last_definition_def find_Some_iff) (metis in_set_conv_nth set_rev length_rev)

section \<open>Histories\<close>

text \<open>A history of the responses that agents received: pin key, agent and body.\<close>

fun observe_all ::
    "lib \<Rightarrow> (string \<times> string \<times> string) list \<Rightarrow> tool_pins \<times> conn \<Rightarrow> tool_pins \<times> conn" where
  "observe_all L [] s = s"
| "observe_all L ((key, agent, body) # h) s = observe_all L h (observe_tools_list L key agent body s)"

lemma observe_keeps_pin:
  "pins key = Some pin \<Longrightarrow> fst (observe_tools_list L key' agent body (pins, c)) key = Some pin"
  by (auto simp: observe_tools_list_def split: option.splits list.splits)

lemma observe_all_keeps_pin:
  "fst s key = Some pin \<Longrightarrow> fst (observe_all L h s) key = Some pin"
proof (induction L h s rule: observe_all.induct)
  case (2 L key' agent body h s)
  then show ?case using observe_keeps_pin [of "fst s" key pin L key' agent body "snd s"] by simp
qed simp

definition same_tools :: "json list \<Rightarrow> json list \<Rightarrow> bool" where
  "same_tools tools tools' \<longleftrightarrow>
     (\<forall>n. map_option sort_json (last_definition tools n) = map_option sort_json (last_definition tools' n))"

definition change_lines :: "json list \<Rightarrow> json list \<Rightarrow> string set" where
  "change_lines tools tools' =
     {''tool '' @ quoted n @ '' added since pin'' | n.
        last_definition tools n = None \<and> last_definition tools' n \<noteq> None} \<union>
     {''tool '' @ quoted n @ '' removed since pin'' | n.
        last_definition tools n \<noteq> None \<and> last_definition tools' n = None} \<union>
     {''tool '' @ quoted n @ '' definition changed since pin'' | n. \<exists>d d'.
        last_definition tools n = Some d \<and> last_definition tools' n = Some d' \<and> sort_json d \<noteq> sort_json d'}"

text \<open>The definitions of two lists have distinct hashes unless they are equal up to the order of keys.\<close>

definition definitions_of :: "json list \<Rightarrow> json set" where
  "definitions_of tools = {d. \<exists>n. last_definition tools n = Some d}"

definition no_collision :: "lib \<Rightarrow> json list \<Rightarrow> json list \<Rightarrow> bool" where
  "no_collision L tools tools' \<longleftrightarrow>
     inj_on (sha256_hex L) (canonicalize L ` (definitions_of tools \<union> definitions_of tools'))"

lemma hash_eq_iff:
  assumes "print_inj L" "no_collision L tools tools'"
    and "tools_of_body L body = Some tools" "tools_of_body L body' = Some tools'"
    and "last_definition tools n = Some d" "last_definition tools' n = Some d'"
  shows "sha256_hex L (canonicalize L d) = sha256_hex L (canonicalize L d') \<longleftrightarrow> sort_json d = sort_json d'"
proof
  assume "sha256_hex L (canonicalize L d) = sha256_hex L (canonicalize L d')"
  moreover have "d \<in> definitions_of tools" "d' \<in> definitions_of tools'"
    using assms(5,6) by (auto simp: definitions_of_def)
  ultimately have "canonicalize L d = canonicalize L d'"
    using assms(2) by (auto simp: no_collision_def dest: inj_onD)
  moreover have "json_wf (sort_json d)" "json_wf (sort_json d')"
    using assms last_definition_wf json_wf_sort by blast+
  ultimately show "sort_json d = sort_json d'"
    using assms(1) by (auto simp: canonicalize_def print_inj_def dest: inj_onD)
qed (simp add: canonicalize_def)

lemma diff_of_tools:
  assumes "print_inj L" "no_collision L tools tools'"
    and "tools_of_body L body = Some tools" "tools_of_body L body' = Some tools'"
  shows "set (diff_against_pin (catalog_of_tools L tools) (catalog_of_tools L tools')) = change_lines tools tools'"
    and "diff_against_pin (catalog_of_tools L tools) (catalog_of_tools L tools') = [] \<longleftrightarrow> same_tools tools tools'"
proof -
  note h = hash_eq_iff [OF assms]
  have c: "(map_of (catalog_of_tools L tools) n \<noteq> None \<and> map_of (catalog_of_tools L tools') n \<noteq> None \<and>
      map_of (catalog_of_tools L tools) n \<noteq> map_of (catalog_of_tools L tools') n) \<longleftrightarrow>
      (\<exists>d d'. last_definition tools n = Some d \<and> last_definition tools' n = Some d' \<and> sort_json d \<noteq> sort_json d')" for n
    using h [of n] by (auto simp: map_of_catalog)
  show "set (diff_against_pin (catalog_of_tools L tools) (catalog_of_tools L tools')) = change_lines tools tools'"
    unfolding set_diff [OF distinct_catalog] change_lines_def c by (simp add: map_of_catalog)
  have "map_of (catalog_of_tools L tools) n = map_of (catalog_of_tools L tools') n \<longleftrightarrow>
      map_option sort_json (last_definition tools n) = map_option sort_json (last_definition tools' n)" for n
    using h [of n] by (cases "last_definition tools n"; cases "last_definition tools' n") (auto simp: map_of_catalog)
  then show "diff_against_pin (catalog_of_tools L tools) (catalog_of_tools L tools') = [] \<longleftrightarrow> same_tools tools tools'"
    unfolding diff_empty_iff [OF distinct_catalog] same_tools_def by (auto simp: fun_eq_iff)
qed

section \<open>Properties\<close>

text \<open>
  C36. The first tool list an agent sees stays its pin. Whatever is observed in between, a later list
  writes nothing if its tools are defined as in the first one up to the order of keys, and otherwise
  appends one \<open>SupplyChain\<close> row that names exactly the tools that changed, appeared or disappeared.
\<close>

theorem rug_pull_recorded:
  assumes "print_inj L" "no_collision L tools tools'" "pins key = None"
    and "tools_of_body L body = Some tools" "tools_of_body L body' = Some tools'"
    and "observe_all L ((key, agent, body) # between) (pins, c) = (pins1, c1)"
    and "observe_tools_list L key agent' body' (pins1, c1) = (pins2, c2)"
  shows "pins2 = pins1 \<and>
    (if same_tools tools tools' then c2 = c1
     else \<exists>changes. set changes = change_lines tools tools' \<and> sorted changes \<and>
       c2 = snd (append_ledger L (poisoned_log agent' changes) c1))"
proof -
  have "fst (observe_tools_list L key agent body (pins, c)) key = Some (catalog_of_tools L tools)"
    using assms(3,4) by (simp add: observe_tools_list_def definition_hashes_def)
  from observe_all_keeps_pin [OF this, of L between] assms(6)
  have pin: "pins1 key = Some (catalog_of_tools L tools)" by simp
  note d = diff_of_tools [OF assms(1,2,4,5)]
  have sorted: "sorted (diff_against_pin (catalog_of_tools L tools) (catalog_of_tools L tools'))"
    by (simp add: diff_against_pin_def)
  show ?thesis
  proof (cases "diff_against_pin (catalog_of_tools L tools) (catalog_of_tools L tools')")
    case Nil
    with d(2) assms(5,7) pin show ?thesis
      by (simp add: observe_tools_list_def definition_hashes_def)
  next
    case (Cons x xs)
    with assms(5,7) pin have r: "pins2 = pins1" "c2 = snd (append_ledger L (poisoned_log agent' (x # xs)) c1)"
      by (simp_all add: observe_tools_list_def definition_hashes_def)
    have "\<not> same_tools tools tools'" using d(2) Cons by simp
    moreover have "set (x # xs) = change_lines tools tools'" "sorted (x # xs)"
      using d(1) sorted unfolding Cons by blast+
    ultimately show ?thesis using r by (metis (full_types))
  qed
qed

text \<open>A later list with a new parameter is recorded; the first list itself never is.\<close>

definition tool_list :: "json \<Rightarrow> json" where
  "tool_list schema = JObj [(''result'', JObj [(''tools'', JArr
     [JObj [(''inputSchema'', schema), (''name'', JStr ''read'')]])])]"

definition lib_tools :: lib where
  "lib_tools = sample_lib [(''one'', tool_list (JStr ''path'')), (''two'', tool_list (JStr ''all''))] [] no_rules"

lemma hex_byte_inj: "hex_byte c = hex_byte d \<Longrightarrow> c = d"
proof -
  have inj: "m = n" if "m < 16" "n < 16" "hex_digit m = hex_digit n" for m n
  proof -
    have "distinct ''0123456789abcdef''" by simp
    with that show ?thesis by (simp add: hex_digit_def nth_eq_iff_index_eq del: distinct.simps)
  qed
  assume "hex_byte c = hex_byte d"
  moreover have "(of_char x :: nat) div 16 < 16" for x
    using nat_of_char_less_256 [of x] by (simp add: div_less_iff_less_mult)
  ultimately have "(of_char c :: nat) div 16 = of_char d div 16" "(of_char c :: nat) mod 16 = of_char d mod 16"
    by (auto simp: hex_byte_def intro: inj)
  then have "(of_char c :: nat) = of_char d" by (metis div_mult_mod_eq)
  then show "c = d" by simp
qed

lemma sample_sha_inj: "inj (sha256_hex (sample_lib bodies urls rules))"
proof (rule injI)
  fix s t
  assume "sha256_hex (sample_lib bodies urls rules) s = sha256_hex (sample_lib bodies urls rules) t"
  then have "concat (map hex_byte s) = concat (map hex_byte t)" by (simp add: sample_lib_def)
  then show "s = t"
  proof (induction s arbitrary: t)
    case Nil
    then show ?case by (cases t) (simp_all add: hex_byte_def)
  next
    case (Cons c s)
    then obtain d t' where t: "t = d # t'" by (cases t) (simp_all add: hex_byte_def)
    moreover have "length (hex_byte c) = length (hex_byte d)" by (simp add: hex_byte_def)
    ultimately have "hex_byte c = hex_byte d" "concat (map hex_byte s) = concat (map hex_byte t')"
      using Cons.prems by simp_all
    with Cons.IH t hex_byte_inj show ?case by blast
  qed
qed

theorem rug_pull_recorded_witness:
  "\<exists>changes. set changes = {''tool '' @ quoted ''read'' @ '' definition changed since pin''} \<and>
     snd (observe_tools_list lib_tools ''t/a'' ''a'' ''two''
       (observe_all lib_tools [(''t/a'', ''a'', ''one'')] (Map.empty, conn0))) =
     snd (append_ledger lib_tools (poisoned_log ''a'' changes) conn0)"
proof -
  let ?tools = "\<lambda>schema. [JObj [(''inputSchema'', schema), (''name'', JStr ''read'')]]"
  have p: "print_inj lib_tools"
    unfolding lib_tools_def by (rule sample_print_inj) (simp add: tool_list_def)
  have n: "no_collision lib_tools (?tools (JStr ''path'')) (?tools (JStr ''all''))"
    unfolding no_collision_def lib_tools_def by (rule inj_on_subset [OF sample_sha_inj]) simp
  have b: "tools_of_body lib_tools ''one'' = Some (?tools (JStr ''path''))"
    "tools_of_body lib_tools ''two'' = Some (?tools (JStr ''all''))"
    by (simp_all add: tools_of_body_def lib_tools_def sample_lib_def sample_parse_def tool_list_def)
  have l: "last_definition (?tools schema) n =
      (if n = ''read'' then Some (tool_definition (JObj [(''inputSchema'', schema), (''name'', JStr ''read'')])) else None)" for schema n
    by (simp add: last_definition_def tool_name_def)
  have d: "sort_json (tool_definition (JObj [(''inputSchema'', JStr ''path''), (''name'', JStr ''read'')])) \<noteq>
      sort_json (tool_definition (JObj [(''inputSchema'', JStr ''all''), (''name'', JStr ''read'')]))"
    by (simp add: tool_definition_def json_obj_def jopt_def)
  obtain pins1 where one: "observe_all lib_tools [(''t/a'', ''a'', ''one'')] (Map.empty, conn0) = (pins1, conn0)"
    by (cases "definition_hashes lib_tools ''one''") (simp_all add: observe_tools_list_def)
  obtain pins2 c2 where two: "observe_tools_list lib_tools ''t/a'' ''a'' ''two'' (pins1, conn0) = (pins2, c2)"
    by fastforce
  have k: "(Map.empty :: tool_pins) ''t/a'' = None" by simp
  have "\<not> same_tools (?tools (JStr ''path'')) (?tools (JStr ''all''))"
    using d by (auto simp: same_tools_def l)
  moreover have "change_lines (?tools (JStr ''path'')) (?tools (JStr ''all'')) =
      {''tool '' @ quoted ''read'' @ '' definition changed since pin''}"
    using d by (simp add: change_lines_def l)
  ultimately show ?thesis
    using rug_pull_recorded [OF p n k b one two] unfolding one two by auto
qed

end
