(* ===== verification/Http.thy ===== *)
theory Http
  imports Platform
begin

text \<open>
  The HTTP vocabulary that the proxy and its outbound clients share: header values, status codes, and
  what the network answers to a request.
\<close>

text \<open>\<open>Result::map_err\<close>.\<close>

fun map_error :: "('e \<Rightarrow> 'f) \<Rightarrow> ('e, 'a) result \<Rightarrow> ('f, 'a) result" where
  "map_error f (Inl e) = Inl (f e)"
| "map_error f (Inr x) = Inr x"

lemma map_error_Inr [simp]: "map_error f r = Inr x \<longleftrightarrow> r = Inr x"
  by (cases r) auto

text \<open>A header value is text, or bytes on which \<open>HeaderValue::to_str\<close> fails. Names are in lower case.\<close>

datatype header_value = Text string | Opaque

type_synonym headers = "(string \<times> header_value) list"

text \<open>\<open>HeaderMap::get(name)\<close>: the first value; \<open>.and_then(|v| v.to_str().ok())\<close> on top.\<close>

definition header :: "string \<Rightarrow> headers \<Rightarrow> header_value option" where
  "header name hs = map_of hs name"

fun to_str :: "header_value \<Rightarrow> string option" where
  "to_str (Text s) = Some s"
| "to_str Opaque = None"

definition header_text :: "string \<Rightarrow> headers \<Rightarrow> string option" where
  "header_text name hs = Option.bind (header name hs) to_str"

text \<open>
  What the network does with a request: fail before a response, or deliver a status, headers and a
  sequence of body chunks, at whose end reading may fail.
\<close>

record reply =
  rp_status :: nat
  rp_headers :: headers
  rp_chunks :: "string list"
  rp_read_fails :: bool

definition is_success :: "nat \<Rightarrow> bool" where
  "is_success status \<longleftrightarrow> 200 \<le> status \<and> status < 300"

end
