(* ===== verification/Upstream_Adapter.thy ===== *)
theory Upstream_Adapter
  imports Http Sample
begin

text \<open>
  The wire adapters towards the upstream (\<open>src/upstream_adapter.rs\<close>): validation of the request, the
  bounded read of the response, and the check of the JSON-RPC exchange.
\<close>

section \<open>The model\<close>

definition REQUEST_BODY_BYTES :: nat where
  "REQUEST_BODY_BYTES = 1048576"

definition RESPONSE_BODY_BYTES :: nat where
  "RESPONSE_BODY_BYTES = 1048576"

datatype upstream_adapter = RawJson | McpJsonRpcV1

definition adapter_from_str :: "string \<Rightarrow> upstream_adapter option" where
  "adapter_from_str value =
     (let v = to_ascii_lowercase (trim value) in
      if v = ''raw-json'' then Some RawJson
      else if v = ''mcp-jsonrpc-v1'' then Some McpJsonRpcV1
      else None)"

fun adapter_to_string :: "upstream_adapter \<Rightarrow> string" where
  "adapter_to_string RawJson = ''raw-json''"
| "adapter_to_string McpJsonRpcV1 = ''mcp-jsonrpc-v1''"

record forwarded_response =
  fr_status :: nat
  fr_content_type :: "string option"
  fr_body :: string

datatype adapter_error =
    RequestTooLarge
  | RequestNotJson
  | RequestVersion
  | RequestMethod
  | RequestId
  | SendFailed
  | ReadFailed
  | ResponseTooLarge
  | ResponseType
  | ResponseNotJson
  | ResponseVersion
  | ResponseId
  | ResponseShape

definition validate_request ::
    "lib \<Rightarrow> upstream_adapter \<Rightarrow> string \<Rightarrow> (adapter_error, json option) result" where
  "validate_request L adapter body =
     (if REQUEST_BODY_BYTES < length body then Inl RequestTooLarge
      else if adapter = RawJson then Inr None
      else
        and_then (ok_or RequestNotJson (parse_json L body)) (\<lambda>request.
        and_then (ensure (json_get ''jsonrpc'' request = Some (JStr ''2.0'')) RequestVersion) (\<lambda>_.
        and_then (ok_or RequestMethod
            (case Option.bind (json_get ''method'' request) as_str of
               Some method \<Rightarrow> if method \<noteq> [] then Some method else None
             | None \<Rightarrow> None)) (\<lambda>method.
        let request_id = json_get ''id'' request in
        if \<not> prefix ''notifications/'' method \<and> (request_id = None \<or> request_id = Some JNull)
        then Inl RequestId else Inr request_id))))"

text \<open>The chunk loop.\<close>

fun read_body :: "string \<Rightarrow> string list \<Rightarrow> bool \<Rightarrow> (adapter_error, string) result" where
  "read_body bytes [] fails = (if fails then Inl ReadFailed else Inr bytes)"
| "read_body bytes (chunk # chunks) fails =
     (if RESPONSE_BODY_BYTES < length bytes + length chunk then Inl ResponseTooLarge
      else read_body (bytes @ chunk) chunks fails)"

definition is_json_type :: "string option \<Rightarrow> bool" where
  "is_json_type content_type =
     (case content_type of
        None \<Rightarrow> False
      | Some value \<Rightarrow> to_ascii_lowercase (trim (hd (split_on (CHR 0x3B) value))) = ''application/json'')"

definition validate_mcp_response ::
    "lib \<Rightarrow> nat \<Rightarrow> string option \<Rightarrow> string \<Rightarrow> json option \<Rightarrow> (adapter_error, unit) result" where
  "validate_mcp_response L status content_type body request_id =
     (if request_id = None \<and> status = 204 \<and> body = [] then Inr ()
      else
        and_then (ensure (is_json_type content_type) ResponseType) (\<lambda>_.
        and_then (ok_or ResponseNotJson (parse_json L body)) (\<lambda>response.
        and_then (ensure (json_get ''jsonrpc'' response = Some (JStr ''2.0'')) ResponseVersion) (\<lambda>_.
        and_then (ensure (json_get ''id'' response = request_id) ResponseId) (\<lambda>_.
        let result = (json_get ''result'' response \<noteq> None);
            error = (json_get ''error'' response \<noteq> None)
        in ensure (result \<noteq> error) ResponseShape)))))"

text \<open>The request that goes out; \<open>network\<close> is what the environment answers to it.\<close>

record upstream_request =
  ur_url :: string
  ur_bearer :: "string option"
  ur_body :: string

type_synonym network = "upstream_request \<Rightarrow> reply option"

definition receive ::
    "lib \<Rightarrow> upstream_adapter \<Rightarrow> json option \<Rightarrow> reply option \<Rightarrow> (adapter_error, forwarded_response) result" where
  "receive L adapter request_id answer =
     and_then (ok_or SendFailed answer) (\<lambda>response.
     let status = rp_status response;
         content_type = header_text ''content-type'' (rp_headers response)
     in and_then (read_body [] (rp_chunks response) (rp_read_fails response)) (\<lambda>body.
        and_then (if adapter = McpJsonRpcV1
                  then validate_mcp_response L status content_type body request_id else Inr ()) (\<lambda>_.
          Inr \<lparr>fr_status = status, fr_content_type = content_type, fr_body = body\<rparr>)))"

text \<open>\<open>forward\<close> returns the request it sent, if it sent one, and its result.\<close>

definition forward ::
    "lib \<Rightarrow> upstream_adapter \<Rightarrow> network \<Rightarrow> string \<Rightarrow> string option \<Rightarrow> string \<Rightarrow>
     upstream_request option \<times> (adapter_error, forwarded_response) result" where
  "forward L adapter net upstream_url upstream_api_key body =
     (case validate_request L adapter body of
        Inl e \<Rightarrow> (None, Inl e)
      | Inr request_id \<Rightarrow>
          let request = \<lparr>ur_url = upstream_url, ur_bearer = upstream_api_key, ur_body = body\<rparr>
          in (Some request, receive L adapter request_id (net request)))"

section \<open>Lemmas\<close>

lemma adapter_round_trip: "adapter_from_str (adapter_to_string a) = Some a"
proof -
  have "adapter_from_str (adapter_to_string RawJson) = Some RawJson"
    "adapter_from_str (adapter_to_string McpJsonRpcV1) = Some McpJsonRpcV1" by code_simp+
  then show ?thesis by (metis upstream_adapter.exhaust)
qed

lemma read_body_Inr:
  "read_body bytes chunks fails = Inr body \<Longrightarrow> length bytes \<le> RESPONSE_BODY_BYTES \<Longrightarrow>
   body = bytes @ concat chunks \<and> \<not> fails \<and> length body \<le> RESPONSE_BODY_BYTES"
  by (induction bytes chunks fails rule: read_body.induct) (auto split: if_splits)

lemma read_body_total:
  "length (bytes @ concat chunks) \<le> RESPONSE_BODY_BYTES \<Longrightarrow>
   read_body bytes chunks False = Inr (bytes @ concat chunks)"
  by (induction chunks arbitrary: bytes) auto

definition json_rpc_request :: "lib \<Rightarrow> string \<Rightarrow> json option \<Rightarrow> bool" where
  "json_rpc_request L body request_id \<longleftrightarrow>
     (\<exists>v method. parse_json L body = Some v \<and> json_get ''jsonrpc'' v = Some (JStr ''2.0'') \<and>
        json_get ''method'' v = Some (JStr method) \<and> method \<noteq> [] \<and> json_get ''id'' v = request_id \<and>
        (prefix ''notifications/'' method \<or> (\<exists>i. request_id = Some i \<and> i \<noteq> JNull)))"

definition json_rpc_answer :: "lib \<Rightarrow> json option \<Rightarrow> forwarded_response \<Rightarrow> bool" where
  "json_rpc_answer L request_id resp \<longleftrightarrow>
     request_id = None \<and> fr_status resp = 204 \<and> fr_body resp = [] \<or>
     (\<exists>v. parse_json L (fr_body resp) = Some v \<and> json_get ''jsonrpc'' v = Some (JStr ''2.0'') \<and>
        json_get ''id'' v = request_id \<and> (json_get ''result'' v = None) \<noteq> (json_get ''error'' v = None))"

lemma as_str_Some [simp]: "as_str v = Some s \<longleftrightarrow> v = JStr s"
  by (cases v) auto

lemma validate_request_Inr:
  "validate_request L adapter body = Inr request_id \<longleftrightarrow> length body \<le> REQUEST_BODY_BYTES \<and>
     (case adapter of RawJson \<Rightarrow> request_id = None | McpJsonRpcV1 \<Rightarrow> json_rpc_request L body request_id)"
proof (cases adapter)
  case RawJson
  then show ?thesis by (auto simp: validate_request_def)
next
  case McpJsonRpcV1
  have s: "(case x of Some method \<Rightarrow> if method \<noteq> [] then Some method else None | None \<Rightarrow> None) = Some m \<longleftrightarrow>
      x = Some m \<and> m \<noteq> []" for x :: "string option" and m
    by (auto split: option.splits)
  show ?thesis
    by (auto simp: validate_request_def McpJsonRpcV1 s json_rpc_request_def bind_eq_Some_conv Let_def split: if_splits)
qed

section \<open>Properties\<close>

text \<open>
  Both directions are bounded: a request over 1 MiB, or under the MCP adapter one that is not a
  JSON-RPC request, is never sent; what is sent has the caller's body unchanged; what is returned is
  the complete body of the response and at most 1 MiB.
\<close>

theorem forward_bounded:
  assumes "forward L adapter net url key body = (sent, res)"
  shows "(sent = None \<longleftrightarrow> \<not> (length body \<le> REQUEST_BODY_BYTES \<and>
      (adapter = McpJsonRpcV1 \<longrightarrow> (\<exists>i. json_rpc_request L body i)))) \<and>
    (\<forall>r. sent = Some r \<longrightarrow> r = \<lparr>ur_url = url, ur_bearer = key, ur_body = body\<rparr>) \<and>
    (\<forall>resp. res = Inr resp \<longrightarrow> length (fr_body resp) \<le> RESPONSE_BODY_BYTES \<and>
      (\<exists>request answer. sent = Some request \<and> net request = Some answer \<and>
        fr_status resp = rp_status answer \<and> fr_body resp = concat (rp_chunks answer) \<and> \<not> rp_read_fails answer))"
proof (cases "validate_request L adapter body")
  case (Inl e)
  then have "\<not> (\<exists>i. validate_request L adapter body = Inr i)" by simp
  then show ?thesis
    using Inl assms unfolding validate_request_Inr by (cases adapter) (auto simp: forward_def)
next
  case (Inr request_id)
  let ?request = "\<lparr>ur_url = url, ur_bearer = key, ur_body = body\<rparr>"
  from Inr assms have sent: "sent = Some ?request" and res: "res = receive L adapter request_id (net ?request)"
    by (simp_all add: forward_def Let_def)
  have "length (fr_body resp) \<le> RESPONSE_BODY_BYTES \<and> (\<exists>answer. net ?request = Some answer \<and>
        fr_status resp = rp_status answer \<and> fr_body resp = concat (rp_chunks answer) \<and> \<not> rp_read_fails answer)"
    if "res = Inr resp" for resp
    using that read_body_Inr [of "[]"] unfolding res receive_def by (fastforce simp: Let_def)
  with Inr sent show ?thesis
    unfolding validate_request_Inr by (cases adapter) auto
qed

definition rpc :: "string \<Rightarrow> json" where
  "rpc member = JObj [(''id'', JNum (Integral 7)), (''jsonrpc'', JStr ''2.0''), (''method'', JStr ''ping''), (member, JBool True)]"

definition lib_rpc :: lib where
  "lib_rpc = sample_lib [(''ask'', rpc ''params''), (''answer'', rpc ''result'')] [] no_rules"

definition net_rpc :: network where
  "net_rpc request = Some \<lparr>rp_status = 200, rp_headers = [(''content-type'', Text ''application/json'')],
     rp_chunks = [''ans'', ''wer''], rp_read_fails = False\<rparr>"

lemma rpc_runs:
  "forward lib_rpc McpJsonRpcV1 net_rpc ''u'' None ''ask'' =
     (Some \<lparr>ur_url = ''u'', ur_bearer = None, ur_body = ''ask''\<rparr>,
      Inr \<lparr>fr_status = 200, fr_content_type = Some ''application/json'', fr_body = ''answer''\<rparr>)"
proof -
  have "is_json_type (Some ''application/json'')" by code_simp
  then show ?thesis
    by (simp add: forward_def validate_request_def REQUEST_BODY_BYTES_def RESPONSE_BODY_BYTES_def lib_rpc_def
        sample_lib_def sample_parse_def rpc_def receive_def net_rpc_def header_text_def header_def
        validate_mcp_response_def Let_def ok_or_def ensure_def)
qed

theorem forward_bounded_witness:
  "length (fr_body \<lparr>fr_status = 200, fr_content_type = Some ''application/json'', fr_body = ''answer''\<rparr>)
     \<le> RESPONSE_BODY_BYTES \<and> (\<exists>i. json_rpc_request lib_rpc ''ask'' i)"
  using forward_bounded [OF rpc_runs] by auto

text \<open>
  C39. Under the MCP adapter a response reaches the caller only if the exchange is one of JSON-RPC: the
  request has a method and, unless it is a notification, an id that is not null; the response carries
  exactly that id and exactly one of result and error, or is the empty answer to a request without id.
\<close>

theorem mcp_exchange_matches:
  assumes "forward L McpJsonRpcV1 net url key body = (sent, Inr resp)"
  shows "\<exists>request_id. json_rpc_request L body request_id \<and> json_rpc_answer L request_id resp"
proof -
  from assms obtain request_id request where v: "validate_request L McpJsonRpcV1 body = Inr request_id"
      "receive L McpJsonRpcV1 request_id (net request) = Inr resp"
    by (auto simp: forward_def Let_def split: sum.splits)
  from v(1) have "json_rpc_request L body request_id" by (simp add: validate_request_Inr)
  moreover from v(2) have "validate_mcp_response L (fr_status resp) (fr_content_type resp) (fr_body resp) request_id = Inr ()"
    by (auto simp: receive_def Let_def)
  then have "json_rpc_answer L request_id resp"
    by (auto simp: validate_mcp_response_def json_rpc_answer_def Let_def split: if_splits)
  ultimately show ?thesis by blast
qed

theorem mcp_exchange_matches_witness:
  "\<exists>request_id. json_rpc_request lib_rpc ''ask'' request_id \<and> json_rpc_answer lib_rpc request_id
     \<lparr>fr_status = 200, fr_content_type = Some ''application/json'', fr_body = ''answer''\<rparr>"
  by (rule mcp_exchange_matches [OF rpc_runs])

end
