(* ===== verification/Target_Validation.thy ===== *)
theory Target_Validation
  imports Sample
begin

text \<open>
  Validation of outbound targets (\<open>src/target_validation.rs\<close>): normalisation of URLs, allowlist
  matching and the test for public addresses. URL parsing and printing are third-party functions of \<open>lib\<close>.
\<close>

unbundle bit_operations_syntax

section \<open>Addresses\<close>

definition is_public_ipv4 :: "nat list \<Rightarrow> bool" where
  "is_public_ipv4 octets =
     (let a = octets ! 0; b = octets ! 1; c = octets ! 2 in
      \<not> (a = 0 \<or> a = 10 \<or> a = 127 \<or> (a = 100 \<and> 64 \<le> b \<and> b \<le> 127) \<or> (a = 169 \<and> b = 254) \<or>
         (a = 172 \<and> 16 \<le> b \<and> b \<le> 31) \<or> (a = 192 \<and> b = 0 \<and> c = 0) \<or> (a = 192 \<and> b = 0 \<and> c = 2) \<or>
         (a = 192 \<and> b = 88 \<and> c = 99) \<or> (a = 192 \<and> b = 168) \<or> (a = 198 \<and> (b = 18 \<or> b = 19)) \<or>
         (a = 198 \<and> b = 51 \<and> c = 100) \<or> (a = 203 \<and> b = 0 \<and> c = 113) \<or> 224 \<le> a))"

text \<open>\<open>Ipv6Addr::to_ipv4_mapped\<close>.\<close>

definition to_ipv4_mapped :: "nat list \<Rightarrow> nat list option" where
  "to_ipv4_mapped segments =
     (if take 6 segments = [0, 0, 0, 0, 0, 0xffff]
      then Some [segments ! 6 div 256, segments ! 6 mod 256, segments ! 7 div 256, segments ! 7 mod 256]
      else None)"

definition is_public_ipv6 :: "nat list \<Rightarrow> bool" where
  "is_public_ipv6 segments =
     (case to_ipv4_mapped segments of
        Some mapped \<Rightarrow> is_public_ipv4 mapped
      | None \<Rightarrow>
          (let first = segments ! 0;
               ipv4_compatible = (take 6 segments = [0, 0, 0, 0, 0, 0]);
               global_unicast = (first AND 0xe000 = 0x2000);
               documentation = (first = 0x2001 \<and> segments ! 1 = 0x0db8);
               benchmarking = (first = 0x2001 \<and> segments ! 1 = 0x0002);
               teredo = (first = 0x2001 \<and> segments ! 1 = 0);
               orchid = (first = 0x2001 \<and> segments ! 1 AND 0xffe0 = 0x0020);
               is_unspecified = (segments = [0, 0, 0, 0, 0, 0, 0, 0]);
               is_loopback = (segments = [0, 0, 0, 0, 0, 0, 0, 1]);
               is_multicast = (first AND 0xff00 = 0xff00)
           in global_unicast \<and> \<not> is_unspecified \<and> \<not> is_loopback \<and> \<not> is_multicast \<and>
              \<not> ipv4_compatible \<and> \<not> documentation \<and> \<not> benchmarking \<and> \<not> teredo \<and> \<not> orchid))"

fun is_public_ip :: "ip_addr \<Rightarrow> bool" where
  "is_public_ip (V4 octets) = is_public_ipv4 octets"
| "is_public_ip (V6 segments) = is_public_ipv6 segments"

section \<open>Targets\<close>

datatype target_error =
    EmptyAllowlist
  | OutsideAllowlist
  | InvalidPercentEncoding
  | InvalidUrl
  | SchemeNotAllowed
  | CredentialsForbidden
  | FragmentForbidden
  | QueryInAllowlist
  | HostRequired
  | LocalHost
  | NonPublicIpv4
  | NonPublicIpv6
  | PortRequired
  | InvalidNormalizedHost

record target =
  nt_scheme :: string
  nt_host :: string
  nt_port :: nat
  nt_path :: string
  nt_canonical :: string

fun validate_percent_encoding :: "string \<Rightarrow> (target_error, unit) result" where
  "validate_percent_encoding [] = Inr ()"
| "validate_percent_encoding (c # s) =
     (if c = CHR 0x25 then
        (case s of
           a # b # rest \<Rightarrow>
             if is_ascii_hexdigit a \<and> is_ascii_hexdigit b then validate_percent_encoding rest
             else Inl InvalidPercentEncoding
         | _ \<Rightarrow> Inl InvalidPercentEncoding)
      else validate_percent_encoding s)"

fun normalize_host :: "lib \<Rightarrow> host \<Rightarrow> (target_error, string) result" where
  "normalize_host L (Domain domain) =
     (let normalized = to_ascii_lowercase (trim_end_char (CHR ''.'') domain) in
      if normalized = [] \<or> CHR ''.'' \<notin> set normalized \<or> normalized = ''localhost'' \<or>
         suffix ''.localhost'' normalized \<or> suffix ''.local'' normalized \<or>
         suffix ''.internal'' normalized \<or> suffix ''.home.arpa'' normalized
      then Inl LocalHost
      else Inr normalized)"
| "normalize_host L (Ip (V4 address)) =
     (if is_public_ipv4 address then Inr (show_ip L (V4 address)) else Inl NonPublicIpv4)"
| "normalize_host L (Ip (V6 address)) =
     (if is_public_ipv6 address then Inr (show_ip L (V6 address)) else Inl NonPublicIpv6)"

definition normalize_path :: "string \<Rightarrow> string" where
  "normalize_path path = (if path = ''/'' then ''/'' else trim_end_char (CHR ''/'') path)"

definition path_matches :: "string \<Rightarrow> string \<Rightarrow> bool" where
  "path_matches allowed requested \<longleftrightarrow>
     allowed = ''/'' \<or> requested = allowed \<or>
     (case strip_prefix allowed requested of None \<Rightarrow> False | Some rest \<Rightarrow> prefix ''/'' rest)"

definition normalize :: "lib \<Rightarrow> string \<Rightarrow> bool \<Rightarrow> (target_error, target) result" where
  "normalize L raw allowlist_entry =
     and_then (validate_percent_encoding raw) (\<lambda>_.
     and_then (ok_or InvalidUrl (parse_url L raw)) (\<lambda>url.
     let scheme = to_ascii_lowercase (u_scheme url) in
     and_then (ensure (scheme = ''http'' \<or> scheme = ''https'') SchemeNotAllowed) (\<lambda>_.
     and_then (ensure (u_username url = [] \<and> u_password url = None) CredentialsForbidden) (\<lambda>_.
     and_then (ensure (u_fragment url = None) FragmentForbidden) (\<lambda>_.
     and_then (ensure (\<not> (allowlist_entry \<and> u_query url \<noteq> None)) QueryInAllowlist) (\<lambda>_.
     and_then (ok_or HostRequired (u_host url)) (\<lambda>raw_host.
     and_then (normalize_host L raw_host) (\<lambda>host.
     and_then (ok_or PortRequired (port_or_default L url)) (\<lambda>port.
     let path = normalize_path (u_path url) in
     and_then (ok_or InvalidNormalizedHost (set_host L url host)) (\<lambda>url.
     let url = (if allowlist_entry then set_path L url path else url) in
     Inr \<lparr>nt_scheme = scheme, nt_host = host, nt_port = port, nt_path = path,
          nt_canonical = show_url L url\<rparr>))))))))))"

definition parse_allowlist :: "lib \<Rightarrow> string list \<Rightarrow> (target_error, target list) result" where
  "parse_allowlist L entries = collect_results (\<lambda>entry. normalize L entry True) entries"

definition normalize_allowlist_strings :: "lib \<Rightarrow> string list \<Rightarrow> (target_error, string list) result" where
  "normalize_allowlist_strings L entries = map_result (map nt_canonical) (parse_allowlist L entries)"

definition target_allowed :: "target \<Rightarrow> target \<Rightarrow> bool" where
  "target_allowed requested allowed \<longleftrightarrow>
     nt_scheme allowed = nt_scheme requested \<and> nt_host allowed = nt_host requested \<and>
     nt_port allowed = nt_port requested \<and> path_matches (nt_path allowed) (nt_path requested)"

definition validate_target :: "lib \<Rightarrow> string \<Rightarrow> string list \<Rightarrow> (target_error, string) result" where
  "validate_target L raw entries =
     and_then (parse_allowlist L entries) (\<lambda>allowlist.
     and_then (ensure (allowlist \<noteq> []) EmptyAllowlist) (\<lambda>_.
     and_then (normalize L raw False) (\<lambda>normalized.
     and_then (ensure (\<exists>allowed \<in> set allowlist. target_allowed normalized allowed) OutsideAllowlist) (\<lambda>_.
       Inr (nt_canonical normalized)))))"

section \<open>The embedded contract\<close>

text \<open>The texts of the fixture and of the schema are arguments; indexing a missing member gives null.\<close>

definition json_index :: "string \<Rightarrow> json \<Rightarrow> json" where
  "json_index k v = (case json_get k v of None \<Rightarrow> JNull | Some w \<Rightarrow> w)"

datatype contract_error = FixtureUnreadable | SchemaUnreadable | Weakened

definition check_contract ::
    "lib \<Rightarrow> string \<Rightarrow> string \<Rightarrow> string \<Rightarrow> (string list \<times> json) list \<Rightarrow> (contract_error, unit) result" where
  "check_contract L fixture schema name required =
     and_then (ok_or FixtureUnreadable (parse_json L fixture)) (\<lambda>f.
     and_then (ok_or SchemaUnreadable (parse_json L schema)) (\<lambda>_.
     ensure (json_index ''contract'' f = JStr name \<and>
       (\<forall>pv \<in> set required. json_path (fst pv) f = Some (snd pv))) Weakened))"

definition validate_target_contract :: "lib \<Rightarrow> string \<Rightarrow> string \<Rightarrow> (contract_error, unit) result" where
  "validate_target_contract L fixture schema = check_contract L fixture schema
     ''clavenar.rooted-path-target-validation/v1''
     [([''targets'', ''credentialsAllowed''], JBool False),
      ([''targets'', ''fragmentsAllowed''], JBool False),
      ([''targets'', ''redirects''], JStr ''disabled'')]"

definition validate_resolution_contract :: "lib \<Rightarrow> string \<Rightarrow> string \<Rightarrow> (contract_error, unit) result" where
  "validate_resolution_contract L fixture schema = check_contract L fixture schema
     ''clavenar.outbound-resolution-pinning/v1''
     [([''resolution'', ''rejectWholeSetOnAnyNonPublicAnswer''], JBool True),
      ([''resolution'', ''pinSelectedAddress''], JBool True),
      ([''resolution'', ''applicationClientReresolution''], JBool False),
      ([''redirects'', ''mode''], JStr ''manual''),
      ([''redirects'', ''maximumHops''], JNum (Integral 5)),
      ([''redirects'', ''validateAndRepinEveryHop''], JBool True)]"

definition validate_hosted_contract :: "lib \<Rightarrow> string \<Rightarrow> string \<Rightarrow> (contract_error, unit) result" where
  "validate_hosted_contract L fixture schema = check_contract L fixture schema
     ''clavenar.hosted-lite-safety/v1''
     [([''authentication'', ''anonymousMcp''], JBool False),
      ([''authentication'', ''agentOperatorOverlap''], JStr ''reject-constant-time''),
      ([''posture'', ''mode''], JStr ''enforce''),
      ([''rateLimit'', ''required''], JBool True),
      ([''durability'', ''scaleToZero''], JBool False),
      ([''adapter'', ''identifier''], JStr ''mcp-jsonrpc-v1''),
      ([''adapter'', ''responseId''], JStr ''exact-request-id'')]"

section \<open>Public addresses as address blocks\<close>

text \<open>
  The reference: addresses as numbers, and the blocks of the special-purpose registries that are not
  public, as network and prefix length.
\<close>

definition number :: "nat \<Rightarrow> nat list \<Rightarrow> nat" where
  "number base ds = foldl (\<lambda>x d. x * base + d) 0 ds"

definition in_block :: "nat \<Rightarrow> nat \<Rightarrow> nat \<times> nat \<Rightarrow> bool" where
  "in_block bits x blk \<longleftrightarrow> x div 2 ^ (bits - snd blk) = fst blk div 2 ^ (bits - snd blk)"

definition special_v4 :: "(nat \<times> nat) list" where
  "special_v4 = map (\<lambda>(ds, len). (number 256 ds, len))
     [([0, 0, 0, 0], 8), ([10, 0, 0, 0], 8), ([127, 0, 0, 0], 8), ([100, 64, 0, 0], 10),
      ([169, 254, 0, 0], 16), ([172, 16, 0, 0], 12), ([192, 0, 0, 0], 24), ([192, 0, 2, 0], 24),
      ([192, 88, 99, 0], 24), ([192, 168, 0, 0], 16), ([198, 18, 0, 0], 15), ([198, 51, 100, 0], 24),
      ([203, 0, 113, 0], 24), ([224, 0, 0, 0], 3)]"

definition special_v6 :: "(nat \<times> nat) list" where
  "special_v6 = map (\<lambda>(ds, len). (number 65536 ds, len))
     [([0x2001, 0, 0, 0, 0, 0, 0, 0], 32), ([0x2001, 2, 0, 0, 0, 0, 0, 0], 32),
      ([0x2001, 0x20, 0, 0, 0, 0, 0, 0], 27), ([0x2001, 0xdb8, 0, 0, 0, 0, 0, 0], 32)]"

definition public_v4_spec :: "nat \<Rightarrow> bool" where
  "public_v4_spec x \<longleftrightarrow> (\<forall>blk \<in> set special_v4. \<not> in_block 32 x blk)"

fun public_spec :: "ip_addr \<Rightarrow> bool" where
  "public_spec (V4 octets) = public_v4_spec (number 256 octets)"
| "public_spec (V6 segments) =
     (let x = number 65536 segments in
      if x div 2 ^ 32 = 0xffff then public_v4_spec (x mod 2 ^ 32)
      else in_block 128 x (number 65536 [0x2000, 0, 0, 0, 0, 0, 0, 0], 3) \<and>
        (\<forall>blk \<in> set special_v6. \<not> in_block 128 x blk))"

fun ip_wf :: "ip_addr \<Rightarrow> bool" where
  "ip_wf (V4 octets) \<longleftrightarrow> length octets = 4 \<and> (\<forall>d \<in> set octets. d < 256)"
| "ip_wf (V6 segments) \<longleftrightarrow> length segments = 8 \<and> (\<forall>d \<in> set segments. d < 65536)"

lemma div_high: "lo < (m::nat) \<Longrightarrow> (hi * m + lo) div m = hi"
  by simp

lemma digits_eq: "b < n \<Longrightarrow> d < n \<Longrightarrow> a * n + b = c * n + d \<longleftrightarrow> a = c \<and> b = d" for a b c d n :: nat
  by (metis div_high add_left_cancel)

lemma div_digits: "0 < n \<Longrightarrow> (a * (n * m) + b) div n = a * m + b div n" for a b m n :: nat
  by (metis div_mult_self3 less_numeral_extra(3) mult.assoc mult.commute add.commute)

lemma div_nat_eqI_iff: "0 < n \<Longrightarrow> m div n = q \<longleftrightarrow> n * q \<le> m \<and> m < n * Suc q" for m n q :: nat
  by (metis div_nat_eqI dividend_less_times_div mult.commute times_div_less_eq_dividend mult_Suc_right)

lemma public_v4_spec_blocks:
  "public_v4_spec x \<longleftrightarrow>
      x div 2 ^ 24 \<noteq> 0 \<and> x div 2 ^ 24 \<noteq> 10 \<and> x div 2 ^ 24 \<noteq> 127 \<and> x div 2 ^ 22 \<noteq> 401 \<and>
      x div 2 ^ 16 \<noteq> 43518 \<and> x div 2 ^ 20 \<noteq> 2753 \<and> x div 2 ^ 8 \<noteq> 12582912 \<and>
      x div 2 ^ 8 \<noteq> 12582914 \<and> x div 2 ^ 8 \<noteq> 12605539 \<and> x div 2 ^ 16 \<noteq> 49320 \<and>
      x div 2 ^ 17 \<noteq> 25353 \<and> x div 2 ^ 8 \<noteq> 12989284 \<and> x div 2 ^ 8 \<noteq> 13303921 \<and> x div 2 ^ 29 \<noteq> 7"
  by (simp add: public_v4_spec_def special_v4_def in_block_def number_def del: One_nat_def)

lemma public_v4:
  assumes "a < 256" "b < 256" "c < 256" "d < 256"
  shows "is_public_ipv4 [a, b, c, d] \<longleftrightarrow> public_v4_spec (number 256 [a, b, c, d])"
proof -
  let ?x = "number 256 [a, b, c, d]"
  have x: "?x = ((a * 256 + b) * 256 + c) * 256 + d" by (simp add: number_def)
  have step: "x div 2 ^ (m + n) = x div 2 ^ m div 2 ^ n" for x m n :: nat
    by (simp only: power_add div_mult2_eq)
  have low: "(hi * 256 + lo) div 2 ^ 8 = hi" if "lo < 256" for hi lo :: nat
    using div_high [of lo "2 ^ 8" hi] that by simp
  have d8: "?x div 2 ^ 8 = (a * 256 + b) * 256 + c"
    unfolding x by (rule low) (rule assms(4))
  have d16: "?x div 2 ^ 16 = a * 256 + b"
    using step [of ?x 8 8] low [OF assms(3), of "a * 256 + b"] unfolding d8 by simp
  have d24: "?x div 2 ^ 24 = a"
    using step [of ?x 16 8] low [OF assms(2), of a] unfolding d16 by simp
  have d22: "?x div 2 ^ 22 = (a * 256 + b) div 64" using step [of ?x 16 6] unfolding d16 by simp
  have d20: "?x div 2 ^ 20 = (a * 256 + b) div 16" using step [of ?x 16 4] unfolding d16 by simp
  have d17: "?x div 2 ^ 17 = (a * 256 + b) div 2" using step [of ?x 16 1] unfolding d16 by simp
  have d29: "?x div 2 ^ 29 = a div 32" using step [of ?x 24 5] unfolding d24 by simp
  have "public_v4_spec ?x \<longleftrightarrow> a \<noteq> 0 \<and> a \<noteq> 10 \<and> a \<noteq> 127 \<and> \<not> (a = 100 \<and> 64 \<le> b \<and> b \<le> 127) \<and>
      \<not> (a = 169 \<and> b = 254) \<and> \<not> (a = 172 \<and> 16 \<le> b \<and> b \<le> 31) \<and> \<not> (a = 192 \<and> b = 0 \<and> c = 0) \<and>
      \<not> (a = 192 \<and> b = 0 \<and> c = 2) \<and> \<not> (a = 192 \<and> b = 88 \<and> c = 99) \<and> \<not> (a = 192 \<and> b = 168) \<and>
      \<not> (a = 198 \<and> (b = 18 \<or> b = 19)) \<and> \<not> (a = 198 \<and> b = 51 \<and> c = 100) \<and>
      \<not> (a = 203 \<and> b = 0 \<and> c = 113) \<and> \<not> 224 \<le> a"
  proof -
    have "(a * 256 + b) div 64 = a * 4 + b div 64" "(a * 256 + b) div 16 = a * 16 + b div 16"
      "(a * 256 + b) div 2 = a * 128 + b div 2"
      using div_digits [of 64 a 4 b] div_digits [of 16 a 16 b] div_digits [of 2 a 128 b] by simp_all
    moreover have "b div 64 < 4" "b div 16 < 16" "b div 2 < 128" using assms(2) by simp_all
    ultimately have div: "(a * 256 + b) div 64 = 401 \<longleftrightarrow> a = 100 \<and> b div 64 = 1"
      "(a * 256 + b) div 16 = 2753 \<longleftrightarrow> a = 172 \<and> b div 16 = 1"
      "(a * 256 + b) div 2 = 25353 \<longleftrightarrow> a = 198 \<and> b div 2 = 9"
      using digits_eq [of "b div 64" 4 1 a 100] digits_eq [of "b div 16" 16 1 a 172]
        digits_eq [of "b div 2" 128 9 a 198] by simp_all
    have b: "b div 64 = 1 \<longleftrightarrow> 64 \<le> b \<and> b \<le> 127" "b div 16 = 1 \<longleftrightarrow> 16 \<le> b \<and> b \<le> 31"
      "b div 2 = 9 \<longleftrightarrow> b = 18 \<or> b = 19" "a div 32 = 7 \<longleftrightarrow> 224 \<le> a"
      using assms(1) by (auto simp: div_nat_eqI_iff)
    have two: "a * 256 + b = k * 256 + l \<longleftrightarrow> a = k \<and> b = l" if "l < 256" for k l
      using digits_eq [OF assms(2) that] .
    have three: "(a * 256 + b) * 256 + c = (k * 256 + l) * 256 + m \<longleftrightarrow> a = k \<and> b = l \<and> c = m"
      if "l < 256" "m < 256" for k l m
      unfolding digits_eq [OF assms(3) that(2)] two [OF that(1)] by (rule conj_assoc)
    have "a * 256 + b = 43518 \<longleftrightarrow> a = 169 \<and> b = 254" "a * 256 + b = 49320 \<longleftrightarrow> a = 192 \<and> b = 168"
      "(a * 256 + b) * 256 + c = 12582912 \<longleftrightarrow> a = 192 \<and> b = 0 \<and> c = 0"
      "(a * 256 + b) * 256 + c = 12582914 \<longleftrightarrow> a = 192 \<and> b = 0 \<and> c = 2"
      "(a * 256 + b) * 256 + c = 12605539 \<longleftrightarrow> a = 192 \<and> b = 88 \<and> c = 99"
      "(a * 256 + b) * 256 + c = 12989284 \<longleftrightarrow> a = 198 \<and> b = 51 \<and> c = 100"
      "(a * 256 + b) * 256 + c = 13303921 \<longleftrightarrow> a = 203 \<and> b = 0 \<and> c = 113"
      using two [of 254 169] two [of 168 192] three [of 0 0 192] three [of 0 2 192] three [of 88 99 192]
        three [of 51 100 198] three [of 0 113 203] by simp_all
    with div b show ?thesis unfolding public_v4_spec_blocks d8 d16 d17 d20 d22 d24 d29 by (simp only:)
  qed
  then show ?thesis
    by (auto simp: is_public_ipv4_def numeral_2_eq_2 Let_def)
qed

lemma and_high:
  fixes x k :: nat
  assumes "x < 2 ^ 16" "k \<le> 16"
  shows "x AND (2 ^ 16 - 2 ^ k) = 2 ^ k * (x div 2 ^ k)"
proof -
  have "(2::nat) ^ 16 = 2 ^ (16 - k) * 2 ^ k" using assms(2) by (simp flip: power_add)
  then have m: "(2 ^ 16 - 2 ^ k :: nat) = push_bit k (mask (16 - k))"
    by (simp only: push_bit_eq_mult mask_eq_exp_minus_1 diff_mult_distrib mult_1)
  have "bit x n \<Longrightarrow> n < 16" for n
    using assms(1) by (metis bit_take_bit_iff take_bit_nat_eq_self)
  then have "x AND push_bit k (mask (16 - k)) = push_bit k (drop_bit k x)"
    by (intro bit_eqI) (auto simp: bit_and_iff bit_push_bit_iff bit_mask_iff bit_drop_bit_eq
      intro: diff_less_mono)
  then show ?thesis unfolding m by (simp add: push_bit_eq_mult drop_bit_eq_div mult.commute)
qed

lemma mod_low: "lo < m \<Longrightarrow> (hi * m + lo) mod m = lo" for hi lo m :: nat
  by simp

lemma masks:
  fixes x :: nat
  assumes "x < 65536"
  shows "x AND 0xe000 = 0x2000 \<longleftrightarrow> x div 8192 = 1"
    and "x AND 0xffe0 = 0x0020 \<longleftrightarrow> x div 32 = 1"
    and "x AND 0xff00 = 0xff00 \<longleftrightarrow> x div 256 = 255"
  using and_high [of x 13] and_high [of x 5] and_high [of x 8] assms by simp_all

lemma list8: "length xs = 8 \<longleftrightarrow> (\<exists>a b c d e f g h. xs = [a, b, c, d, e, f, g, h])"
  by (auto simp: numeral_eq_Suc length_Suc_conv)

lemma public_spec_v6_blocks:
  "public_spec (V6 segments) \<longleftrightarrow>
     (let x = number 65536 segments in
      if x div 2 ^ 32 = 0xffff then public_v4_spec (x mod 2 ^ 32)
      else x div 2 ^ 125 = 1 \<and> x div 2 ^ 96 \<noteq> 0x20010000 \<and> x div 2 ^ 96 \<noteq> 0x20010002 \<and>
        x div 2 ^ 101 \<noteq> 0x1000801 \<and> x div 2 ^ 96 \<noteq> 0x20010db8)"
proof -
  have "in_block 128 x (number 65536 [0x2000, 0, 0, 0, 0, 0, 0, 0], 3) \<longleftrightarrow> x div 2 ^ 125 = 1"
    "(\<forall>blk \<in> set special_v6. \<not> in_block 128 x blk) \<longleftrightarrow> x div 2 ^ 96 \<noteq> 0x20010000 \<and>
      x div 2 ^ 96 \<noteq> 0x20010002 \<and> x div 2 ^ 101 \<noteq> 0x1000801 \<and> x div 2 ^ 96 \<noteq> 0x20010db8" for x
    by (simp_all add: special_v6_def in_block_def number_def)
  then show ?thesis by (simp only: public_spec.simps Let_def)
qed

lemma public_v6:
  assumes "\<forall>d \<in> set [a, b, c, d, e, f, g, h]. d < (65536::nat)"
  shows "is_public_ipv6 [a, b, c, d, e, f, g, h] \<longleftrightarrow> public_spec (V6 [a, b, c, d, e, f, g, h])"
proof -
  let ?x = "number 65536 [a, b, c, d, e, f, g, h]"
  let ?hi = "(((a * 65536 + b) * 65536 + c) * 65536 + d) * 65536 + e" 
  have lt: "a < 65536" "b < 65536" "c < 65536" "d < 65536" "e < 65536" "f < 65536" "g < 65536" "h < 65536"
    using assms by simp_all
  have x: "?x = ((?hi * 65536 + f) * 65536 + g) * 65536 + h" by (simp add: number_def)
  have step: "x div 2 ^ (m + n) = x div 2 ^ m div 2 ^ n" for x m n :: nat
    by (simp only: power_add div_mult2_eq)
  have low: "(hi * 65536 + lo) div 2 ^ 16 = hi" if "lo < 65536" for hi lo :: nat
    using div_high [of lo "2 ^ 16" hi] that by simp
  have d16: "?x div 2 ^ 16 = (?hi * 65536 + f) * 65536 + g" unfolding x by (rule low) (rule lt)
  have d32: "?x div 2 ^ 32 = ?hi * 65536 + f"
    using step [of ?x 16 16] low [OF lt(7), of "?hi * 65536 + f"] unfolding d16 by simp
  have d48: "?x div 2 ^ 48 = ?hi"
    using step [of ?x 32 16] low [OF lt(6), of ?hi] unfolding d32 by simp
  have d64: "?x div 2 ^ 64 = ((a * 65536 + b) * 65536 + c) * 65536 + d"
    using step [of ?x 48 16] low [OF lt(5)] unfolding d48 by simp
  have d80: "?x div 2 ^ 80 = (a * 65536 + b) * 65536 + c"
    using step [of ?x 64 16] low [OF lt(4)] unfolding d64 by simp
  have d96: "?x div 2 ^ 96 = a * 65536 + b"
    using step [of ?x 80 16] low [OF lt(3)] unfolding d80 by simp
  have d112: "?x div 2 ^ 112 = a"
    using step [of ?x 96 16] low [OF lt(2)] unfolding d96 by simp
  have d125: "?x div 2 ^ 125 = a div 8192" using step [of ?x 112 13] unfolding d112 by simp
  have d101: "?x div 2 ^ 101 = a * 2048 + b div 32"
    using step [of ?x 96 5] div_digits [of 32 a 2048 b] unfolding d96 by simp
  have alg: "(A * 65536 + g) * 65536 + h = A * 2 ^ 32 + (g * 65536 + h)" for A by simp
  have "g * 65536 + h < 2 ^ 32" using lt(7,8) by simp
  then have low32: "?x mod 2 ^ 32 = g * 65536 + h" unfolding x alg by (rule mod_low)
  have quads: "number 256 [g div 256, g mod 256, h div 256, h mod 256] = g * 65536 + h"
  proof -
    have "number 256 [g div 256, g mod 256, h div 256, h mod 256] =
        (g div 256 * 256 + g mod 256) * 65536 + (h div 256 * 256 + h mod 256)"
      by (simp add: number_def algebra_simps)
    then show ?thesis by (simp only: div_mult_mod_eq)
  qed
  have mapped: "?x div 2 ^ 32 = 0xffff \<longleftrightarrow> a = 0 \<and> b = 0 \<and> c = 0 \<and> d = 0 \<and> e = 0 \<and> f = 0xffff"
    unfolding d32 using digits_eq [OF lt(6), of 65535 ?hi 0] by auto
  have v4: "is_public_ipv4 [g div 256, g mod 256, h div 256, h mod 256] \<longleftrightarrow> public_v4_spec (g * 65536 + h)"
    using public_v4 [of "g div 256" "g mod 256" "h div 256" "h mod 256"] lt(7,8) unfolding quads
    by (simp add: div_less_iff_less_mult)
  have doc: "?x div 2 ^ 96 = 0x20010000 + k \<longleftrightarrow> a = 0x2001 \<and> b = k" if "k < 65536" for k
    unfolding d96 using digits_eq [of b 65536 k a "0x2001"] lt(2) that by simp
  have "b div 32 < 2048" using lt(2) by (simp add: div_less_iff_less_mult)
  then have orchid: "?x div 2 ^ 101 = 0x1000801 \<longleftrightarrow> a = 0x2001 \<and> b div 32 = 1"
    unfolding d101 using digits_eq [of "b div 32" 2048 1 a "0x2001"] by simp
  have spec: "public_spec (V6 [a, b, c, d, e, f, g, h]) \<longleftrightarrow>
      (if a = 0 \<and> b = 0 \<and> c = 0 \<and> d = 0 \<and> e = 0 \<and> f = 0xffff then public_v4_spec (g * 65536 + h)
       else a div 8192 = 1 \<and> \<not> (a = 0x2001 \<and> b = 0) \<and> \<not> (a = 0x2001 \<and> b = 2) \<and>
         \<not> (a = 0x2001 \<and> b div 32 = 1) \<and> \<not> (a = 0x2001 \<and> b = 0xdb8))"
    unfolding public_spec_v6_blocks Let_def mapped d125 low32
    using doc [of 0] doc [of 2] doc [of "0xdb8"] orchid by simp
  have pos: "0 < a" "a div 256 \<noteq> 255" if "a div 8192 = 1"
    using that by (simp_all add: div_nat_eqI_iff)
  let ?mapped = "a = 0 \<and> b = 0 \<and> c = 0 \<and> d = 0 \<and> e = 0 \<and> f = 0xffff"
  show ?thesis
  proof (cases ?mapped)
    case True
    then show ?thesis unfolding spec is_public_ipv6_def to_ipv4_mapped_def using v4 by simp
  next
    case False
    then have "to_ipv4_mapped [a, b, c, d, e, f, g, h] = None"
      unfolding to_ipv4_mapped_def by (simp del: One_nat_def)
    then have "is_public_ipv6 [a, b, c, d, e, f, g, h] \<longleftrightarrow> a div 8192 = 1 \<and> a \<noteq> 0 \<and> a div 256 \<noteq> 255 \<and>
        \<not> (a = 0x2001 \<and> b = 0xdb8) \<and> \<not> (a = 0x2001 \<and> b = 2) \<and> \<not> (a = 0x2001 \<and> b = 0) \<and>
        \<not> (a = 0x2001 \<and> b div 32 = 1)"
      unfolding is_public_ipv6_def using masks [OF lt(1)] masks(2) [OF lt(2)] pos
      by (cases "a div 8192 = 1") (simp_all add: Let_def)
    then show ?thesis unfolding spec using False pos by (cases "a div 8192 = 1") auto
  qed
qed

lemma ip_wf_cases:
  assumes "ip_wf ip"
  obtains a b c d where "ip = V4 [a, b, c, d]" "a < 256" "b < 256" "c < 256" "d < 256"
    | a b c d e f g h where "ip = V6 [a, b, c, d, e, f, g, h]" "\<forall>x \<in> set [a, b, c, d, e, f, g, h]. x < 65536"
proof (cases ip)
  case (V4 octets)
  with assms obtain a b c d where "octets = [a, b, c, d]" by (auto simp: numeral_eq_Suc length_Suc_conv)
  with V4 assms that(1) show ?thesis by simp
next
  case (V6 segments)
  with assms obtain a b c d e f g h where "segments = [a, b, c, d, e, f, g, h]" by (auto simp: list8)
  with V6 assms that(2) show ?thesis by simp
qed

section \<open>Percent encoding and paths\<close>

lemma percent_encoding_ok:
  "validate_percent_encoding raw = Inr () \<Longrightarrow> i < length raw \<Longrightarrow> raw ! i = CHR 0x25 \<Longrightarrow>
   i + 2 < length raw \<and> is_ascii_hexdigit (raw ! (i + 1)) \<and> is_ascii_hexdigit (raw ! (i + 2))"
proof (induction raw arbitrary: i rule: validate_percent_encoding.induct)
  case (2 c s)
  show ?case
  proof (cases "c = CHR 0x25")
    case False
    with 2 show ?thesis by (cases i) auto
  next
    case True
    with "2.prems"(1) obtain a b rest where s: "s = a # b # rest" "is_ascii_hexdigit a" "is_ascii_hexdigit b"
        "validate_percent_encoding rest = Inr ()"
      by (auto split: list.splits if_splits)
    have "\<not> is_ascii_hexdigit (CHR 0x25)" by (simp add: is_ascii_hexdigit_def)
    with s "2.prems"(3) consider "i = 0" | j where "i = Suc (Suc (Suc j))"
      by (cases i; cases "i - 1"; cases "i - 2") (auto simp: True)
    then show ?thesis
    proof cases
      case 1
      with s show ?thesis by simp
    next
      case (2 j)
      with s "2.prems" "2.IH"(1) [OF True s(1) refl] show ?thesis by simp
    qed
  qed
qed simp

lemma path_matches_iff:
  "path_matches allowed requested \<longleftrightarrow>
     allowed = ''/'' \<or> requested = allowed \<or> prefix (allowed @ ''/'') requested"
  by (auto simp: path_matches_def strip_prefix_def prefix_def split: option.splits if_splits)

definition public_host :: "host \<Rightarrow> bool" where
  "public_host h \<longleftrightarrow>
     (case h of
        Ip ip \<Rightarrow> is_public_ip ip
      | Domain domain \<Rightarrow>
          (let name = to_ascii_lowercase (trim_end_char (CHR ''.'') domain) in
           CHR ''.'' \<in> set name \<and>
           (\<forall>local \<in> {''.localhost'', ''.local'', ''.internal'', ''.home.arpa''}. \<not> suffix local name)))"

definition host_text :: "lib \<Rightarrow> host \<Rightarrow> string" where
  "host_text L h =
     (case h of Ip ip \<Rightarrow> show_ip L ip | Domain domain \<Rightarrow> to_ascii_lowercase (trim_end_char (CHR ''.'') domain))"

lemma normalize_host_Inr: "normalize_host L h = Inr n \<longleftrightarrow> public_host h \<and> n = host_text L h"
  by (cases "(L, h)" rule: normalize_host.cases)
     (auto simp: public_host_def host_text_def Let_def split: if_splits)

lemma normalize_Inr:
  "normalize L raw entry = Inr t \<longleftrightarrow>
     (\<exists>u h port u'. validate_percent_encoding raw = Inr () \<and> parse_url L raw = Some u \<and>
        to_ascii_lowercase (u_scheme u) \<in> {''http'', ''https''} \<and> u_username u = [] \<and> u_password u = None \<and>
        u_fragment u = None \<and> (entry \<longrightarrow> u_query u = None) \<and> u_host u = Some h \<and> public_host h \<and>
        port_or_default L u = Some port \<and> set_host L u (host_text L h) = Some u' \<and>
        t = \<lparr>nt_scheme = to_ascii_lowercase (u_scheme u), nt_host = host_text L h, nt_port = port,
             nt_path = normalize_path (u_path u),
             nt_canonical = show_url L (if entry then set_path L u' (normalize_path (u_path u)) else u')\<rparr>)"
  by (cases entry) (auto simp: normalize_def normalize_host_Inr Let_def)

lemma normalize_InrE:
  assumes "normalize L raw entry = Inr t"
  obtains u h port u' where "validate_percent_encoding raw = Inr ()" "parse_url L raw = Some u"
    "to_ascii_lowercase (u_scheme u) \<in> {''http'', ''https''}" "u_username u = []" "u_password u = None"
    "u_fragment u = None" "entry \<longrightarrow> u_query u = None" "u_host u = Some h" "public_host h"
    "port_or_default L u = Some port" "set_host L u (host_text L h) = Some u'"
    "t = \<lparr>nt_scheme = to_ascii_lowercase (u_scheme u), nt_host = host_text L h, nt_port = port,
       nt_path = normalize_path (u_path u),
       nt_canonical = show_url L (if entry then set_path L u' (normalize_path (u_path u)) else u')\<rparr>"
  using assms unfolding normalize_Inr by (elim exE conjE) (rule that)

lemma list_all2_right: "list_all2 P xs ys \<Longrightarrow> y \<in> set ys \<Longrightarrow> \<exists>x \<in> set xs. P x y"
  by (induction rule: list_all2_induct) auto

lemma normalize_path_root: "normalize_path p = ''/'' \<Longrightarrow> p = ''/''"
proof (rule ccontr)
  assume "normalize_path p = ''/''" "p \<noteq> ''/''"
  then have "trim_end_char (CHR ''/'') p = ''/''" by (simp add: normalize_path_def)
  with last_trim_end_char [of "CHR ''/''" p] show False by simp
qed

section \<open>Properties\<close>

text \<open>
  C37. The test for public addresses, written with octets, segments and masks, is the test against the
  special-purpose address blocks: an address is public if and only if no block contains it, where an
  IPv4-mapped address counts as the IPv4 address.
\<close>

theorem public_ip_blocks:
  assumes "ip_wf ip"
  shows "is_public_ip ip \<longleftrightarrow> public_spec ip"
  using assms
proof (cases rule: ip_wf_cases)
  case (1 a b c d)
  then show ?thesis by (simp add: public_v4)
next
  case (2 a b c d e f g h)
  then show ?thesis using public_v6 [of a b c d e f g h] by simp
qed

theorem public_ip_blocks_witness:
  "is_public_ip (V4 [100, 128, 0, 1]) = public_spec (V4 [100, 128, 0, 1]) \<and>
   \<not> public_spec (V6 [0x2001, 0x2f, 0, 0, 0, 0, 0, 1])"
proof -
  have "\<not> is_public_ip (V6 [0x2001, 0x2f, 0, 0, 0, 0, 0, 1])"
    by (simp add: is_public_ipv6_def to_ipv4_mapped_def Let_def)
  then show ?thesis
    using public_ip_blocks [of "V4 [100, 128, 0, 1]"] public_ip_blocks [of "V6 [0x2001, 0x2f, 0, 0, 0, 0, 0, 1]"]
    by simp
qed

text \<open>
  C38. A target that passes validation is an http or https URL without credentials and fragment, with
  well-formed percent escapes and a public host, and it agrees in scheme, host and port with an entry
  of the allowlist whose path it equals or lies below, split at a slash.
\<close>

theorem validated_target_sound:
  assumes "validate_target L raw entries = Inr canonical"
  shows "\<exists>u v h g u' entry. parse_url L raw = Some u \<and> u_host u = Some h \<and> public_host h \<and>
    to_ascii_lowercase (u_scheme u) \<in> {''http'', ''https''} \<and> u_username u = [] \<and> u_password u = None \<and>
    u_fragment u = None \<and> set_host L u (host_text L h) = Some u' \<and> canonical = show_url L u' \<and>
    entry \<in> set entries \<and> parse_url L entry = Some v \<and> u_host v = Some g \<and>
    to_ascii_lowercase (u_scheme v) = to_ascii_lowercase (u_scheme u) \<and> host_text L g = host_text L h \<and>
    port_or_default L v = port_or_default L u \<and> u_query v = None \<and>
    (u_path v = ''/'' \<or> normalize_path (u_path u) = normalize_path (u_path v) \<or>
     prefix (normalize_path (u_path v) @ ''/'') (normalize_path (u_path u))) \<and>
    (\<forall>i < length raw. raw ! i = CHR 0x25 \<longrightarrow>
       i + 2 < length raw \<and> is_ascii_hexdigit (raw ! (i + 1)) \<and> is_ascii_hexdigit (raw ! (i + 2)))"
proof -
  from assms obtain allowlist t allowed where a: "parse_allowlist L entries = Inr allowlist"
      "normalize L raw False = Inr t" "allowed \<in> set allowlist" "target_allowed t allowed"
      "canonical = nt_canonical t"
    by (auto simp: validate_target_def)
  from a(1) have l: "list_all2 (\<lambda>entry t. normalize L entry True = Inr t) entries allowlist"
    by (simp add: parse_allowlist_def collect_results_Inr)
  from list_all2_right [OF l a(3)] obtain entry where
    entry: "entry \<in> set entries" "normalize L entry True = Inr allowed" by blast
  note root = normalize_path_root
  obtain u h port u' where u: "validate_percent_encoding raw = Inr ()" "parse_url L raw = Some u"
      "to_ascii_lowercase (u_scheme u) \<in> {''http'', ''https''}" "u_username u = []" "u_password u = None"
      "u_fragment u = None" "u_host u = Some h" "public_host h"
      "port_or_default L u = Some port" "set_host L u (host_text L h) = Some u'"
    and t: "t = \<lparr>nt_scheme = to_ascii_lowercase (u_scheme u), nt_host = host_text L h, nt_port = port,
       nt_path = normalize_path (u_path u),
       nt_canonical = show_url L (if False then set_path L u' (normalize_path (u_path u)) else u')\<rparr>"
    by (rule normalize_InrE [OF a(2)]) (rule that)
  obtain v g port' v' where v: "parse_url L entry = Some v" "True \<longrightarrow> u_query v = None" "u_host v = Some g"
      "port_or_default L v = Some port'"
    and allowed: "allowed = \<lparr>nt_scheme = to_ascii_lowercase (u_scheme v), nt_host = host_text L g, nt_port = port',
       nt_path = normalize_path (u_path v),
       nt_canonical = show_url L (if True then set_path L v' (normalize_path (u_path v)) else v')\<rparr>"
    by (rule normalize_InrE [OF entry(2)]) (rule that)
  have path: "u_path v = ''/'' \<or> normalize_path (u_path u) = normalize_path (u_path v) \<or>
     prefix (normalize_path (u_path v) @ ''/'') (normalize_path (u_path u))"
    using a(4) root unfolding t allowed by (auto simp: target_allowed_def path_matches_iff)
  show ?thesis
    by (rule exI [of _ u], rule exI [of _ v], rule exI [of _ h], rule exI [of _ g], rule exI [of _ u'],
        rule exI [of _ entry])
      (use u v path entry(1) a(4,5) percent_encoding_ok [OF u(1)] in \<open>simp add: target_allowed_def t allowed\<close>)
qed

definition url0 :: "string \<Rightarrow> url" where
  "url0 path = \<lparr>u_scheme = ''https'', u_username = [], u_password = None, u_host = Some (Domain ''hooks.example.com''),
     u_port = Some 443, u_path = path, u_query = None, u_fragment = None\<rparr>"

definition lib_urls :: lib where
  "lib_urls = sample_lib []
     [(''entry'', url0 ''/hil''), (''below'', url0 ''/hil/42''), (''beside'', url0 ''/hilarious''),
      (''https:///hil/42'', url0 ''/hil/42'')] no_rules"

lemma url_checks:
  "trim_end_char (CHR ''.'') ''hooks.example.com'' = ''hooks.example.com''"
  "to_ascii_lowercase ''hooks.example.com'' = ''hooks.example.com''" "to_ascii_lowercase ''https'' = ''https''"
  "trim_end_char (CHR ''/'') ''/hil'' = ''/hil''" "trim_end_char (CHR ''/'') ''/hil/42'' = ''/hil/42''"
  "trim_end_char (CHR ''/'') ''/hilarious'' = ''/hilarious''"
  "validate_percent_encoding ''entry'' = Inr ()" "validate_percent_encoding ''below'' = Inr ()"
  "validate_percent_encoding ''beside'' = Inr ()" "validate_percent_encoding ''https:///hil/42'' = Inr ()"
  by code_simp+

theorem validated_target_sound_witness:
  "validate_target lib_urls ''below'' [''entry''] = Inr ''https:///hil/42'' \<and>
   (\<exists>u entry. parse_url lib_urls ''below'' = Some u \<and> entry \<in> {''entry''} \<and> u_username u = [])"
proof -
  have v: "validate_target lib_urls ''below'' [''entry''] = Inr ''https:///hil/42''"
    by (simp add: validate_target_def parse_allowlist_def normalize_def lib_urls_def sample_lib_def url0_def
        url_checks target_allowed_def path_matches_iff normalize_path_def Let_def suffix_to_prefix)
  with validated_target_sound [OF v] show ?thesis by auto
qed

end
