(* ===== verification/Outbound_Callback.thy ===== *)
theory Outbound_Callback
  imports Http Target_Validation "HOL-Library.Product_Lexorder"
begin

text \<open>
  Delivery of callbacks (\<open>src/outbound_callback.rs\<close>): the target is validated, its address resolved,
  checked and pinned, and redirects are followed by hand under the same rules.
\<close>

section \<open>The environment\<close>

text \<open>
  What the network does at step \<open>i\<close>, the number of requests sent before: the DNS answer for a host, the
  construction of the client, the answer to the request. \<open>cb_deadline\<close> is the number of requests that
  had been sent when the time limit of the whole operation expired, if it did.
\<close>

datatype dns_answer = DnsTimeout | DnsFailed | DnsAnswers "ip_addr list"

datatype http_method = Get | Post

record out_request =
  oq_method :: http_method
  oq_url :: url
  oq_json :: bool
  oq_payload :: string
  oq_address :: ip_addr
  oq_port :: nat

record callback_env =
  cb_resolve :: "nat \<Rightarrow> string \<Rightarrow> nat \<Rightarrow> dns_answer"
  cb_init_fails :: "nat \<Rightarrow> bool"
  cb_send :: "nat \<Rightarrow> out_request \<Rightarrow> reply option"
  cb_deadline :: "nat option"

section \<open>The model\<close>

definition MAXIMUM_ANSWERS :: nat where
  "MAXIMUM_ANSWERS = 32"

definition MAXIMUM_REDIRECT_HOPS :: nat where
  "MAXIMUM_REDIRECT_HOPS = 5"

definition CALLBACK_REQUEST_BYTES :: nat where
  "CALLBACK_REQUEST_BYTES = 65536"

definition CALLBACK_RESPONSE_BYTES :: nat where
  "CALLBACK_RESPONSE_BYTES = 65536"

datatype callback_error =
    PayloadTooLarge
  | TargetRejected target_error
  | InvalidCallbackUrl
  | OperationTimeout
  | NoHost
  | NoPort
  | DnsTimedOut
  | DnsFailure
  | DnsTooManyAnswers
  | DnsEmpty
  | DnsNonPublic
  | ClientInit
  | RequestFailed
  | TooManyRedirects
  | LocationMissing
  | LocationNotText
  | LocationInvalid
  | RedirectRejected target_error
  | RedirectUnparsable
  | Downgrade
  | RedirectLoop
  | CallbackResponseTooLarge
  | CallbackReadFailed

definition resolve_complete :: "dns_answer \<Rightarrow> (callback_error, ip_addr list) result" where
  "resolve_complete answer =
     (case answer of
        DnsTimeout \<Rightarrow> Inl DnsTimedOut
      | DnsFailed \<Rightarrow> Inl DnsFailure
      | DnsAnswers addresses \<Rightarrow>
          if MAXIMUM_ANSWERS < length addresses then Inl DnsTooManyAnswers else Inr addresses)"

text \<open>\<open>compare_addresses\<close> as a key: IPv4 first, then the octets, which segments order alike.\<close>

fun address_key :: "ip_addr \<Rightarrow> nat \<times> nat list" where
  "address_key (V4 octets) = (0, octets)"
| "address_key (V6 segments) = (1, segments)"

definition validate_answers :: "ip_addr list \<Rightarrow> (callback_error, ip_addr) result" where
  "validate_answers addresses =
     (if addresses = [] then Inl DnsEmpty
      else if MAXIMUM_ANSWERS < length addresses then Inl DnsTooManyAnswers
      else if \<exists>address \<in> set addresses. \<not> is_public_ip address then Inl DnsNonPublic
      else (case sort_key address_key (remdups addresses) of
              [] \<Rightarrow> Inl DnsEmpty | address # _ \<Rightarrow> Inr address))"

definition host_addresses ::
    "callback_env \<Rightarrow> nat \<Rightarrow> host \<Rightarrow> nat \<Rightarrow> (callback_error, ip_addr list) result" where
  "host_addresses E i host port =
     (case host of
        Ip address \<Rightarrow> Inr [address]
      | Domain domain \<Rightarrow> resolve_complete (cb_resolve E i domain port))"

text \<open>The client that is pinned to one address and port.\<close>

definition pinned_client ::
    "lib \<Rightarrow> callback_env \<Rightarrow> nat \<Rightarrow> url \<Rightarrow> (callback_error, ip_addr \<times> nat) result" where
  "pinned_client L E i url =
     and_then (ok_or NoHost (u_host url)) (\<lambda>host.
     and_then (ok_or NoPort (port_or_default L url)) (\<lambda>port.
     and_then (host_addresses E i host port) (\<lambda>addresses.
     and_then (validate_answers addresses) (\<lambda>selected.
     and_then (ensure (\<not> cb_init_fails E i) ClientInit) (\<lambda>_. Inr (selected, port))))))"

definition is_manual_redirect :: "nat \<Rightarrow> bool" where
  "is_manual_redirect status \<longleftrightarrow> status \<in> {301, 302, 303, 307, 308}"

fun drain :: "nat \<Rightarrow> string list \<Rightarrow> bool \<Rightarrow> nat \<Rightarrow> (callback_error, nat) result" where
  "drain bytes [] fails status = (if fails then Inl CallbackReadFailed else Inr status)"
| "drain bytes (chunk # chunks) fails status =
     (if CALLBACK_RESPONSE_BYTES < bytes + length chunk then Inl CallbackResponseTooLarge
      else drain (bytes + length chunk) chunks fails status)"

text \<open>The next target of a redirect.\<close>

definition redirect_target ::
    "lib \<Rightarrow> string list \<Rightarrow> string list \<Rightarrow> url \<Rightarrow> headers \<Rightarrow> (callback_error, url) result" where
  "redirect_target L allowlist seen url hs =
     and_then (ok_or LocationMissing (header ''location'' hs)) (\<lambda>value.
     and_then (ok_or LocationNotText (to_str value)) (\<lambda>location.
     and_then (ok_or LocationInvalid (join_url L url location)) (\<lambda>candidate.
     and_then (map_error RedirectRejected (validate_target L (show_url L candidate) allowlist)) (\<lambda>canonical.
     and_then (ok_or RedirectUnparsable (parse_url L canonical)) (\<lambda>next_url.
     and_then (ensure (\<not> (u_scheme url = ''https'' \<and> u_scheme next_url = ''http'')) Downgrade) (\<lambda>_.
     and_then (ensure (show_url L next_url \<notin> set seen) RedirectLoop) (\<lambda>_. Inr next_url)))))))"

text \<open>
  The loop of \<open>send_bounded\<close>, which returns the requests it sent with its result. \<open>i\<close> counts the
  requests; \<open>seen\<close> are the texts of the visited URLs.
\<close>

function send_loop ::
    "lib \<Rightarrow> callback_env \<Rightarrow> string list \<Rightarrow> http_method \<Rightarrow> bool \<Rightarrow> string \<Rightarrow> string list \<Rightarrow> nat \<Rightarrow> url \<Rightarrow> nat \<Rightarrow>
     out_request list \<times> (callback_error, nat) result" where
  "send_loop L E allowlist meth send_content_type payload seen redirect_hops url i =
     (case pinned_client L E i url of
        Inl e \<Rightarrow> ([], Inl e)
      | Inr (address, port) \<Rightarrow>
          let request = \<lparr>oq_method = meth, oq_url = url, oq_json = send_content_type, oq_payload = payload,
                oq_address = address, oq_port = port\<rparr>
          in case cb_send E i request of
               None \<Rightarrow> ([request], Inl RequestFailed)
             | Some response \<Rightarrow>
                 if is_manual_redirect (rp_status response) then
                   if MAXIMUM_REDIRECT_HOPS \<le> redirect_hops then ([request], Inl TooManyRedirects)
                   else case redirect_target L allowlist seen url (rp_headers response) of
                          Inl e \<Rightarrow> ([request], Inl e)
                        | Inr next_url \<Rightarrow>
                            let see_other = (rp_status response = 303);
                                (sent, res) = send_loop L E allowlist
                                  (if see_other then Get else meth) (if see_other then False else send_content_type)
                                  (if see_other then [] else payload) (show_url L next_url # seen)
                                  (redirect_hops + 1) next_url (i + 1)
                            in (request # sent, res)
                 else ([request], drain 0 (rp_chunks response) (rp_read_fails response) (rp_status response)))"
  by pat_completeness auto
termination
  by (relation "measure (\<lambda>(L, E, allowlist, meth, json, payload, seen, hops, url, i). MAXIMUM_REDIRECT_HOPS - hops)") auto

declare send_loop.simps [simp del]

definition send_bounded ::
    "lib \<Rightarrow> callback_env \<Rightarrow> url \<Rightarrow> string \<Rightarrow> string list \<Rightarrow> out_request list \<times> (callback_error, nat) result" where
  "send_bounded L E url payload allowlist = send_loop L E allowlist Post True payload [show_url L url] 0 url 0"

definition post_json ::
    "lib \<Rightarrow> callback_env \<Rightarrow> string \<Rightarrow> string \<Rightarrow> string list \<Rightarrow> out_request list \<times> (callback_error, nat) result" where
  "post_json L E url payload allowlist =
     (if CALLBACK_REQUEST_BYTES < length payload then ([], Inl PayloadTooLarge)
      else case validate_target L url allowlist of
        Inl e \<Rightarrow> ([], Inl (TargetRejected e))
      | Inr canonical \<Rightarrow>
          (case parse_url L canonical of
             None \<Rightarrow> ([], Inl InvalidCallbackUrl)
           | Some u \<Rightarrow>
               (case send_bounded L E u payload allowlist of
                  (sent, res) \<Rightarrow>
                    (case cb_deadline E of
                       None \<Rightarrow> (sent, res)
                     | Some k \<Rightarrow> (take k sent, Inl OperationTimeout)))))"

section \<open>Lemmas\<close>

definition allowed_url :: "lib \<Rightarrow> string list \<Rightarrow> url \<Rightarrow> bool" where
  "allowed_url L allowlist url \<longleftrightarrow>
     (\<exists>raw canonical. validate_target L raw allowlist = Inr canonical \<and> parse_url L canonical = Some url)"

lemma redirect_target_Inr:
  assumes "redirect_target L allowlist seen url hs = Inr u"
  shows "allowed_url L allowlist u" "\<not> (u_scheme url = ''https'' \<and> u_scheme u = ''http'')"
    "show_url L u \<notin> set seen"
  using assms by (auto simp: redirect_target_def allowed_url_def)

lemma validate_answers_Inr:
  assumes "validate_answers addresses = Inr a"
  shows "a \<in> set addresses" "\<forall>x \<in> set addresses. is_public_ip x \<and> address_key a \<le> address_key x"
proof -
  from assms have p: "\<forall>x \<in> set addresses. is_public_ip x"
    and "\<exists>rest. sort_key address_key (remdups addresses) = a # rest"
    by (auto simp: validate_answers_def split: if_splits list.splits)
  then obtain rest where s: "sort_key address_key (remdups addresses) = a # rest" by blast
  then have e: "set addresses = set (a # rest)" by (metis set_remdups set_sort)
  moreover have "sorted (map address_key (a # rest))" by (metis s sorted_sort_key)
  ultimately show "a \<in> set addresses" "\<forall>x \<in> set addresses. is_public_ip x \<and> address_key a \<le> address_key x"
    using p by auto
qed

lemma host_addresses_Inr:
  "host_addresses E i host port = Inr addresses \<longleftrightarrow>
     (case host of
        Ip address \<Rightarrow> addresses = [address]
      | Domain d \<Rightarrow> cb_resolve E i d port = DnsAnswers addresses \<and> length addresses \<le> MAXIMUM_ANSWERS)"
  by (auto simp: host_addresses_def resolve_complete_def split: host.splits dns_answer.splits)

lemma pinned_client_Inr:
  assumes "pinned_client L E i url = Inr (address, port)"
  shows "is_public_ip address" "port_or_default L url = Some port"
    "\<And>ip. u_host url = Some (Ip ip) \<Longrightarrow> address = ip"
    "\<And>d. u_host url = Some (Domain d) \<Longrightarrow> \<exists>answers. cb_resolve E i d port = DnsAnswers answers \<and>
       address \<in> set answers \<and> (\<forall>x \<in> set answers. is_public_ip x)"
proof -
  from assms obtain host addresses where h: "u_host url = Some host" "port_or_default L url = Some port"
      "host_addresses E i host port = Inr addresses" and v: "validate_answers addresses = Inr address"
    by (auto simp: pinned_client_def)
  note v = validate_answers_Inr [OF v]
  show "is_public_ip address" "port_or_default L url = Some port" using v h by blast+
  show "\<And>ip. u_host url = Some (Ip ip) \<Longrightarrow> address = ip"
    using v(1) h by (simp add: host_addresses_Inr)
  show "\<And>d. u_host url = Some (Domain d) \<Longrightarrow> \<exists>answers. cb_resolve E i d port = DnsAnswers answers \<and>
       address \<in> set answers \<and> (\<forall>x \<in> set answers. is_public_ip x)"
    using v h by (simp add: host_addresses_Inr)
qed

text \<open>What one request of a delivery satisfies.\<close>

definition request_ok :: "lib \<Rightarrow> string list \<Rightarrow> string \<Rightarrow> out_request \<Rightarrow> bool" where
  "request_ok L allowlist payload r \<longleftrightarrow>
     allowed_url L allowlist (oq_url r) \<and> is_public_ip (oq_address r) \<and>
     port_or_default L (oq_url r) = Some (oq_port r) \<and>
     (\<forall>ip. u_host (oq_url r) = Some (Ip ip) \<longrightarrow> oq_address r = ip) \<and>
     (oq_method r = Post \<and> oq_payload r = payload \<or> oq_method r = Get \<and> oq_payload r = [] \<and> \<not> oq_json r)"

definition no_downgrade :: "out_request list \<Rightarrow> bool" where
  "no_downgrade sent \<longleftrightarrow>
     successively (\<lambda>r s. \<not> (u_scheme (oq_url r) = ''https'' \<and> u_scheme (oq_url s) = ''http'')) sent"

abbreviation text_of :: "lib \<Rightarrow> out_request \<Rightarrow> string" where
  "text_of L \<equiv> \<lambda>r. show_url L (oq_url r)"

text \<open>The three outcomes of a step of the loop: nothing sent, a last request, or a followed redirect.\<close>

lemma send_loop_cases:
  assumes "send_loop L E allowlist meth json payload seen hops url i = (sent, res)"
  obtains "sent = []"
    | address port where "pinned_client L E i url = Inr (address, port)"
        "sent = [\<lparr>oq_method = meth, oq_url = url, oq_json = json, oq_payload = payload,
          oq_address = address, oq_port = port\<rparr>]"
    | address port response next_url sent' where "pinned_client L E i url = Inr (address, port)"
        "hops < MAXIMUM_REDIRECT_HOPS"
        "cb_send E i \<lparr>oq_method = meth, oq_url = url, oq_json = json, oq_payload = payload,
          oq_address = address, oq_port = port\<rparr> = Some response"
        "is_manual_redirect (rp_status response)"
        "redirect_target L allowlist seen url (rp_headers response) = Inr next_url"
        "send_loop L E allowlist (if rp_status response = 303 then Get else meth)
          (if rp_status response = 303 then False else json) (if rp_status response = 303 then [] else payload)
          (show_url L next_url # seen) (hops + 1) next_url (i + 1) = (sent', res)"
        "sent = \<lparr>oq_method = meth, oq_url = url, oq_json = json, oq_payload = payload,
          oq_address = address, oq_port = port\<rparr> # sent'"
  using assms
  by (subst (asm) send_loop.simps)
     (auto simp: Let_def not_le split: sum.splits prod.splits option.splits if_splits)

definition form_ok :: "http_method \<Rightarrow> bool \<Rightarrow> string \<Rightarrow> string \<Rightarrow> bool" where
  "form_ok meth json body payload \<longleftrightarrow> meth = Post \<and> body = payload \<or> meth = Get \<and> body = [] \<and> \<not> json"

lemma send_loop_requests:
  "send_loop L E allowlist meth json body seen hops url i = (sent, res) \<Longrightarrow>
   allowed_url L allowlist url \<Longrightarrow> form_ok meth json body payload \<Longrightarrow>
   (\<forall>r \<in> set sent. request_ok L allowlist payload r)"
proof (induction L E allowlist meth json body seen hops url i arbitrary: sent res rule: send_loop.induct)
  case (1 L E allowlist meth json body seen hops url i)
  from "1.prems"(1) show ?case
  proof (cases rule: send_loop_cases)
    case 1
    then show ?thesis by simp
  next
    case (2 address port)
    with "1.prems"(2,3) pinned_client_Inr [OF 2(1)] show ?thesis
      by (auto simp: request_ok_def form_ok_def)
  next
    case (3 address port response next_url sent')
    have "form_ok (if rp_status response = 303 then Get else meth)
        (if rp_status response = 303 then False else json) (if rp_status response = 303 then [] else body) payload"
      using "1.prems"(3) by (simp add: form_ok_def)
    with 3 redirect_target_Inr(1) [OF 3(5)] have "\<forall>r \<in> set sent'. request_ok L allowlist payload r"
      by (intro "1.IH" [of _ address port _ response next_url]) (auto simp: not_le)
    with 3(7) "1.prems"(2,3) pinned_client_Inr [OF 3(1)] show ?thesis
      by (auto simp: request_ok_def form_ok_def)
  qed
qed

lemma send_loop_shape:
  "send_loop L E allowlist meth json body seen hops url i = (sent, res) \<Longrightarrow>
   length sent \<le> Suc (MAXIMUM_REDIRECT_HOPS - hops) \<and> (sent \<noteq> [] \<longrightarrow> oq_url (hd sent) = url) \<and>
   no_downgrade sent \<and> distinct (map (text_of L) (tl sent)) \<and> set (map (text_of L) (tl sent)) \<inter> set seen = {}"
proof (induction L E allowlist meth json body seen hops url i arbitrary: sent res rule: send_loop.induct)
  case (1 L E allowlist meth json body seen hops url i)
  from "1.prems"(1) show ?case
  proof (cases rule: send_loop_cases)
    case 1
    then show ?thesis by (simp add: no_downgrade_def)
  next
    case (2 address port)
    then show ?thesis by (simp add: no_downgrade_def)
  next
    case (3 address port response next_url sent')
    have IH: "length sent' \<le> Suc (MAXIMUM_REDIRECT_HOPS - (hops + 1)) \<and> (sent' \<noteq> [] \<longrightarrow> oq_url (hd sent') = next_url) \<and>
        no_downgrade sent' \<and> distinct (map (text_of L) (tl sent')) \<and>
        set (map (text_of L) (tl sent')) \<inter> set (show_url L next_url # seen) = {}"
      using 3 by (intro "1.IH" [of _ address port _ response next_url]) (auto simp: not_le)
    with 3 redirect_target_Inr(2,3) [OF 3(5)] show ?thesis
      by (cases sent') (auto simp: no_downgrade_def)
  qed
qed

lemma post_json_sent:
  assumes "post_json L E url payload allowlist = (sent, res)"
  obtains "sent = []"
    | u all r where "length payload \<le> CALLBACK_REQUEST_BYTES" "allowed_url L allowlist u"
        "send_loop L E allowlist Post True payload [show_url L u] 0 u 0 = (all, r)" "prefix sent all"
proof (cases "CALLBACK_REQUEST_BYTES < length payload \<or> sent = []")
  case True
  with assms that(1) show ?thesis by (auto simp: post_json_def)
next
  case False
  with assms obtain canonical u where v: "validate_target L url allowlist = Inr canonical" "parse_url L canonical = Some u"
    by (auto simp: post_json_def split: sum.splits option.splits)
  obtain all r where l: "send_loop L E allowlist Post True payload [show_url L u] 0 u 0 = (all, r)" by fastforce
  with assms False v have "prefix sent all"
    by (auto simp: post_json_def send_bounded_def take_is_prefix split: option.splits)
  moreover have "allowed_url L allowlist u" using v by (auto simp: allowed_url_def)
  moreover have "length payload \<le> CALLBACK_REQUEST_BYTES" using False by simp
  ultimately show ?thesis using that(2) l by blast
qed

section \<open>Properties\<close>

text \<open>
  C40. Whatever DNS, the redirects and the clock do, every request of a delivery goes to a URL that
  passed the allowlist and to a public address, the literal one if the URL has one; it carries the
  payload in a POST or nothing in a GET; and no step goes from https to http.
\<close>

theorem callback_stays_allowed:
  assumes "post_json L E url payload allowlist = (sent, res)"
  shows "(\<forall>r \<in> set sent. request_ok L allowlist payload r) \<and> no_downgrade sent"
  using assms
proof (cases rule: post_json_sent)
  case 1
  then show ?thesis by (simp add: no_downgrade_def)
next
  case (2 u all r)
  then obtain rest where all: "all = sent @ rest" by (auto simp: prefix_def)
  have "\<forall>r \<in> set all. request_ok L allowlist payload r"
    using send_loop_requests [OF 2(3,2)] by (simp add: form_ok_def)
  moreover have "no_downgrade all" using send_loop_shape [OF 2(3)] by blast
  ultimately show ?thesis by (simp add: all no_downgrade_def successively_append_iff)
qed

text \<open>
  Delivery ends after at most six requests, all to different URLs, however the peers redirect, and
  sends nothing when the payload is over the limit.
\<close>

theorem callback_bounded:
  assumes "post_json L E url payload allowlist = (sent, res)"
  shows "length sent \<le> Suc MAXIMUM_REDIRECT_HOPS \<and> distinct (map (\<lambda>r. show_url L (oq_url r)) sent) \<and>
    (CALLBACK_REQUEST_BYTES < length payload \<longrightarrow> sent = [])"
  using assms
proof (cases rule: post_json_sent)
  case 1
  then show ?thesis by simp
next
  case (2 u all r)
  then obtain rest where all: "all = sent @ rest" by (auto simp: prefix_def)
  note shape = send_loop_shape [OF 2(3)]
  have "distinct (map (\<lambda>r. show_url L (oq_url r)) all)"
    using shape by (cases all) auto
  with shape 2(1) show ?thesis by (simp add: all)
qed

text \<open>A redirect of the sample network: from the first URL to a sibling, which answers.\<close>

definition env0 :: callback_env where
  "env0 = \<lparr>cb_resolve = (\<lambda>i d p. DnsAnswers [V4 [203, 0, 114, 9], V4 [93, 184, 216, 34]]), cb_init_fails = (\<lambda>i. False),
     cb_send = (\<lambda>i r. Some (if i = 0
       then \<lparr>rp_status = 303, rp_headers = [(''location'', Text ''https:///hil/43'')], rp_chunks = [], rp_read_fails = False\<rparr>
       else \<lparr>rp_status = 200, rp_headers = [], rp_chunks = [''ok''], rp_read_fails = False\<rparr>)),
     cb_deadline = None\<rparr>"

definition lib_hops :: lib where
  "lib_hops = sample_lib []
     [(''entry'', url0 ''/hil''), (''below'', url0 ''/hil/42''), (''https:///hil/42'', url0 ''/hil/42''),
      (''https:///hil/43'', url0 ''/hil/43'')] no_rules"

lemma hops_valid:
  "validate_target lib_hops ''below'' [''entry''] = Inr ''https:///hil/42''"
  "validate_target lib_hops ''https:///hil/43'' [''entry''] = Inr ''https:///hil/43''"
proof -
  have "validate_percent_encoding ''https:///hil/43'' = Inr ()"
    "trim_end_char (CHR ''/'') ''/hil/43'' = ''/hil/43''" by code_simp+
  then show "validate_target lib_hops ''below'' [''entry''] = Inr ''https:///hil/42''"
    "validate_target lib_hops ''https:///hil/43'' [''entry''] = Inr ''https:///hil/43''"
    by (simp_all add: validate_target_def parse_allowlist_def normalize_def lib_hops_def sample_lib_def url0_def
        url_checks target_allowed_def path_matches_iff normalize_path_def Let_def suffix_to_prefix)
qed

lemma hops_client: "pinned_client lib_hops env0 i (url0 path) = Inr (V4 [93, 184, 216, 34], 443)"
  by (simp add: pinned_client_def host_addresses_def resolve_complete_def validate_answers_def env0_def lib_hops_def
      sample_lib_def url0_def MAXIMUM_ANSWERS_def is_public_ipv4_def)

lemma hops_run:
  "map oq_payload (fst (post_json lib_hops env0 ''below'' ''{}'' [''entry''])) = [''{}'', []]"
proof -
  have r: "redirect_target lib_hops [''entry''] [''https:///hil/42''] (url0 ''/hil/42'') [(''location'', Text ''https:///hil/43'')] =
      Inr (url0 ''/hil/43'')"
    using hops_valid(2)
    by (simp add: redirect_target_def header_def lib_hops_def sample_lib_def url0_def)
  have p: "parse_url lib_hops ''https:///hil/42'' = Some (url0 ''/hil/42'')" "show_url lib_hops (url0 ''/hil/42'') = ''https:///hil/42''"
    by (simp_all add: lib_hops_def sample_lib_def url0_def)
  show ?thesis
    by (simp add: post_json_def hops_valid p send_bounded_def send_loop.simps [of _ _ _ _ _ _ _ 0]
        send_loop.simps [of _ _ _ _ _ _ _ "Suc 0"] hops_client r is_manual_redirect_def env0_def [THEN arg_cong, of cb_send]
        env0_def [THEN arg_cong, of cb_deadline] CALLBACK_REQUEST_BYTES_def MAXIMUM_REDIRECT_HOPS_def Let_def)
qed

theorem callback_stays_allowed_witness:
  "\<exists>r s. fst (post_json lib_hops env0 ''below'' ''{}'' [''entry'']) = [r, s] \<and>
     request_ok lib_hops [''entry''] ''{}'' r \<and> request_ok lib_hops [''entry''] ''{}'' s"
proof -
  obtain sent res where p: "post_json lib_hops env0 ''below'' ''{}'' [''entry''] = (sent, res)" by fastforce
  with hops_run have "map oq_payload sent = [''{}'', []]" by simp
  then obtain r s where "sent = [r, s]" by auto
  with callback_stays_allowed [OF p] p show ?thesis by auto
qed

theorem callback_bounded_witness:
  "length (fst (post_json lib_hops env0 ''below'' ''{}'' [''entry''])) = 2 \<and>
   length (fst (post_json lib_hops env0 ''below'' ''{}'' [''entry''])) \<le> Suc MAXIMUM_REDIRECT_HOPS"
  using callback_bounded [of lib_hops env0 "''below''" "''{}''" "[''entry'']", OF surjective_pairing]
    arg_cong [OF hops_run, of length] by simp

end
