(* ===== verification/Registry.thy ===== *)
theory Registry
  imports Prelude "HOL-Library.Word"
begin

text \<open>
  The bearer registries of \<open>proxy.rs\<close>: agent identities, the registry of agents
  (\<open>tenant/id:token,...\<close>), the registry of operators (\<open>tenant:token,...\<close>), and the comparison of
  tokens. A \<open>HashMap\<close> from tokens is the list of its entries in some order; that the order does not
  matter is part of what is shown.
\<close>

unbundle bit_operations_syntax

section \<open>Identities\<close>

record agent_identity =
  ai_tenant :: string
  ai_agent_id :: string

datatype registry_error =
    MissingColon string
  | EmptyToken string
  | BadTenant string
  | BadAgentId string
  | NotTenantAgent string
  | Unqualified string
  | DuplicateToken string string
  | EmptyRegistry

definition label_ok :: "string \<Rightarrow> bool" where
  "label_ok value \<longleftrightarrow> value \<noteq> [] \<and> length value \<le> 63 \<and>
     list_all (\<lambda>byte. is_ascii_alnum byte \<or> byte = CHR ''.'' \<or> byte = CHR ''_'' \<or> byte = CHR ''-'') value"

definition agent_identity_new :: "string \<Rightarrow> string \<Rightarrow> (registry_error, agent_identity) result" where
  "agent_identity_new tenant agent_id =
     (if \<not> label_ok tenant then Inl (BadTenant tenant)
      else if \<not> label_ok agent_id then Inl (BadAgentId agent_id)
      else Inr \<lparr>ai_tenant = tenant, ai_agent_id = agent_id\<rparr>)"

definition canonical_key :: "agent_identity \<Rightarrow> string" where
  "canonical_key i = ai_tenant i @ ''/'' @ ai_agent_id i"

section \<open>Comparing tokens\<close>

definition byte :: "char \<Rightarrow> 8 word" where
  "byte c = word_of_nat (of_char c)"

definition constant_time_eq :: "string \<Rightarrow> string \<Rightarrow> bool" where
  "constant_time_eq supplied expected \<longleftrightarrow>
     (if length supplied \<noteq> length expected then False
      else fold (\<lambda>i diff. diff OR (byte (supplied ! i) XOR byte (expected ! i))) [0..<length expected] 0 = 0)"

section \<open>The registry of agents\<close>

type_synonym agent_registry = "(string \<times> agent_identity) list"

definition single :: "string \<Rightarrow> agent_registry" where
  "single token = [(token, \<lparr>ai_tenant = ''_legacy_unqualified'', ai_agent_id = ''bearer-agent''\<rparr>)]"

definition agent_entry :: "string \<Rightarrow> (registry_error, string \<times> agent_identity) result" where
  "agent_entry entry =
     (case split_once CHR '':'' entry of
        None \<Rightarrow> Inl (MissingColon entry)
      | Some (i, t) \<Rightarrow>
          (let id = trim i; token = trim t in
           if token = [] then Inl (EmptyToken id)
           else case split_once CHR ''/'' id of
              None \<Rightarrow> Inl (Unqualified id)
            | Some (tenant, agent) \<Rightarrow>
                if CHR ''/'' \<in> set agent then Inl (NotTenantAgent id)
                else map_result (Pair token) (agent_identity_new tenant agent)))"

text \<open>
  The loop of both registries over the pieces of a specification; \<open>key\<close> is the text of an identity in
  the message about a duplicate.
\<close>

fun registry_entries ::
  "(string \<Rightarrow> (registry_error, string \<times> 'i) result) \<Rightarrow> ('i \<Rightarrow> string) \<Rightarrow> string list \<Rightarrow> (string \<times> 'i) list \<Rightarrow>
   (registry_error, (string \<times> 'i) list) result"
where
  "registry_entries entry key [] by_token = (if by_token = [] then Inl EmptyRegistry else Inr by_token)"
| "registry_entries entry key (raw # raws) by_token =
     (if trim raw = [] then registry_entries entry key raws by_token
      else case entry (trim raw) of
        Inl e \<Rightarrow> Inl e
      | Inr (token, identity) \<Rightarrow>
          (case map_of by_token token of
             Some existing \<Rightarrow> Inl (DuplicateToken (key existing) (key identity))
           | None \<Rightarrow> registry_entries entry key raws (by_token @ [(token, identity)])))"

definition parse_agents :: "string \<Rightarrow> (registry_error, agent_registry) result" where
  "parse_agents spec = registry_entries agent_entry canonical_key (split_on CHR '','' spec) []"

definition lookup_agent :: "agent_registry \<Rightarrow> string \<Rightarrow> agent_identity option" where
  "lookup_agent by_token token = map_option snd (find (\<lambda>(registered, _). constant_time_eq token registered) by_token)"

definition agent_ids :: "agent_registry \<Rightarrow> string list" where
  "agent_ids by_token = sort (map (canonical_key \<circ> snd) by_token)"

section \<open>The registry of operators\<close>

type_synonym tenant_registry = "(string \<times> string) list"

definition tenant_entry :: "string \<Rightarrow> (registry_error, string \<times> string) result" where
  "tenant_entry entry =
     (case split_once CHR '':'' entry of
        None \<Rightarrow> Inl (MissingColon entry)
      | Some (l, t) \<Rightarrow>
          (let tenant = trim l; token = trim t in
           and_then (agent_identity_new tenant ''operator'') (\<lambda>_.
             if token = [] then Inl (EmptyToken tenant) else Inr (token, tenant))))"

definition parse_deciders :: "string \<Rightarrow> (registry_error, tenant_registry) result" where
  "parse_deciders spec = registry_entries tenant_entry (\<lambda>tenant. tenant) (split_on CHR '','' spec) []"

definition lookup_tenant :: "tenant_registry \<Rightarrow> string \<Rightarrow> string option" where
  "lookup_tenant by_token token =
     map_option snd (find (\<lambda>(registered, _). constant_time_eq token registered) by_token)"

section \<open>The comparison is equality\<close>

lemma byte_inj: "byte c = byte d \<longleftrightarrow> c = d"
proof
  assume "byte c = byte d"
  then have "unat (byte c) = unat (byte d)" by simp
  moreover have "unat (byte e) = of_char e" for e
    by (simp add: byte_def unat_of_nat take_bit_eq_mod)
  ultimately show "c = d" by simp
qed simp

lemma or_zero_iff: "a OR b = 0 \<longleftrightarrow> a = 0 \<and> b = (0 :: 8 word)"
  by (metis or.right_neutral or_eq_0_iff)

lemma xor_zero_iff: "a XOR b = 0 \<longleftrightarrow> a = (b :: 8 word)"
proof
  assume "a XOR b = 0"
  moreover have "(a XOR b) XOR b = a" by (simp only: xor.assoc xor_self_eq xor.right_neutral)
  ultimately show "a = b" by simp
qed simp

lemma fold_or_zero:
  "fold (\<lambda>i diff. diff OR f i) xs (d :: 8 word) = 0 \<longleftrightarrow> d = 0 \<and> (\<forall>i \<in> set xs. f i = 0)"
  by (induction xs arbitrary: d) (auto simp: or_zero_iff)

lemma constant_time_eq_iff [simp]: "constant_time_eq supplied expected \<longleftrightarrow> supplied = expected"
proof (cases "length supplied = length expected")
  case True
  have "constant_time_eq supplied expected \<longleftrightarrow> (\<forall>i < length expected. supplied ! i = expected ! i)"
    using True by (auto simp: constant_time_eq_def fold_or_zero xor_zero_iff byte_inj)
  with True show ?thesis by (auto simp: list_eq_iff_nth_eq)
next
  case False
  then show ?thesis by (auto simp: constant_time_eq_def)
qed

section \<open>What a registry promises\<close>

text \<open>The entries of a specification: its pieces between commas, trimmed, blank ones skipped.\<close>

definition declared :: "string \<Rightarrow> string list" where
  "declared spec = filter (\<lambda>e. e \<noteq> []) (map trim (split_on CHR '','' spec))"

locale token_registry =
  fixes entry :: "string \<Rightarrow> (registry_error, string \<times> 'i) result"
    and parse :: "string \<Rightarrow> (registry_error, (string \<times> 'i) list) result"
    and lookup :: "(string \<times> 'i) list \<Rightarrow> string \<Rightarrow> 'i option"
  assumes parsed: "parse spec = Inr r \<Longrightarrow>
      r \<noteq> [] \<and> distinct (map fst r) \<and> list_all2 (\<lambda>e x. entry e = Inr x) (declared spec) r"
    and lookup_find: "lookup r token = map_option snd (find (\<lambda>x. fst x = token) r)"
    and entry_token: "entry e = Inr (token, i) \<Longrightarrow> token \<noteq> []"
begin

lemma lookup_Some:
  assumes "distinct (map fst r)"
  shows "lookup r token = Some i \<longleftrightarrow> (token, i) \<in> set r"
  using assms
proof (induction r)
  case Nil
  then show ?case by (simp add: lookup_find)
next
  case (Cons x r)
  obtain t j where x: "x = (t, j)" by fastforce
  show ?case
  proof (cases "t = token")
    case True
    with Cons.prems x have "(token, k) \<notin> set r" for k by force
    with True x show ?thesis by (auto simp: lookup_find)
  next
    case False
    with Cons x show ?thesis by (simp add: lookup_find)
  qed
qed

lemma lookup_declared:
  assumes "parse spec = Inr r" "mset r' = mset r"
  shows "lookup r' token = Some i \<longleftrightarrow> (\<exists>e \<in> set (declared spec). entry e = Inr (token, i))"
proof -
  have r: "distinct (map fst r)" "list_all2 (\<lambda>e x. entry e = Inr x) (declared spec) r"
    using parsed [OF assms(1)] by auto
  have "mset (map fst r') = mset (map fst r)" using assms(2) by simp
  then have "distinct (map fst r')" using r(1) by (metis mset_eq_imp_distinct_iff)
  moreover have "set r' = set r" using assms(2) by (rule mset_eq_setD)
  ultimately have "lookup r' token = Some i \<longleftrightarrow> (token, i) \<in> set r" by (simp add: lookup_Some)
  also have "\<dots> \<longleftrightarrow> (\<exists>e \<in> set (declared spec). entry e = Inr (token, i))"
    using r(2) by (induction rule: list_all2_induct) auto
  finally show ?thesis .
qed

lemma one_entry_per_token:
  assumes "parse spec = Inr r"
  shows "distinct (map (\<lambda>e. map_result fst (entry e)) (declared spec))"
proof -
  have r: "distinct (map fst r)" "list_all2 (\<lambda>e x. entry e = Inr x) (declared spec) r"
    using parsed [OF assms] by auto
  from r(2) have "map (\<lambda>e. map_result fst (entry e)) (declared spec) = map Inr (map fst r)"
    by (induction rule: list_all2_induct) auto
  then show ?thesis using r(1) by (auto simp: distinct_map inj_on_def)
qed

lemma blank_token_refused:
  assumes "parse spec = Inr r"
  shows "lookup r [] = None"
  using lookup_declared [OF assms refl, of "[]"] entry_token by (cases "lookup r []") auto

end

lemma registry_entries_Inr:
  "registry_entries entry key raws acc = Inr r \<Longrightarrow> distinct (map fst acc) \<Longrightarrow>
   r \<noteq> [] \<and> distinct (map fst r) \<and> (\<exists>new. r = acc @ new \<and>
     list_all2 (\<lambda>e x. entry e = Inr x) (filter (\<lambda>e. e \<noteq> []) (map trim raws)) new)"
proof (induction raws arbitrary: acc)
  case Nil
  then show ?case by (simp split: if_splits)
next
  case (Cons raw raws)
  show ?case
  proof (cases "trim raw = []")
    case True
    with Cons show ?thesis by simp
  next
    case False
    with Cons.prems(1) obtain token i where e: "entry (trim raw) = Inr (token, i)"
        and n: "map_of acc token = None"
        and rest: "registry_entries entry key raws (acc @ [(token, i)]) = Inr r"
      by (auto split: option.splits sum.splits)
    from n Cons.prems(2) have "distinct (map fst (acc @ [(token, i)]))" by (auto simp: map_of_eq_None_iff)
    from Cons.IH [OF rest this] False e show ?thesis by auto
  qed
qed

lemma registry_parsed:
  "registry_entries entry key (split_on CHR '','' spec) [] = Inr r \<Longrightarrow>
   r \<noteq> [] \<and> distinct (map fst r) \<and> list_all2 (\<lambda>e x. entry e = Inr x) (declared spec) r"
  using registry_entries_Inr [of entry key "split_on CHR '','' spec" "[]" r] by (auto simp: declared_def)

interpretation agents: token_registry agent_entry parse_agents lookup_agent
  by unfold_locales
     (auto simp: parse_agents_def lookup_agent_def agent_entry_def Let_def case_prod_beta
        dest: registry_parsed intro!: arg_cong [where f = "map_option snd"] find_cong
        split: option.splits if_splits)

interpretation operators: token_registry tenant_entry parse_deciders lookup_tenant
  by unfold_locales
     (auto simp: parse_deciders_def lookup_tenant_def tenant_entry_def Let_def case_prod_beta
        dest: registry_parsed intro!: arg_cong [where f = "map_option snd"] find_cong
        split: option.splits if_splits)

section \<open>Tokens identify agents\<close>

lemma agent_identity_new_Inr:
  "agent_identity_new tenant agent_id = Inr i \<longleftrightarrow>
   ai_tenant i = tenant \<and> ai_agent_id i = agent_id \<and> label_ok tenant \<and> label_ok agent_id"
  by (cases i) (auto simp: agent_identity_new_def)

lemma label_no_slash: "label_ok s \<Longrightarrow> CHR ''/'' \<notin> set s"
  by (auto simp: label_ok_def list_all_iff is_ascii_alnum_def)

lemma canonical_key_inj:
  assumes "label_ok (ai_tenant i)" "label_ok (ai_tenant j)" "canonical_key i = canonical_key j"
  shows "i = j"
proof -
  have "split_once CHR ''/'' (canonical_key k) = Some (ai_tenant k, ai_agent_id k)" if "label_ok (ai_tenant k)" for k
    using split_once_append [OF label_no_slash [OF that]] by (simp add: canonical_key_def)
  from this [OF assms(1)] this [OF assms(2)]
  have "Some (ai_tenant i, ai_agent_id i) = Some (ai_tenant j, ai_agent_id j)" unfolding assms(3) by (rule trans [OF sym])
  then show ?thesis by (intro agent_identity.equality) simp_all
qed

lemma agent_entry_Inr:
  "agent_entry e = Inr (token, i) \<longleftrightarrow>
   (\<exists>id t. split_once CHR '':'' e = Some (id, t) \<and> trim t = token \<and> token \<noteq> [] \<and> trim id = canonical_key i \<and>
     label_ok (ai_tenant i) \<and> label_ok (ai_agent_id i))"
  (is "_ \<longleftrightarrow> ?rhs")
proof
  assume "agent_entry e = Inr (token, i)"
  then show ?rhs
    by (auto simp: agent_entry_def Let_def agent_identity_new_Inr canonical_key_def
        dest!: split_once_SomeD split: option.splits if_splits)
next
  assume ?rhs
  then obtain id t where s: "split_once CHR '':'' e = Some (id, t)" "trim t = token" "token \<noteq> []"
      "trim id = canonical_key i" "label_ok (ai_tenant i)" "label_ok (ai_agent_id i)"
    by blast
  have "split_once CHR ''/'' (trim id) = Some (ai_tenant i, ai_agent_id i)"
    using split_once_append [OF label_no_slash [OF s(5)]] by (simp add: s(4) canonical_key_def)
  with s label_no_slash [OF s(6)] show "agent_entry e = Inr (token, i)"
    by (auto simp: agent_entry_def agent_identity_new_Inr)
qed

text \<open>
  C18. In whatever order the map is searched, a token is accepted for exactly the identity of the entry
  that declares it; no two entries declare the same token, no entry declares a blank one, and two
  declared identities with the same canonical key are equal.
\<close>

theorem tokens_identify_agents:
  assumes "parse_agents spec = Inr r" "mset r' = mset r"
  shows "(lookup_agent r' token = Some i \<longleftrightarrow>
      (\<exists>e \<in> set (declared spec). \<exists>id t. split_once CHR '':'' e = Some (id, t) \<and> trim t = token \<and> token \<noteq> [] \<and>
        trim id = canonical_key i \<and> label_ok (ai_tenant i) \<and> label_ok (ai_agent_id i))) \<and>
    distinct (map (\<lambda>e. map_result fst (agent_entry e)) (declared spec)) \<and>
    (\<forall>j token'. lookup_agent r' token = Some i \<and> lookup_agent r' token' = Some j \<and>
      canonical_key i = canonical_key j \<longrightarrow> i = j)"
  using agents.lookup_declared [OF assms] agents.one_entry_per_token [OF assms(1)] canonical_key_inj
  by (auto simp: agent_entry_Inr)

theorem tokens_identify_agents_witness:
  "lookup_agent [(''other'', \<lparr>ai_tenant = ''ops'', ai_agent_id = ''bot''\<rparr>),
      (''s3cret'', \<lparr>ai_tenant = ''acme'', ai_agent_id = ''bot''\<rparr>)] ''other'' =
    Some \<lparr>ai_tenant = ''ops'', ai_agent_id = ''bot''\<rparr>"
proof -
  let ?spec = "''acme/bot:s3cret, ops/bot:other''"
  let ?i = "\<lparr>ai_tenant = ''ops'', ai_agent_id = ''bot''\<rparr>" and ?j = "\<lparr>ai_tenant = ''acme'', ai_agent_id = ''bot''\<rparr>"
  have p: "parse_agents ?spec = Inr [(''s3cret'', ?j), (''other'', ?i)]" by code_simp
  have "label_ok ''ops'' \<and> label_ok ''bot'' \<and> ''ops/bot:other'' \<in> set (declared ?spec) \<and> trim ''other'' = ''other'' \<and>
      split_once CHR '':'' ''ops/bot:other'' = Some (''ops/bot'', ''other'') \<and> trim ''ops/bot'' = canonical_key ?i"
    by code_simp
  moreover have "mset [(''other'', ?i), (''s3cret'', ?j)] = mset [(''s3cret'', ?j), (''other'', ?i)]" by simp
  ultimately show ?thesis
    using tokens_identify_agents [OF p, of "[(''other'', ?i), (''s3cret'', ?j)]" "''other''" ?i] by auto
qed

end
