(* ===== verification/World.thy ===== *)
theory World
  imports Exec_Contract Supply_Chain Rate_Limit Policy Outbound_Callback Upstream_Adapter Registry
begin

text \<open>
  What the proxy's handlers work on: the fixed configuration (\<open>AppState\<close>), the mutable world, the
  responses, and the handlers' control flow (a step either answers the request or goes on). At the
  end, the rules by which a relation between connections is kept by a handler.
\<close>

section \<open>Configuration\<close>

datatype clavenar_mode = Enforce | Observe

fun mode_as_str :: "clavenar_mode \<Rightarrow> string" where
  "mode_as_str Enforce = ''enforce''"
| "mode_as_str Observe = ''observe''"

text \<open>
  The components of \<open>AppState\<close> with mutable state are in the world below; the policy engine is
  represented by its velocity window, the rate limiter by its configuration.
\<close>

record app_state =
  st_velocity_window :: nat
  st_upstream_url :: string
  st_upstream_adapter :: upstream_adapter
  st_agents :: "agent_registry option"
  st_deciders :: "tenant_registry option"
  st_decide_token :: "string option"
  st_upstream_api_key :: "string option"
  st_mode :: clavenar_mode
  st_slack_webhook_url :: "string option"
  st_callback_allowlist :: "string list"
  st_webhook_url :: "string option"
  st_rate_limiter :: "rate_limit_config option"
  st_verbose_verdicts :: bool

section \<open>Responses\<close>

text \<open>
  The plain-text messages of the handlers, by their kind: their wording includes error texts of
  third-party code.
\<close>

datatype reason =
    InvalidJsonRpcBody
  | EmptyMethod
  | AdapterRefuses adapter_error
  | BadBearerToken
  | BadTenantToken
  | BadDecideToken
  | CallbackWithoutAllowlist
  | CallbackRejected target_error
  | UpstreamUnreachable adapter_error
  | ParkFailed
  | InternalLedgerError
  | InvalidDecisionBody
  | InvalidDecisionText string
  | NoSuchPending string
  | PendingAlreadyDecided
  | UnknownStatusFilter string
  | UnknownSort string

datatype response_body = Message reason | Json json | Raw string

text \<open>
  The headers are those that the program sets itself: axum adds a content type that fits the body
  when there is none.
\<close>

record response =
  rs_status :: nat
  rs_headers :: headers
  rs_body :: response_body

datatype outcome = Respond response | Panic

section \<open>The world\<close>

text \<open>
  A request that went to the upstream, with what the proxy knew when it sent it: the agent, the
  binding of the server execution and the verdict, the latter two absent for a control method. They
  are kept for the properties; no operation reads them.
\<close>

record verdict =
  vd_brain :: heuristic_verdict
  vd_policy :: policy_decision
  vd_tier :: tier
  vd_reasoning :: string

record attempt =
  at_request :: upstream_request
  at_agent :: agent_identity
  at_method :: string
  at_execution :: "server_execution_binding option"
  at_verdict :: "verdict option"

datatype notification =
    VerdictWebhook string json
  | SlackAlert string pending
  | DecisionCallback string "string list" string

record world =
  w_conn :: conn
  w_buckets :: buckets
  w_velocity :: velocity_map
  w_pins :: tool_pins
  w_sent :: "attempt list"
  w_notes :: "notification list"
  w_in_flight :: nat

text \<open>What one step of a handler reads from its environment besides the connection's.\<close>

record request_env =
  re_now :: instant
  re_wall :: time
  re_worker :: "string option"
  re_net :: network

section \<open>Steps of a handler\<close>

type_synonym ('e, 'a) act = "world \<Rightarrow> ('e, 'a) result \<times> world"

definition go_on :: "'a \<Rightarrow> ('e, 'a) act" where
  "go_on x w = (Inr x, w)"

definition answer :: "response \<Rightarrow> (outcome, 'a) act" where
  "answer r w = (Inl (Respond r), w)"

definition panic :: "(outcome, 'a) act" where
  "panic w = (Inl Panic, w)"

definition then_act :: "('e, 'a) act \<Rightarrow> ('a \<Rightarrow> ('e, 'b) act) \<Rightarrow> ('e, 'b) act" where
  "then_act m f w = (case m w of (Inl e, w') \<Rightarrow> (Inl e, w') | (Inr x, w') \<Rightarrow> f x w')"

text \<open>A ledger call whose result the handler inspects.\<close>

definition on_conn :: "('r, 'a) db \<Rightarrow> ('e, ('r, 'a) result) act" where
  "on_conn m w = (let (r, c) = m (w_conn w) in (Inr r, w\<lparr>w_conn := c\<rparr>))"

text \<open>\<open>Uuid::new_v4().to_string()\<close> and \<open>Utc::now()\<close>.\<close>

definition fresh_id :: "lib \<Rightarrow> ('e, string) act" where
  "fresh_id L w = (Inr (show_uuid L (fresh (w_conn w) (calls (w_conn w)))), w\<lparr>w_conn := tick (w_conn w)\<rparr>)"

definition wall_clock :: "('e, time) act" where
  "wall_clock w = (Inr (clock (w_conn w) (calls (w_conn w))), w\<lparr>w_conn := tick (w_conn w)\<rparr>)"

section \<open>Notifications\<close>

definition MAX_IN_FLIGHT_NOTIFICATIONS :: nat where
  "MAX_IN_FLIGHT_NOTIFICATIONS = 32"

text \<open>\<open>spawn_notification\<close>: a permit is taken, or the event is dropped; a finished task returns its permit.\<close>

definition spawn_notification :: "notification \<Rightarrow> ('e, unit) act" where
  "spawn_notification n w =
     (if w_in_flight w < MAX_IN_FLIGHT_NOTIFICATIONS
      then (Inr (), w\<lparr>w_in_flight := Suc (w_in_flight w), w_notes := w_notes w @ [n]\<rparr>)
      else (Inr (), w))"

definition notification_done :: "world \<Rightarrow> world" where
  "notification_done w = w\<lparr>w_in_flight := w_in_flight w - 1\<rparr>"

record webhook_event =
  we_event :: string
  we_correlation_id :: string
  we_agent_id :: string
  we_tool_type :: string
  we_method :: string
  we_intent_category :: string
  we_reasoning :: string
  we_review_reasons :: "string list"
  we_mode :: string
  we_ts :: string

text \<open>\<open>serde_json::to_value\<close> of the event: a \<open>Value\<close> has its keys in order.\<close>

definition event_json :: "webhook_event \<Rightarrow> json" where
  "event_json e = json_obj
     [(''event'', JStr (we_event e)), (''correlation_id'', JStr (we_correlation_id e)),
      (''agent_id'', JStr (we_agent_id e)), (''tool_type'', JStr (we_tool_type e)),
      (''method'', JStr (we_method e)), (''intent_category'', JStr (we_intent_category e)),
      (''reasoning'', JStr (we_reasoning e)), (''review_reasons'', jstrs (we_review_reasons e)),
      (''mode'', JStr (we_mode e)), (''ts'', JStr (we_ts e))]"

definition now_rfc3339 :: "lib \<Rightarrow> ('e, string) act" where
  "now_rfc3339 L = then_act wall_clock (\<lambda>now. go_on (show_millis L now))"

definition maybe_fire_webhook :: "app_state \<Rightarrow> webhook_event \<Rightarrow> ('e, unit) act" where
  "maybe_fire_webhook A event =
     (case st_webhook_url A of
        None \<Rightarrow> go_on ()
      | Some url \<Rightarrow> spawn_notification (VerdictWebhook url (event_json event)))"

section \<open>What a step keeps\<close>

definition keeps_act :: "(world \<Rightarrow> world \<Rightarrow> bool) \<Rightarrow> ('e, 'a) act \<Rightarrow> bool" where
  "keeps_act R m \<longleftrightarrow> (\<forall>w r w'. clock_ok (w_conn w) \<longrightarrow> m w = (r, w') \<longrightarrow> R w w')"

text \<open>The connections are related and the upstream received nothing.\<close>

definition quiet_step :: "(conn \<Rightarrow> conn \<Rightarrow> bool) \<Rightarrow> world \<Rightarrow> world \<Rightarrow> bool" where
  "quiet_step R w w' \<longleftrightarrow> R (w_conn w) (w_conn w') \<and> w_sent w' = w_sent w"

lemma keeps_actD: "keeps_act R m \<Longrightarrow> clock_ok (w_conn w) \<Longrightarrow> m w = (r, w') \<Longrightarrow> R w w'"
  by (simp add: keeps_act_def)

context db_relation
begin

lemma act_go_on: "keeps_act (quiet_step R) (go_on x)"
  by (auto simp: keeps_act_def go_on_def quiet_step_def rel_refl)

lemma act_answer: "keeps_act (quiet_step R) (answer r)"
  by (auto simp: keeps_act_def answer_def quiet_step_def rel_refl)

lemma act_panic: "keeps_act (quiet_step R) panic"
  by (auto simp: keeps_act_def panic_def quiet_step_def rel_refl)

lemma act_fresh: "keeps_act (quiet_step R) (fresh_id L)"
  by (auto simp: keeps_act_def fresh_id_def quiet_step_def rel_tick)

lemma act_clock: "keeps_act (quiet_step R) wall_clock"
  by (auto simp: keeps_act_def wall_clock_def quiet_step_def rel_tick)

lemma act_spawn: "keeps_act (quiet_step R) (spawn_notification n)"
  by (auto simp: keeps_act_def spawn_notification_def quiet_step_def rel_refl)

lemma act_conn: "keeps R m \<Longrightarrow> keeps_act (quiet_step R) (on_conn m)"
  by (auto simp: keeps_act_def on_conn_def quiet_step_def keeps_def split: prod.splits)

lemma act_then:
  assumes "keeps_act (quiet_step R) m" "\<And>x. keeps_act (quiet_step R) (f x)"
  shows "keeps_act (quiet_step R) (then_act m f)"
proof -
  have "quiet_step R w w'" if c: "clock_ok (w_conn w)" and t: "then_act m f w = (r, w')" for w r w'
  proof -
    obtain r1 w1 where m: "m w = (r1, w1)" by fastforce
    with assms(1) c have q: "quiet_step R w w1" by (rule keeps_actD)
    then have "clock_ok (w_conn w1)" using c rel_clock by (auto simp: quiet_step_def)
    with assms(2) have "f x w1 = (r, w') \<Longrightarrow> quiet_step R w1 w'" for x by (meson keeps_actD)
    with t m q show ?thesis
      by (auto simp: then_act_def quiet_step_def split: sum.splits intro: compose)
  qed
  then show ?thesis by (auto simp: keeps_act_def)
qed

lemma act_now: "keeps_act (quiet_step R) (now_rfc3339 L)"
  unfolding now_rfc3339_def by (intro act_then act_clock act_go_on)

lemma act_webhook: "keeps_act (quiet_step R) (maybe_fire_webhook A e)"
  unfolding maybe_fire_webhook_def by (auto intro: act_go_on act_spawn split: option.splits)

lemmas act_rules = act_go_on act_answer act_panic act_fresh act_clock act_spawn act_conn act_then
  act_now act_webhook

end

end
