(* ===== verification/Proxy.thy ===== *)
theory Proxy
  imports World
begin

text \<open>
  The request vocabulary of \<open>proxy.rs\<close> (contract selectors, response headers, error responses) and the
  handlers of the review queue: list, poll and decide, with the notifications they start.
\<close>

section \<open>Constants\<close>

text \<open>Header names are compared in lower case, so the constants are given in lower case.\<close>

definition CORRELATION_HEADER :: string where
  "CORRELATION_HEADER = ''x-clavenar-correlation-id''"

definition DECISION_CONTRACT_HEADER :: string where
  "DECISION_CONTRACT_HEADER = ''x-clavenar-decision-contract''"

definition LEGACY_EXECUTION_CONTRACT_HEADER :: string where
  "LEGACY_EXECUTION_CONTRACT_HEADER = ''x-clavenar-execution-contract''"

definition IDEMPOTENCY_ID_HEADER :: string where
  "IDEMPOTENCY_ID_HEADER = ''x-clavenar-idempotency-id''"

definition SERVER_EXECUTION_CONTRACT_HEADER :: string where
  "SERVER_EXECUTION_CONTRACT_HEADER = ''x-clavenar-server-execution-contract''"

definition SERVER_EXECUTION_CONTRACT :: string where
  "SERVER_EXECUTION_CONTRACT = ''clavenar.server-execution/v1''"

definition DECISION_CONTRACT :: string where
  "DECISION_CONTRACT = ''clavenar.decision/v1''"

definition CLIENT_MIGRATION_CONTRACT :: string where
  "CLIENT_MIGRATION_CONTRACT = ''clavenar.client-migration/v1''"

definition CLIENT_MIGRATION_GUIDE :: string where
  "CLIENT_MIGRATION_GUIDE = ''https://clavenar.com/docs/sdk-migration/''"

definition PENDING_AUTHORIZATION_CONTRACT :: string where
  "PENDING_AUTHORIZATION_CONTRACT = ''clavenar.pending-authorization/v1''"

definition CALLBACK_HEADER :: string where
  "CALLBACK_HEADER = ''x-clavenar-callback-url''"

definition LIST_PENDING_DEFAULT_LIMIT :: nat where
  "LIST_PENDING_DEFAULT_LIMIT = 50"

definition LIST_PENDING_MAX_LIMIT :: nat where
  "LIST_PENDING_MAX_LIMIT = 500"

section \<open>Selectors\<close>

text \<open>The idempotency id of a request: a UUID in its canonical text.\<close>

definition canonical_id :: "lib \<Rightarrow> headers \<Rightarrow> uuid option" where
  "canonical_id L hs =
     (let raw_id = header_text IDEMPOTENCY_ID_HEADER hs;
          idempotency_id = Option.bind raw_id (parse_uuid L)
      in case (raw_id, idempotency_id) of
           (Some raw, Some i) \<Rightarrow> if show_uuid L i = raw then Some i else None
         | _ \<Rightarrow> None)"

definition contains_key :: "string \<Rightarrow> headers \<Rightarrow> bool" where
  "contains_key name hs \<longleftrightarrow> header name hs \<noteq> None"

definition parse_decision_request :: "lib \<Rightarrow> headers \<Rightarrow> (string, uuid option) result" where
  "parse_decision_request L hs =
     (if \<not> contains_key DECISION_CONTRACT_HEADER hs then
        (if contains_key LEGACY_EXECUTION_CONTRACT_HEADER hs \<or>
            contains_key IDEMPOTENCY_ID_HEADER hs \<and> \<not> contains_key SERVER_EXECUTION_CONTRACT_HEADER hs
         then Inl ''decision_selector_invalid'' else Inr None)
      else if contains_key SERVER_EXECUTION_CONTRACT_HEADER hs \<or> contains_key LEGACY_EXECUTION_CONTRACT_HEADER hs
      then Inl ''decision_selector_conflict''
      else case canonical_id L hs of
          Some i \<Rightarrow> if header_text DECISION_CONTRACT_HEADER hs = Some DECISION_CONTRACT then Inr (Some i)
                    else Inl ''decision_selector_invalid''
        | None \<Rightarrow> Inl ''decision_selector_invalid'')"

definition parse_server_execution_request :: "lib \<Rightarrow> headers \<Rightarrow> (string, uuid option) result" where
  "parse_server_execution_request L hs =
     (if \<not> contains_key SERVER_EXECUTION_CONTRACT_HEADER hs then Inr None
      else if contains_key DECISION_CONTRACT_HEADER hs \<or> contains_key LEGACY_EXECUTION_CONTRACT_HEADER hs
      then Inl ''server_execution_selector_conflict''
      else case canonical_id L hs of
          Some i \<Rightarrow> if header_text SERVER_EXECUTION_CONTRACT_HEADER hs = Some SERVER_EXECUTION_CONTRACT
                    then Inr (Some i) else Inl ''server_execution_selector_invalid''
        | None \<Rightarrow> Inl ''server_execution_selector_invalid'')"

section \<open>Responses\<close>

definition clavenar_headers :: "string \<Rightarrow> clavenar_mode \<Rightarrow> bool \<Rightarrow> bool \<Rightarrow> headers" where
  "clavenar_headers correlation_id mode would_deny would_pend =
     [(CORRELATION_HEADER, Text correlation_id), (''x-clavenar-mode'', Text (mode_as_str mode))] @
     (if would_deny then [(''x-clavenar-would-deny'', Text ''true'')] else []) @
     (if would_pend then [(''x-clavenar-would-pend'', Text ''true'')] else [])"

abbreviation plain :: "nat \<Rightarrow> string \<Rightarrow> clavenar_mode \<Rightarrow> response_body \<Rightarrow> response" where
  "plain status correlation_id mode body \<equiv>
     \<lparr>rs_status = status, rs_headers = clavenar_headers correlation_id mode False False, rs_body = body\<rparr>"

definition server_execution_error :: "nat \<Rightarrow> string \<Rightarrow> string \<Rightarrow> clavenar_mode \<Rightarrow> response" where
  "server_execution_error status error correlation_id mode = plain status correlation_id mode (Json (json_obj
     [(''contract'', JStr SERVER_EXECUTION_CONTRACT), (''error'', JStr error),
      (''correlation_id'', JStr correlation_id), (''executable'', JBool False)]))"

definition decision_error :: "string \<Rightarrow> string \<Rightarrow> clavenar_mode \<Rightarrow> response" where
  "decision_error error correlation_id mode = plain 400 correlation_id mode (Json (json_obj
     [(''contract'', JStr DECISION_CONTRACT), (''error'', JStr error),
      (''correlation_id'', JStr correlation_id), (''executable'', JBool False)]))"

definition client_migration_required :: "string \<Rightarrow> clavenar_mode \<Rightarrow> response" where
  "client_migration_required correlation_id mode = plain 426 correlation_id mode (Json (json_obj
     [(''contract'', JStr CLIENT_MIGRATION_CONTRACT), (''error'', JStr ''client_contract_required''),
      (''correlation_id'', JStr correlation_id), (''executable'', JBool False),
      (''migration_url'', JStr CLIENT_MIGRATION_GUIDE),
      (''supported_selectors'', json_obj
         [(''decision'', json_obj
             [(''header'', JStr DECISION_CONTRACT_HEADER), (''value'', JStr DECISION_CONTRACT)]),
          (''server_execution'', json_obj
             [(''header'', JStr SERVER_EXECUTION_CONTRACT_HEADER), (''value'', JStr SERVER_EXECUTION_CONTRACT)])])]))"

text \<open>\<open>StatusCode::from_u16\<close>, and the bytes that \<open>HeaderValue::from_str\<close> accepts.\<close>

definition status_code :: "nat \<Rightarrow> nat option" where
  "status_code n = (if 100 \<le> n \<and> n < 1000 then Some n else None)"

definition header_value_ok :: "string \<Rightarrow> bool" where
  "header_value_ok s \<longleftrightarrow>
     list_all (\<lambda>c. let b = (of_char c :: nat) in 32 \<le> b \<and> b \<noteq> 127 \<and> b < 128 \<or> b = 9) s"

definition server_execution_response ::
  "lib \<Rightarrow> server_execution_completed \<Rightarrow> string \<Rightarrow> clavenar_mode \<Rightarrow> bool \<Rightarrow> bool \<Rightarrow> bool \<Rightarrow> response"
where
  "server_execution_response L completed correlation_id mode replayed would_deny would_pend =
     \<lparr>rs_status = (case status_code (ec_status completed) of None \<Rightarrow> 503 | Some s \<Rightarrow> s),
      rs_headers = clavenar_headers correlation_id mode would_deny would_pend @
        [(''x-clavenar-execution-id'', Text (ec_execution_id completed)),
         (''x-clavenar-result-sha256'', Text (ec_result_sha256 completed)),
         (''x-clavenar-server-execution-replayed'', Text (if replayed then ''true'' else ''false'')),
         (''x-clavenar-server-execution-receipt-sha256'',
            Text (''sha256:'' @ sha256_hex L (ec_receipt_json completed)))] @
        (case ec_content_type completed of
           None \<Rightarrow> []
         | Some ct \<Rightarrow> if header_value_ok ct then [(''content-type'', Text ct)] else []),
      rs_body = Raw (ec_body completed)\<rparr>"

section \<open>Operators and agents\<close>

definition bearer :: "headers \<Rightarrow> string option" where
  "bearer hs = Option.bind (header_text ''authorization'' hs) (strip_prefix ''Bearer '')"

definition resolve_operator_tenant :: "app_state \<Rightarrow> headers \<Rightarrow> (reason, string option) result" where
  "resolve_operator_tenant A hs =
     (case st_deciders A of
        Some registry \<Rightarrow> map_result Some (ok_or BadTenantToken (Option.bind (bearer hs) (lookup_tenant registry)))
      | None \<Rightarrow>
          (case st_decide_token A of
             Some expected \<Rightarrow>
               (case bearer hs of
                  Some token \<Rightarrow> if constant_time_eq token expected then Inr (Some ''_legacy_unqualified'')
                                else Inl BadDecideToken
                | None \<Rightarrow> Inl BadDecideToken)
           | None \<Rightarrow> Inr None))"

text \<open>The agent of a request; without a registry every caller is \<open>anonymous\<close>.\<close>

definition ANONYMOUS :: agent_identity where
  "ANONYMOUS = \<lparr>ai_tenant = ''_legacy_unqualified'', ai_agent_id = ''anonymous''\<rparr>"

definition resolve_agent :: "app_state \<Rightarrow> headers \<Rightarrow> agent_identity option" where
  "resolve_agent A hs =
     (case st_agents A of
        Some registry \<Rightarrow> Option.bind (bearer hs) (lookup_agent registry)
      | None \<Rightarrow> Some ANONYMOUS)"

section \<open>The queue's handlers\<close>

record decide_request =
  dr_decision :: string
  dr_note :: "string option"

record list_pending_params =
  lp_status :: "string option"
  lp_limit :: "nat option"
  lp_sort :: "string option"

fun pending_status :: "string option \<Rightarrow> string" where
  "pending_status None = ''pending''"
| "pending_status (Some d) =
     (if d = ''allow'' then ''approved'' else if d = ''deny'' then ''denied'' else ''invalid'')"

definition pending_view :: "lib \<Rightarrow> pending \<Rightarrow> json" where
  "pending_view L p = JObj
     [(''contract'', JStr PENDING_AUTHORIZATION_CONTRACT), (''status'', JStr (pending_status (pd_decision p))),
      (''pending_id'', JStr (pd_correlation_id p)), (''correlation_id'', JStr (pd_correlation_id p)),
      (''tenant'', JStr (pd_tenant p)), (''agent_id'', JStr (pd_agent_id p)),
      (''tool_type'', JStr (pd_tool_type p)), (''method'', JStr (pd_method p)),
      (''review_reasons'', jstrs (pd_review_reasons p)),
      (''requested_at'', JStr (show_time L (pd_requested_at p))),
      (''decided_at'', jopt (\<lambda>t. JStr (show_time L t)) (pd_decided_at p)),
      (''decision'', jopt JStr (pd_decision p)), (''decider_note'', jopt JStr (pd_decider_note p))]"

definition list_filter :: "list_pending_params \<Rightarrow> (reason, pending_filter) result" where
  "list_filter params =
     (case lp_status params of
        None \<Rightarrow> Inr Parked
      | Some s \<Rightarrow> if s = ''parked'' then Inr Parked else if s = ''decided'' then Inr Decided
                  else if s = ''all'' then Inr AllPendings else Inl (UnknownStatusFilter s))"

definition list_sort :: "list_pending_params \<Rightarrow> pending_filter \<Rightarrow> (reason, pending_sort) result" where
  "list_sort params filt =
     (case lp_sort params of
        None \<Rightarrow> Inr (if filt = Parked then Oldest else Newest)
      | Some s \<Rightarrow> if s = ''oldest'' then Inr Oldest else if s = ''newest'' then Inr Newest
                  else Inl (UnknownSort s))"

definition handle_list_pendings :: "lib \<Rightarrow> app_state \<Rightarrow> list_pending_params \<Rightarrow> headers \<Rightarrow> (outcome, response) act" where
  "handle_list_pendings L A params hs =
     then_act (fresh_id L) (\<lambda>corr.
     case resolve_operator_tenant A hs of
       Inl message \<Rightarrow> answer (plain 401 corr (st_mode A) (Message message))
     | Inr operator_tenant \<Rightarrow>
     (case list_filter params of
       Inl message \<Rightarrow> answer (plain 400 corr (st_mode A) (Message message))
     | Inr filt \<Rightarrow>
     (case list_sort params filt of
       Inl message \<Rightarrow> answer (plain 400 corr (st_mode A) (Message message))
     | Inr direction \<Rightarrow>
     let limit = min (case lp_limit params of None \<Rightarrow> LIST_PENDING_DEFAULT_LIMIT | Some n \<Rightarrow> n) LIST_PENDING_MAX_LIMIT
     in then_act (on_conn (case operator_tenant of
            Some tenant \<Rightarrow> list_pendings_for_tenant L filt limit direction tenant
          | None \<Rightarrow> list_pendings L filt limit direction)) (\<lambda>rows.
        case rows of
          Inr ps \<Rightarrow> answer (plain 200 corr (st_mode A) (Json (JArr (map (pending_view L) ps))))
        | Inl e \<Rightarrow> answer (plain 500 corr (st_mode A) (Message InternalLedgerError))))))"

definition handle_get_pending :: "lib \<Rightarrow> app_state \<Rightarrow> string \<Rightarrow> headers \<Rightarrow> (outcome, response) act" where
  "handle_get_pending L A i hs =
     then_act (fresh_id L) (\<lambda>poll_corr.
     case resolve_agent A hs of
       None \<Rightarrow> answer (plain 401 poll_corr (st_mode A) (Message BadBearerToken))
     | Some poll_identity \<Rightarrow>
         then_act (on_conn (get_pending_for_agent L i (ai_tenant poll_identity) (ai_agent_id poll_identity))) (\<lambda>found.
         case found of
           Inr (Some p) \<Rightarrow> answer (plain 200 poll_corr (st_mode A) (Json (pending_view L p)))
         | Inr None \<Rightarrow> answer (plain 404 poll_corr (st_mode A) (Message (NoSuchPending i)))
         | Inl e \<Rightarrow> answer (plain 500 poll_corr (st_mode A) (Message InternalLedgerError))))"

definition format_decide_reasoning :: "pending \<Rightarrow> string" where
  "format_decide_reasoning p =
     (let reviews = (if pd_review_reasons p = [] then ''no review reasons'' else join_str '' | '' (pd_review_reasons p));
          note = (case pd_decider_note p of
             Some s \<Rightarrow> if s \<noteq> [] then '' | note: '' @ s else [] | None \<Rightarrow> [])
      in ''decide['' @ (case pd_decision p of Some d \<Rightarrow> d | None \<Rightarrow> ''?'') @ ''] review: '' @ reviews @ note)"

definition decide_log :: "pending \<Rightarrow> log_request" where
  "decide_log p =
     (let authorized = (pd_decision p = Some ''allow'') in
      \<lparr>lr_agent_id = pd_agent_id p, lr_method = pd_method p,
       lr_intent_category = (if authorized then ''PendingApproved'' else ''PendingDenied''),
       lr_authorized = authorized, lr_reasoning = format_decide_reasoning p,
       lr_policy_decision = None, lr_correlation_id = Some (pd_correlation_id p)\<rparr>)"

definition decide_event :: "app_state \<Rightarrow> pending \<Rightarrow> string \<Rightarrow> webhook_event" where
  "decide_event A p ts =
     \<lparr>we_event = (if pd_decision p = Some ''allow'' then ''decide_allow'' else ''decide_deny''),
      we_correlation_id = pd_correlation_id p, we_agent_id = pd_agent_id p, we_tool_type = pd_tool_type p,
      we_method = pd_method p, we_intent_category = ''OperatorDecide'',
      we_reasoning = format_decide_reasoning p, we_review_reasons = pd_review_reasons p,
      we_mode = mode_as_str (st_mode A), we_ts = ts\<rparr>"

definition callback_payload :: "lib \<Rightarrow> pending \<Rightarrow> string" where
  "callback_payload L p = print_json L (JObj
     [(''correlation_id'', JStr (pd_correlation_id p)),
      (''decision'', JStr (case pd_decision p of Some d \<Rightarrow> d | None \<Rightarrow> [])),
      (''decider_note'', jopt JStr (pd_decider_note p)),
      (''decided_at'', jopt (\<lambda>t. JStr (show_time L t)) (pd_decided_at p))])"

definition decide_refusal :: "string \<Rightarrow> decide_error \<Rightarrow> nat \<times> reason" where
  "decide_refusal i e =
     (case e of
        NotFound \<Rightarrow> (404, NoSuchPending i)
      | AlreadyDecided \<Rightarrow> (409, PendingAlreadyDecided)
      | InvalidDecision d \<Rightarrow> (400, InvalidDecisionText d)
      | Sqlite e \<Rightarrow> (500, InternalLedgerError))"

text \<open>
  \<open>decode\<close> is \<open>serde_json::from_slice::<DecideRequest>\<close>. A failed append to the ledger is only logged.
\<close>

definition handle_decide_pending ::
  "lib \<Rightarrow> (string \<Rightarrow> decide_request option) \<Rightarrow> app_state \<Rightarrow> string \<Rightarrow> headers \<Rightarrow> string \<Rightarrow> (outcome, response) act"
where
  "handle_decide_pending L decode A i hs body =
     then_act (fresh_id L) (\<lambda>decide_corr.
     case resolve_operator_tenant A hs of
       Inl message \<Rightarrow> answer (plain 401 decide_corr (st_mode A) (Message message))
     | Inr operator_tenant \<Rightarrow>
     (case decode body of
       None \<Rightarrow> answer (plain 400 decide_corr (st_mode A) (Message InvalidDecisionBody))
     | Some req \<Rightarrow>
     then_act (on_conn (case operator_tenant of
         Some tenant \<Rightarrow> decide_pending_for_tenant L i tenant (dr_decision req) (dr_note req)
       | None \<Rightarrow> decide_pending L i (dr_decision req) (dr_note req))) (\<lambda>decision.
     case decision of
       Inl e \<Rightarrow> answer (plain (fst (decide_refusal i e)) decide_corr (st_mode A) (Message (snd (decide_refusal i e))))
     | Inr p \<Rightarrow>
         then_act (on_conn (append_ledger L (decide_log p))) (\<lambda>_.
         then_act (now_rfc3339 L) (\<lambda>ts.
         then_act (maybe_fire_webhook A (decide_event A p ts)) (\<lambda>_.
         then_act (case pd_callback_url p of
             None \<Rightarrow> go_on ()
           | Some url \<Rightarrow> spawn_notification
               (DecisionCallback url (st_callback_allowlist A) (callback_payload L p))) (\<lambda>_.
         answer (plain 200 decide_corr (st_mode A) (Json (pending_view L p))))))))))"

section \<open>Notifications\<close>

definition newline :: string where
  "newline = [CHR 0x0A]"

definition format_pending_message :: "pending \<Rightarrow> string" where
  "format_pending_message p =
     (let reasons = (if pd_review_reasons p = [] then ''(none reported)''
            else join_str newline (map (\<lambda>r. ''  '' @ [CHR 0xE2, CHR 0x80, CHR 0xA2] @ '' '' @ r) (pd_review_reasons p)))
      in '':warning: *Clavenar parked a tool call for review*'' @ newline @ newline @
         ''*Tool:* `'' @ pd_tool_type p @ ''`'' @ newline @
         ''*Agent:* `'' @ pd_agent_id p @ ''`'' @ newline @
         ''*Correlation ID:* `'' @ pd_correlation_id p @ ''`'' @ newline @
         ''*Reasons:*'' @ newline @ reasons @ newline @ newline @
         ''Approve: `clavenar-lite pending decide '' @ pd_correlation_id p @ '' --allow`'' @ newline @
         ''Deny:    `clavenar-lite pending decide '' @ pd_correlation_id p @ '' --deny --note '' @
         [CHR 0x22, CHR 0xE2, CHR 0x80, CHR 0xA6, CHR 0x22] @ ''`'')"

text \<open>How a delivery ends; \<open>post\<close> is the network's answer, a status, to a POST of JSON text.\<close>

datatype delivery = Delivered | NonSuccess nat | SendFailure

fun delivery_of :: "nat option \<Rightarrow> delivery" where
  "delivery_of None = SendFailure"
| "delivery_of (Some status) = (if is_success status then Delivered else NonSuccess status)"

definition fire_event :: "lib \<Rightarrow> (string \<Rightarrow> string \<Rightarrow> nat option) \<Rightarrow> string \<Rightarrow> json \<Rightarrow> delivery" where
  "fire_event L post url body = delivery_of (post url (print_json L body))"

definition notify_pending_parked :: "lib \<Rightarrow> (string \<Rightarrow> string \<Rightarrow> nat option) \<Rightarrow> string \<Rightarrow> pending \<Rightarrow> delivery" where
  "notify_pending_parked L post webhook_url p =
     delivery_of (post webhook_url (print_json L (json_obj [(''text'', JStr (format_pending_message p))])))"

definition fire_callback ::
  "lib \<Rightarrow> callback_env \<Rightarrow> string \<Rightarrow> string list \<Rightarrow> string \<Rightarrow> out_request list \<times> delivery"
where
  "fire_callback L E url allowlist payload =
     (case post_json L E url payload allowlist of
        (sent, Inr status) \<Rightarrow> (sent, delivery_of (Some status))
      | (sent, Inl e) \<Rightarrow> (sent, SendFailure))"

section \<open>Callback URLs\<close>

definition validate_callback_url :: "lib \<Rightarrow> app_state \<Rightarrow> headers \<Rightarrow> (reason, string option) result" where
  "validate_callback_url L A hs =
     (case header_text CALLBACK_HEADER hs of
        None \<Rightarrow> Inr None
      | Some raw \<Rightarrow>
          (if raw = [] then Inr None
           else if st_callback_allowlist A = [] then Inl CallbackWithoutAllowlist
           else map_error CallbackRejected (map_result Some (validate_target L raw (st_callback_allowlist A)))))"

text \<open>The allowlist of the configuration, checked at the start; the arguments are the embedded contracts.\<close>

datatype allowlist_error = BrokenContract contract_error | BadEntry target_error

definition normalize_callback_allowlist ::
  "lib \<Rightarrow> string \<times> string \<Rightarrow> string \<times> string \<Rightarrow> string list \<Rightarrow> (allowlist_error, string list) result"
where
  "normalize_callback_allowlist L target_contract resolution_contract entries =
     and_then (map_error BrokenContract (validate_target_contract L (fst target_contract) (snd target_contract))) (\<lambda>_.
     and_then (map_error BrokenContract (validate_resolution_contract L (fst resolution_contract) (snd resolution_contract))) (\<lambda>_.
     map_error BadEntry (normalize_allowlist_strings L entries)))"

section \<open>Probes\<close>

definition health :: string where
  "health = ''Clavenar Lite is active.''"

definition readyz :: "nat \<times> json" where
  "readyz = (200, JObj [(''status'', JStr ''ready''), (''checks'', JObj [])])"

end
