(* ===== verification/Mcp_Handler.thy ===== *)
theory Mcp_Handler
  imports Proxy
begin

text \<open>
  The handler of \<open>POST /mcp\<close>. An asynchronous handler can be interleaved with others wherever it
  awaits, so it is a state machine: a \<open>task\<close> is a handler at one of its await points, and \<open>advance\<close>
  runs it to the next one. \<open>handle_mcp\<close> runs a task to its answer.
\<close>

section \<open>The request\<close>

record mcp_request =
  mr_method :: string
  mr_params :: "json option"
  mr_id :: "json option"
  mr_jsonrpc :: "string option"

definition is_mcp_control_method :: "string \<Rightarrow> bool" where
  "is_mcp_control_method m \<longleftrightarrow> m \<in> set [''initialize'', ''initialized'', ''notifications/initialized'',
     ''tools/list'', ''resources/list'', ''prompts/list'', ''ping'']"

text \<open>What the handler has established about a request once it is authenticated.\<close>

record mcp_context =
  cx_body :: string
  cx_headers :: headers
  cx_server_execution :: "uuid option"
  cx_decision :: "uuid option"
  cx_correlation_id :: string
  cx_request :: mcp_request
  cx_identity :: agent_identity

text \<open>The further facts about a tool call.\<close>

record call =
  cl_callback_url :: "string option"
  cl_tool_type :: string
  cl_binding :: "server_execution_binding option"

section \<open>Intake\<close>

definition select_contracts ::
  "lib \<Rightarrow> app_state \<Rightarrow> headers \<Rightarrow> string \<Rightarrow> (response, uuid option \<times> uuid option \<times> string) result"
where
  "select_contracts L A hs fallback =
     (case parse_server_execution_request L hs of
        Inl error \<Rightarrow> Inl (server_execution_error 400 error fallback (st_mode A))
      | Inr server_execution \<Rightarrow>
     (case parse_decision_request L hs of
        Inl error \<Rightarrow> Inl (decision_error error fallback (st_mode A))
      | Inr decision \<Rightarrow> Inr (server_execution, decision,
          (case server_execution of
             Some i \<Rightarrow> show_uuid L i
           | None \<Rightarrow> (case decision of Some i \<Rightarrow> show_uuid L i | None \<Rightarrow> fallback)))))"

text \<open>\<open>decode\<close> is \<open>serde_json::from_slice::<McpRequest>\<close>.\<close>

definition check_request ::
  "lib \<Rightarrow> (string \<Rightarrow> mcp_request option) \<Rightarrow> app_state \<Rightarrow> string \<Rightarrow> bool \<Rightarrow> string \<Rightarrow> (response, mcp_request) result"
where
  "check_request L decode A correlation_id selected body =
     (case decode body of
        None \<Rightarrow> Inl (plain 400 correlation_id (st_mode A) (Message InvalidJsonRpcBody))
      | Some parsed \<Rightarrow>
          (if mr_method parsed = [] then Inl (plain 400 correlation_id (st_mode A) (Message EmptyMethod))
           else case validate_request L (st_upstream_adapter A) body of
             Inl error \<Rightarrow> Inl (plain 400 correlation_id (st_mode A) (Message (AdapterRefuses error)))
           | Inr _ \<Rightarrow>
               if \<not> selected \<and> \<not> is_mcp_control_method (mr_method parsed)
               then Inl (client_migration_required correlation_id (st_mode A))
               else Inr parsed))"

definition intake ::
  "lib \<Rightarrow> (string \<Rightarrow> mcp_request option) \<Rightarrow> app_state \<Rightarrow> headers \<Rightarrow> string \<Rightarrow> string \<Rightarrow> (response, mcp_context) result"
where
  "intake L decode A hs body fallback =
     and_then (select_contracts L A hs fallback) (\<lambda>(server_execution, decision, correlation_id).
     and_then (check_request L decode A correlation_id (server_execution \<noteq> None \<or> decision \<noteq> None) body) (\<lambda>parsed.
     case resolve_agent A hs of
       None \<Rightarrow> Inl (plain 401 correlation_id (st_mode A) (Message BadBearerToken))
     | Some agent \<Rightarrow>
         if server_execution \<noteq> None \<and> st_agents A = None
         then Inl (server_execution_error 503 ''server_execution_identity_required'' correlation_id (st_mode A))
         else Inr \<lparr>cx_body = body, cx_headers = hs, cx_server_execution = server_execution, cx_decision = decision,
                cx_correlation_id = correlation_id, cx_request = parsed, cx_identity = agent\<rparr>))"

section \<open>The rate-limit gate\<close>

definition rate_limit_log :: "mcp_context \<Rightarrow> string \<Rightarrow> nat \<Rightarrow> log_request" where
  "rate_limit_log cx throttled retry_after_secs =
     \<lparr>lr_agent_id = throttled, lr_method = ''<unknown>'', lr_intent_category = ''RateLimitDenied'',
      lr_authorized = False,
      lr_reasoning = ''rate limit exceeded '' @ [CHR 0xE2, CHR 0x80, CHR 0x94] @ '' retry_after='' @
        show_nat retry_after_secs @ ''s'',
      lr_policy_decision = None, lr_correlation_id = Some (cx_correlation_id cx)\<rparr>"

definition rate_limited :: "lib \<Rightarrow> app_state \<Rightarrow> mcp_context \<Rightarrow> string \<Rightarrow> nat \<Rightarrow> response" where
  "rate_limited L A cx throttled retry_after_secs =
     plain 429 (cx_correlation_id cx) (st_mode A) (Raw (print_json L (json_obj
       [(''error'', JStr ''rate_limited''), (''agent_id'', JStr throttled),
        (''retry_after_secs'', JNum (Integral (int retry_after_secs))),
        (''correlation_id'', JStr (cx_correlation_id cx))])))"

definition check_limiter :: "app_state \<Rightarrow> instant \<Rightarrow> mcp_context \<Rightarrow> (outcome, rate_limit_outcome) act" where
  "check_limiter A now cx w =
     (case st_rate_limiter A of
        None \<Rightarrow> (Inr Allowed, w)
      | Some limiter \<Rightarrow>
          (let (res, bs) = check_rate limiter now (canonical_key (cx_identity cx)) (w_buckets w)
           in (Inr res, w\<lparr>w_buckets := bs\<rparr>)))"

section \<open>Control methods\<close>

text \<open>\<open>forward_control\<close>, up to the response of the upstream and from there on.\<close>

definition send_upstream ::
  "lib \<Rightarrow> app_state \<Rightarrow> network \<Rightarrow> mcp_context \<Rightarrow> server_execution_binding option \<Rightarrow> verdict option \<Rightarrow>
   (outcome, (adapter_error, forwarded_response) result) act"
where
  "send_upstream L A net cx binding v w =
     (let (sent, res) = forward L (st_upstream_adapter A) net (st_upstream_url A) (st_upstream_api_key A) (cx_body cx)
      in (Inr res, w\<lparr>w_sent := w_sent w @ (case sent of None \<Rightarrow> []
            | Some request \<Rightarrow> [\<lparr>at_request = request, at_agent = cx_identity cx, at_method = mr_method (cx_request cx),
                 at_execution = binding, at_verdict = v\<rparr>])\<rparr>))"

definition observe_control :: "lib \<Rightarrow> mcp_context \<Rightarrow> string \<Rightarrow> (outcome, unit) act" where
  "observe_control L cx body w =
     (if mr_method (cx_request cx) = ''tools/list''
      then let (pins, c) = observe_tools_list L (canonical_key (cx_identity cx)) (ai_agent_id (cx_identity cx)) body
             (w_pins w, w_conn w)
           in (Inr (), w\<lparr>w_pins := pins, w_conn := c\<rparr>)
      else (Inr (), w))"

definition relay :: "app_state \<Rightarrow> mcp_context \<Rightarrow> bool \<Rightarrow> bool \<Rightarrow> forwarded_response \<Rightarrow> response" where
  "relay A cx would_deny would_pend upstream =
     \<lparr>rs_status = (case status_code (fr_status upstream) of None \<Rightarrow> 500 | Some s \<Rightarrow> s),
      rs_headers = clavenar_headers (cx_correlation_id cx) (st_mode A) would_deny would_pend,
      rs_body = Raw (fr_body upstream)\<rparr>"

section \<open>The tool call\<close>

definition tool_type_of :: "mcp_request \<Rightarrow> string" where
  "tool_type_of parsed =
     (case Option.bind (Option.bind (mr_params parsed) (json_get ''name'')) as_str of
        Some name \<Rightarrow> name | None \<Rightarrow> mr_method parsed)"

text \<open>
  The binding of a server execution. The typed decoder may accept a body that the decoder of values
  refuses (it skips unknown members); the code's \<open>expect\<close> then panics, which is the result \<open>None\<close>.
\<close>

definition server_binding :: "lib \<Rightarrow> mcp_context \<Rightarrow> string \<Rightarrow> server_execution_binding option option" where
  "server_binding L cx tool_type =
     (case cx_server_execution cx of
        None \<Rightarrow> Some None
      | Some i \<Rightarrow>
          (case parse_json L (cx_body cx) of
             None \<Rightarrow> None
           | Some v \<Rightarrow>
               (let request_sha256 = ''sha256:'' @ sha256_hex L (print_json L v)
                in Some (Some \<lparr>sb_agent_id = ai_agent_id (cx_identity cx), sb_idempotency_id = i,
                     sb_correlation_id = cx_correlation_id cx, sb_route = ''/mcp'',
                     sb_method = mr_method (cx_request cx), sb_tool_name = tool_type,
                     sb_submitted_request_sha256 = request_sha256,
                     sb_effective_request_sha256 = request_sha256\<rparr>))))"

definition policy_input_of :: "mcp_context \<Rightarrow> string \<Rightarrow> heuristic_verdict \<Rightarrow> policy_input" where
  "policy_input_of cx tool_type brain =
     \<lparr>pi_tool_type = tool_type, pi_last_tool = None, pi_intent_score = hv_intent_score brain,
      pi_current_time = None, pi_agent_id = Some (canonical_key (cx_identity cx)),
      pi_method = Some (mr_method (cx_request cx)), pi_recent_request_count = 0,
      pi_correlation_id = Some (cx_correlation_id cx)\<rparr>"

definition build_reasoning :: "heuristic_verdict \<Rightarrow> policy_decision \<Rightarrow> string" where
  "build_reasoning brain policy =
     (let policy_reasons = (if pd_reasons policy = [] then ''no policy reasons'' else join_str '' | '' (pd_reasons policy));
          review = (if pd_policy_review_reasons policy = [] then []
            else '' | review: '' @ join_str '', '' (pd_policy_review_reasons policy))
      in ''brain['' @ hv_intent_category brain @ '']: '' @ hv_reasoning brain @ '' | policy: '' @ policy_reasons @ review)"

definition judge :: "lib \<Rightarrow> app_state \<Rightarrow> request_env \<Rightarrow> mcp_context \<Rightarrow> string \<Rightarrow> (outcome, verdict) act" where
  "judge L A E cx tool_type w =
     (let brain = inspect tool_type (from_utf8_lossy (cx_body cx));
          (policy, m) = evaluate L (st_velocity_window A) (re_now E) (re_wall E) (re_worker E)
            (policy_input_of cx tool_type brain) (w_velocity w)
      in (Inr \<lparr>vd_brain = brain, vd_policy = policy, vd_tier = classify brain policy,
            vd_reasoning = build_reasoning brain policy\<rparr>, w\<lparr>w_velocity := m\<rparr>))"

definition log_intent :: "verdict \<Rightarrow> string" where
  "log_intent v =
     (case vd_tier v of
        Green \<Rightarrow> hv_intent_category (vd_brain v)
      | Yellow \<Rightarrow> ''PendingReview''
      | Red \<Rightarrow> if hv_injection_detected (vd_brain v) then ''PromptInjection''
               else if \<not> pd_allow (vd_policy v) then ''PolicyDeny'' else ''BrainDeny'')"

definition verdict_log :: "mcp_context \<Rightarrow> verdict \<Rightarrow> log_request" where
  "verdict_log cx v =
     \<lparr>lr_agent_id = ai_agent_id (cx_identity cx), lr_method = mr_method (cx_request cx),
      lr_intent_category = log_intent v, lr_authorized = (vd_tier v = Green), lr_reasoning = vd_reasoning v,
      lr_policy_decision = Some (policy_json (vd_policy v)), lr_correlation_id = Some (cx_correlation_id cx)\<rparr>"

definition verdict_event :: "app_state \<Rightarrow> mcp_context \<Rightarrow> call \<Rightarrow> verdict \<Rightarrow> string \<Rightarrow> string \<Rightarrow> string \<Rightarrow> webhook_event" where
  "verdict_event A cx cl v event intent ts =
     \<lparr>we_event = event, we_correlation_id = cx_correlation_id cx, we_agent_id = ai_agent_id (cx_identity cx),
      we_tool_type = cl_tool_type cl, we_method = mr_method (cx_request cx), we_intent_category = intent,
      we_reasoning = vd_reasoning v, we_review_reasons = pd_policy_review_reasons (vd_policy v),
      we_mode = mode_as_str (st_mode A), we_ts = ts\<rparr>"

definition breakdown :: "heuristic_verdict \<Rightarrow> json" where
  "breakdown brain = JObj [(''detectors'', JArr
     [JObj [(''detector'', JStr ''injection''), (''score'', JNum (Double (hv_injection_confidence brain))),
        (''flagged'', JBool (hv_injection_detected brain))],
      JObj [(''detector'', JStr ''intent''), (''score'', JNum (Double (hv_intent_score brain)))]])]"

definition detail :: "app_state \<Rightarrow> verdict \<Rightarrow> (string \<times> json) list" where
  "detail A v = (if st_verbose_verdicts A then [(''detail'', breakdown (vd_brain v))] else [])"

definition pending_response :: "app_state \<Rightarrow> mcp_context \<Rightarrow> verdict \<Rightarrow> string list \<Rightarrow> response" where
  "pending_response A cx v review_reasons = plain 202 (cx_correlation_id cx) (st_mode A) (Json (JObj
     ([(''contract'', JStr PENDING_AUTHORIZATION_CONTRACT), (''status'', JStr ''pending''),
       (''pending_id'', JStr (cx_correlation_id cx)), (''correlation_id'', JStr (cx_correlation_id cx)),
       (''review_reasons'', jstrs review_reasons)] @ detail A v)))"

definition deny_response :: "app_state \<Rightarrow> mcp_context \<Rightarrow> verdict \<Rightarrow> response" where
  "deny_response A cx v =
     (let reasons = pd_reasons (vd_policy v) @
        (if hv_authorized (vd_brain v) then [] else [hv_reasoning (vd_brain v)])
      in plain 403 (cx_correlation_id cx) (st_mode A) (Json (JObj
        ([(''error'', JStr ''security_violation''), (''reasons'', jstrs reasons),
          (''review_reasons'', jstrs (pd_policy_review_reasons (vd_policy v))),
          (''intent_category'', JStr (hv_intent_category (vd_brain v)))] @ detail A v))))"

definition park_of :: "mcp_context \<Rightarrow> call \<Rightarrow> verdict \<Rightarrow> park_request" where
  "park_of cx cl v =
     \<lparr>pq_correlation_id = cx_correlation_id cx, pq_tenant = ai_tenant (cx_identity cx),
      pq_agent_id = ai_agent_id (cx_identity cx), pq_tool_type = cl_tool_type cl,
      pq_method = mr_method (cx_request cx), pq_review_reasons = pd_policy_review_reasons (vd_policy v),
      pq_callback_url = cl_callback_url cl\<rparr>"

definition decision_response :: "app_state \<Rightarrow> mcp_context \<Rightarrow> response" where
  "decision_response A cx = plain 200 (cx_correlation_id cx) (st_mode A) (Json (json_obj
     [(''contract'', JStr DECISION_CONTRACT), (''decision'', JStr ''allow''),
      (''correlation_id'', JStr (cx_correlation_id cx)), (''executable'', JBool False)]))"

section \<open>The stages\<close>

definition tool_call :: "lib \<Rightarrow> app_state \<Rightarrow> mcp_context \<Rightarrow> (outcome, string option) act" where
  "tool_call L A cx =
     (let control = is_mcp_control_method (mr_method (cx_request cx)) in
      case validate_callback_url L A (cx_headers cx) of
        Inl message \<Rightarrow> answer (plain 400 (cx_correlation_id cx) (st_mode A) (Message message))
      | Inr callback_url \<Rightarrow>
          if cx_server_execution cx \<noteq> None \<and> control
          then answer (server_execution_error 400 ''server_execution_tool_required'' (cx_correlation_id cx) (st_mode A))
          else if cx_decision cx \<noteq> None \<and> control
          then answer (decision_error ''decision_tool_required'' (cx_correlation_id cx) (st_mode A))
          else go_on callback_url)"

text \<open>The answers to an execution that must not be started, on its lookup and on its start.\<close>

definition refused :: "app_state \<Rightarrow> mcp_context \<Rightarrow> nat \<Rightarrow> string \<Rightarrow> (outcome, 'a) act" where
  "refused A cx status error = answer (server_execution_error status error (cx_correlation_id cx) (st_mode A))"

definition replay :: "lib \<Rightarrow> app_state \<Rightarrow> mcp_context \<Rightarrow> server_execution_binding \<Rightarrow> (outcome, unit) act" where
  "replay L A cx b = then_act (on_conn (inspect_server_execution L b)) (\<lambda>found.
     case found of
       Inr Missing \<Rightarrow> go_on ()
     | Inr (Completed completed) \<Rightarrow>
         answer (server_execution_response L completed (cx_correlation_id cx) (st_mode A) True False False)
     | Inr Uncertain \<Rightarrow> refused A cx 409 ''server_execution_uncertain''
     | Inr Started \<Rightarrow> refused A cx 409 ''server_execution_uncertain''
     | Inr Conflict \<Rightarrow> refused A cx 409 ''server_execution_idempotency_conflict''
     | Inl e \<Rightarrow> refused A cx 503 ''server_execution_storage_unavailable'')"

definition start :: "lib \<Rightarrow> app_state \<Rightarrow> mcp_context \<Rightarrow> server_execution_binding \<Rightarrow> verdict \<Rightarrow> (outcome, unit) act" where
  "start L A cx b v = then_act (on_conn (begin_server_execution L b)) (\<lambda>found.
     case found of
       Inr Started \<Rightarrow> go_on ()
     | Inr (Completed completed) \<Rightarrow>
         answer (server_execution_response L completed (cx_correlation_id cx) (st_mode A) True
           (vd_tier v = Red) (vd_tier v = Yellow))
     | Inr Uncertain \<Rightarrow> refused A cx 409 ''server_execution_uncertain''
     | Inr Conflict \<Rightarrow> refused A cx 409 ''server_execution_idempotency_conflict''
     | Inr Missing \<Rightarrow> refused A cx 503 ''server_execution_storage_unavailable''
     | Inl e \<Rightarrow> refused A cx 503 ''server_execution_storage_unavailable'')"

text \<open>Whether a human has approved the request; \<open>False\<close> when nobody was asked yet.\<close>

definition approved_resume :: "lib \<Rightarrow> app_state \<Rightarrow> mcp_context \<Rightarrow> verdict \<Rightarrow> (outcome, bool) act" where
  "approved_resume L A cx v = then_act (on_conn (get_pending L (cx_correlation_id cx))) (\<lambda>found.
     case found of
       Inr (Some p) \<Rightarrow>
         if pd_decision p = Some ''allow'' then go_on True
         else if pd_decision p = Some ''deny'' then refused A cx 403 ''server_execution_pending_denied''
         else answer (pending_response A cx v (pd_review_reasons p))
     | Inr None \<Rightarrow> go_on False
     | Inl e \<Rightarrow> refused A cx 503 ''server_execution_storage_unavailable'')"

definition fire_verdict :: "lib \<Rightarrow> app_state \<Rightarrow> mcp_context \<Rightarrow> call \<Rightarrow> verdict \<Rightarrow> string \<Rightarrow> string \<Rightarrow> (outcome, unit) act" where
  "fire_verdict L A cx cl v event intent =
     then_act (now_rfc3339 L) (\<lambda>ts. maybe_fire_webhook A (verdict_event A cx cl v event intent ts))"

definition park :: "lib \<Rightarrow> app_state \<Rightarrow> mcp_context \<Rightarrow> call \<Rightarrow> verdict \<Rightarrow> (outcome, response) act" where
  "park L A cx cl v = then_act (on_conn (park_pending L (park_of cx cl v))) (\<lambda>parked.
     case parked of
       Inl e \<Rightarrow> answer (plain 500 (cx_correlation_id cx) (st_mode A) (Message ParkFailed))
     | Inr p \<Rightarrow>
         then_act (case st_slack_webhook_url A of None \<Rightarrow> go_on () | Some url \<Rightarrow> spawn_notification (SlackAlert url p)) (\<lambda>_.
         then_act (fire_verdict L A cx cl v ''park'' ''PendingReview'') (\<lambda>_.
         answer (pending_response A cx v (pd_policy_review_reasons (vd_policy v))))))"

definition settle ::
  "lib \<Rightarrow> app_state \<Rightarrow> mcp_context \<Rightarrow> call \<Rightarrow> verdict \<Rightarrow> forwarded_response \<Rightarrow> (outcome, response) act"
where
  "settle L A cx cl v upstream =
     (let would_deny = (vd_tier v = Red); would_pend = (vd_tier v = Yellow);
          event = (if would_deny then ''would_deny'' else if would_pend then ''would_park'' else ''allow'');
          fire = fire_verdict L A cx cl v event (hv_intent_category (vd_brain v))
      in case cl_binding cl of
           None \<Rightarrow> then_act fire (\<lambda>_. answer (relay A cx would_deny would_pend upstream))
         | Some b \<Rightarrow>
             then_act (on_conn (complete_server_execution L b (fr_status upstream) (fr_content_type upstream)
               (fr_body upstream))) (\<lambda>completion.
             case completion of
               Inl e \<Rightarrow> refused A cx 503 ''server_execution_completion_uncertain''
             | Inr completed \<Rightarrow> then_act fire (\<lambda>_. answer (server_execution_response L completed
                 (cx_correlation_id cx) (st_mode A) False would_deny would_pend))))"

section \<open>The state machine\<close>

datatype task =
    Arrived headers string
  | Identified mcp_context
  | Throttled mcp_context string nat
  | Admitted mcp_context
  | Relaying mcp_context
  | Relayed mcp_context forwarded_response
  | Replaying mcp_context call
  | Assessing mcp_context call
  | Judged mcp_context call verdict
  | Resuming mcp_context call verdict
  | Parking mcp_context call verdict
  | Reviewed mcp_context call verdict
  | Beginning mcp_context call verdict
  | Sending mcp_context call verdict
  | Settling mcp_context call verdict forwarded_response
  | Answered outcome

fun proceed :: "lib \<Rightarrow> (string \<Rightarrow> mcp_request option) \<Rightarrow> app_state \<Rightarrow> request_env \<Rightarrow> task \<Rightarrow> (outcome, task) act" where
  "proceed L decode A E (Arrived hs body) = then_act (fresh_id L) (\<lambda>fallback.
     case intake L decode A hs body fallback of Inl r \<Rightarrow> answer r | Inr cx \<Rightarrow> go_on (Identified cx))"
| "proceed L decode A E (Identified cx) = then_act (check_limiter A (re_now E) cx) (\<lambda>res.
     case res of Allowed \<Rightarrow> go_on (Admitted cx) | Denied agent secs \<Rightarrow> go_on (Throttled cx agent secs))"
| "proceed L decode A E (Throttled cx agent secs) =
     then_act (on_conn (append_ledger L (rate_limit_log cx agent secs))) (\<lambda>_. answer (rate_limited L A cx agent secs))"
| "proceed L decode A E (Admitted cx) = then_act (tool_call L A cx) (\<lambda>callback_url.
     if is_mcp_control_method (mr_method (cx_request cx)) then go_on (Relaying cx)
     else let tool_type = tool_type_of (cx_request cx)
          in case server_binding L cx tool_type of
               None \<Rightarrow> panic
             | Some binding \<Rightarrow> go_on (Replaying cx
                 \<lparr>cl_callback_url = callback_url, cl_tool_type = tool_type, cl_binding = binding\<rparr>))"
| "proceed L decode A E (Relaying cx) = then_act (send_upstream L A (re_net E) cx None None) (\<lambda>res.
     case res of
       Inl e \<Rightarrow> answer (plain 502 (cx_correlation_id cx) (st_mode A) (Message (UpstreamUnreachable e)))
     | Inr upstream \<Rightarrow> go_on (Relayed cx upstream))"
| "proceed L decode A E (Relayed cx upstream) =
     then_act (observe_control L cx (fr_body upstream)) (\<lambda>_. answer (relay A cx False False upstream))"
| "proceed L decode A E (Replaying cx cl) =
     then_act (case cl_binding cl of None \<Rightarrow> go_on () | Some b \<Rightarrow> replay L A cx b) (\<lambda>_. go_on (Assessing cx cl))"
| "proceed L decode A E (Assessing cx cl) =
     then_act (judge L A E cx (cl_tool_type cl)) (\<lambda>v. go_on (Judged cx cl v))"
| "proceed L decode A E (Judged cx cl v) = then_act (on_conn (append_ledger L (verdict_log cx v))) (\<lambda>_.
     go_on (if vd_tier v = Yellow \<and> st_mode A = Enforce
            then if cx_server_execution cx \<noteq> None then Resuming cx cl v else Parking cx cl v
            else Reviewed cx cl v))"
| "proceed L decode A E (Resuming cx cl v) = then_act (approved_resume L A cx v) (\<lambda>approved.
     go_on (if approved then Reviewed cx cl v else Parking cx cl v))"
| "proceed L decode A E (Parking cx cl v) = then_act (park L A cx cl v) answer"
| "proceed L decode A E (Reviewed cx cl v) =
     (if vd_tier v = Red \<and> st_mode A = Enforce
      then then_act (fire_verdict L A cx cl v ''deny'' (hv_intent_category (vd_brain v))) (\<lambda>_.
        answer (deny_response A cx v))
      else if cx_decision cx \<noteq> None
      then then_act (fire_verdict L A cx cl v ''allow'' (hv_intent_category (vd_brain v))) (\<lambda>_.
        answer (decision_response A cx))
      else go_on (Beginning cx cl v))"
| "proceed L decode A E (Beginning cx cl v) =
     then_act (case cl_binding cl of None \<Rightarrow> go_on () | Some b \<Rightarrow> start L A cx b v) (\<lambda>_. go_on (Sending cx cl v))"
| "proceed L decode A E (Sending cx cl v) =
     then_act (send_upstream L A (re_net E) cx (cl_binding cl) (Some v)) (\<lambda>res.
     case res of
       Inl e \<Rightarrow>
         if cl_binding cl \<noteq> None then refused A cx 409 ''server_execution_uncertain''
         else answer \<lparr>rs_status = 502, rs_headers = clavenar_headers (cx_correlation_id cx) (st_mode A)
                (vd_tier v = Red) (vd_tier v = Yellow), rs_body = Message (UpstreamUnreachable e)\<rparr>
     | Inr upstream \<Rightarrow> go_on (Settling cx cl v upstream))"
| "proceed L decode A E (Settling cx cl v upstream) = then_act (settle L A cx cl v upstream) answer"
| "proceed L decode A E (Answered out) = (\<lambda>w. (Inl out, w))"

definition advance :: "lib \<Rightarrow> (string \<Rightarrow> mcp_request option) \<Rightarrow> app_state \<Rightarrow> request_env \<Rightarrow> task \<Rightarrow> world \<Rightarrow> task \<times> world" where
  "advance L decode A E t w =
     (case proceed L decode A E t w of (Inl out, w') \<Rightarrow> (Answered out, w') | (Inr t', w') \<Rightarrow> (t', w'))"

text \<open>A request that is not interleaved with others; \<open>E\<close> gives the environment of each step.\<close>

fun run_task ::
  "lib \<Rightarrow> (string \<Rightarrow> mcp_request option) \<Rightarrow> app_state \<Rightarrow> (nat \<Rightarrow> request_env) \<Rightarrow> nat \<Rightarrow> task \<Rightarrow> world \<Rightarrow> task \<times> world"
where
  "run_task L decode A E 0 t w = (t, w)"
| "run_task L decode A E (Suc n) t w =
     (case advance L decode A (E n) t w of (t', w') \<Rightarrow> run_task L decode A E n t' w')"

text \<open>The longest path has eleven steps.\<close>

definition handle_mcp ::
  "lib \<Rightarrow> (string \<Rightarrow> mcp_request option) \<Rightarrow> app_state \<Rightarrow> (nat \<Rightarrow> request_env) \<Rightarrow> headers \<Rightarrow> string \<Rightarrow> world \<Rightarrow>
   outcome option \<times> world"
where
  "handle_mcp L decode A E hs body w =
     (case run_task L decode A E 11 (Arrived hs body) w of
        (Answered out, w') \<Rightarrow> (Some out, w')
      | (_, w') \<Rightarrow> (None, w'))"

end
