(* ===== verification/Mcp_Stages.thy ===== *)
theory Mcp_Stages
  imports Mcp_Handler
begin

text \<open>
  How a task moves through its stages: every request is answered after at most eleven steps, what each
  stage keeps of the tables, and where the upstream is contacted.
\<close>

section \<open>Control flow\<close>

named_theorems act_simps \<open>when a step of a handler goes on\<close>

lemma then_act_Inr [act_simps]:
  "then_act m f w = (Inr y, w') \<longleftrightarrow> (\<exists>x w1. m w = (Inr x, w1) \<and> f x w1 = (Inr y, w'))"
  by (auto simp: then_act_def split: prod.splits sum.splits)

lemma then_act_Inl:
  "then_act m f w = (Inl e, w') \<longleftrightarrow>
   m w = (Inl e, w') \<or> (\<exists>x w1. m w = (Inr x, w1) \<and> f x w1 = (Inl e, w'))"
  by (auto simp: then_act_def split: prod.splits sum.splits)

lemma go_on_Inr [act_simps]: "go_on x w = (Inr y, w') \<longleftrightarrow> y = x \<and> w' = w"
  by (auto simp: go_on_def)

lemma answer_Inr [act_simps]: "\<not> answer r w = (Inr y, w')"
  by (simp add: answer_def)

lemma panic_Inr [act_simps]: "\<not> panic w = (Inr y, w')"
  by (simp add: panic_def)

lemma refused_Inr [act_simps]: "\<not> refused A cx s e w = (Inr y, w')"
  by (simp add: refused_def answer_def)

lemma on_conn_Inr [act_simps]:
  "on_conn m w = (Inr y, w') \<longleftrightarrow> (\<exists>c. m (w_conn w) = (y, c) \<and> w' = w\<lparr>w_conn := c\<rparr>)"
  by (auto simp: on_conn_def split: prod.splits)

lemma case_sum_act [act_simps]:
  "(case r of Inl e \<Rightarrow> f e | Inr x \<Rightarrow> g x) w = res \<longleftrightarrow>
   (\<exists>e. r = Inl e \<and> f e w = res) \<or> (\<exists>x. r = Inr x \<and> g x w = res)"
  by (cases r) auto

lemma case_option_act [act_simps]:
  "(case o' of None \<Rightarrow> f | Some x \<Rightarrow> g x) w = res \<longleftrightarrow>
   o' = None \<and> f w = res \<or> (\<exists>x. o' = Some x \<and> g x w = res)"
  by (cases o') auto

lemma case_limit_act [act_simps]:
  "(case l of Allowed \<Rightarrow> f | Denied a s \<Rightarrow> g a s) w = res \<longleftrightarrow>
   l = Allowed \<and> f w = res \<or> (\<exists>a s. l = Denied a s \<and> g a s w = res)"
  by (cases l) auto

lemma case_outcome_act [act_simps]:
  "(case o' of Missing \<Rightarrow> f1 | Started \<Rightarrow> f2 | Completed d \<Rightarrow> f3 d | Uncertain \<Rightarrow> f4 | Conflict \<Rightarrow> f5) w = res \<longleftrightarrow>
   o' = Missing \<and> f1 w = res \<or> o' = Started \<and> f2 w = res \<or>
   (\<exists>d. o' = Completed d \<and> f3 d w = res) \<or> o' = Uncertain \<and> f4 w = res \<or>
   o' = Conflict \<and> f5 w = res"
  by (cases o') auto

lemma if_act [act_simps]:
  "(if b then f else g) w = res \<longleftrightarrow> b \<and> f w = res \<or> \<not> b \<and> g w = res"
  by simp

fun stage :: "task \<Rightarrow> nat" where
  "stage (Arrived hs body) = 0"
| "stage (Identified cx) = 1"
| "stage (Admitted cx) = 2"
| "stage (Replaying cx cl) = 3"
| "stage (Assessing cx cl) = 4"
| "stage (Judged cx cl v) = 5"
| "stage (Resuming cx cl v) = 6"
| "stage (Reviewed cx cl v) = 7"
| "stage (Beginning cx cl v) = 8"
| "stage (Sending cx cl v) = 9"
| "stage (Relaying cx) = 9"
| "stage (Settling cx cl v upstream) = 10"
| "stage (Relayed cx upstream) = 10"
| "stage (Parking cx cl v) = 10"
| "stage (Throttled cx agent secs) = 10"
| "stage (Answered out) = 11"

lemma stage_bound: "stage t \<le> 11"
  by (cases t) simp_all

lemma stage_answered: "stage t = 11 \<longleftrightarrow> (\<exists>out. t = Answered out)"
  by (cases t) simp_all

lemma park_Inr [act_simps]: "\<not> park L A cx cl v w = (Inr r, w')"
  by (auto simp: park_def act_simps)

lemma settle_Inr [act_simps]: "\<not> settle L A cx cl v upstream w = (Inr r, w')"
  by (auto simp: settle_def Let_def act_simps)

lemma proceed_stage: "proceed L decode A E t w = (Inr t', w') \<Longrightarrow> stage t < stage t'"
  by (cases t) (auto simp: act_simps Let_def)

lemma advance_stage: "advance L decode A E t w = (t', w') \<Longrightarrow> stage t < stage t' \<or> t' = t \<and> stage t = 11"
proof (cases "proceed L decode A E t w")
  case (Pair r w1)
  assume a: "advance L decode A E t w = (t', w')"
  show ?thesis
  proof (cases r)
    case (Inl out)
    with a Pair have "t' = Answered out" by (simp add: advance_def)
    then show ?thesis using Pair Inl stage_bound [of t] stage_answered [of t] by fastforce
  next
    case (Inr t1)
    with a Pair show ?thesis by (auto simp: advance_def dest: proceed_stage)
  qed
qed

lemma run_task_stage:
  "run_task L decode A E n t w = (t', w') \<Longrightarrow> min 11 (stage t + n) \<le> stage t'"
proof (induction n arbitrary: t w)
  case 0
  then show ?case by simp
next
  case (Suc n)
  obtain t1 w1 where a: "advance L decode A (E n) t w = (t1, w1)" by fastforce
  with Suc have "min 11 (stage t1 + n) \<le> stage t'" by simp
  with advance_stage [OF a] show ?case by auto
qed

section \<open>Facts about the intake\<close>

lemma case_option_result: "(case o' of None \<Rightarrow> Inl e | Some x \<Rightarrow> f x) = Inr y \<longleftrightarrow> (\<exists>x. o' = Some x \<and> f x = Inr y)"
  by (cases o') auto

lemma case_sum_result: "(case r of Inl e \<Rightarrow> Inl (g e) | Inr x \<Rightarrow> f x) = Inr y \<longleftrightarrow> (\<exists>x. r = Inr x \<and> f x = Inr y)"
  by (cases r) auto

lemma selectors_exclusive:
  assumes "parse_server_execution_request L hs = Inr (Some i)" "parse_decision_request L hs = Inr d"
  shows "d = None"
  using assms
  by (auto simp: parse_server_execution_request_def parse_decision_request_def split: if_splits option.splits)

lemma intake_Inr:
  assumes "intake L decode A hs body fallback = Inr cx"
  shows "cx_body cx = body" "cx_headers cx = hs" "decode body = Some (cx_request cx)"
    "parse_server_execution_request L hs = Inr (cx_server_execution cx)"
    "parse_decision_request L hs = Inr (cx_decision cx)"
    "cx_server_execution cx \<noteq> None \<Longrightarrow> cx_decision cx = None"
    "cx_server_execution cx \<noteq> None \<or> cx_decision cx \<noteq> None \<or> is_mcp_control_method (mr_method (cx_request cx))"
    "resolve_agent A hs = Some (cx_identity cx)"
    "cx_server_execution cx = Some i \<Longrightarrow> cx_correlation_id cx = show_uuid L i"
    "cx_server_execution cx \<noteq> None \<Longrightarrow> st_agents A \<noteq> None"
  using assms
  by (auto simp: intake_def select_contracts_def check_request_def case_option_result case_sum_result
      dest: selectors_exclusive split: if_splits)

text \<open>The context of a task is the one that the intake established for its request.\<close>

fun context_of :: "task \<Rightarrow> mcp_context option" where
  "context_of (Arrived hs body) = None"
| "context_of (Identified cx) = Some cx"
| "context_of (Admitted cx) = Some cx"
| "context_of (Replaying cx cl) = Some cx"
| "context_of (Assessing cx cl) = Some cx"
| "context_of (Judged cx cl v) = Some cx"
| "context_of (Resuming cx cl v) = Some cx"
| "context_of (Reviewed cx cl v) = Some cx"
| "context_of (Beginning cx cl v) = Some cx"
| "context_of (Sending cx cl v) = Some cx"
| "context_of (Relaying cx) = Some cx"
| "context_of (Settling cx cl v upstream) = Some cx"
| "context_of (Relayed cx upstream) = Some cx"
| "context_of (Parking cx cl v) = Some cx"
| "context_of (Throttled cx agent secs) = Some cx"
| "context_of (Answered out) = None"

definition serves_request ::
  "lib \<Rightarrow> (string \<Rightarrow> mcp_request option) \<Rightarrow> app_state \<Rightarrow> headers \<Rightarrow> string \<Rightarrow> task \<Rightarrow> bool"
where
  "serves_request L decode A hs body t \<longleftrightarrow>
     (\<forall>h b. t = Arrived h b \<longrightarrow> h = hs \<and> b = body) \<and>
     (\<forall>cx. context_of t = Some cx \<longrightarrow> (\<exists>fallback. intake L decode A hs body fallback = Inr cx))"

lemma proceed_serves:
  "proceed L decode A E t w = (Inr t', w') \<Longrightarrow> serves_request L decode A hs body t \<Longrightarrow>
   serves_request L decode A hs body t'"
  by (cases t) (auto simp: act_simps Let_def serves_request_def split: if_splits)

section \<open>Panics\<close>

lemma answer_no_panic [simp]: "\<not> answer r w = (Inl Panic, w')"
  by (simp add: answer_def)

lemma go_on_no_panic [simp]: "\<not> go_on x w = (Inl Panic, w')"
  by (simp add: go_on_def)

lemma on_conn_no_panic [simp]: "\<not> on_conn m w = (Inl Panic, w')"
  by (auto simp: on_conn_def split: prod.splits)

lemma act_no_panic [simp]:
  "\<not> fresh_id L w = (Inl Panic, w')" "\<not> wall_clock w = (Inl Panic, w')"
  "\<not> spawn_notification n w = (Inl Panic, w')" "\<not> refused A cx s e w = (Inl Panic, w')"
  "\<not> check_limiter A now cx w = (Inl Panic, w')" "\<not> send_upstream L A net cx b v w = (Inl Panic, w')"
  "\<not> observe_control L cx body w = (Inl Panic, w')" "\<not> judge L A E cx tool w = (Inl Panic, w')"
  by (auto simp: fresh_id_def wall_clock_def spawn_notification_def refused_def check_limiter_def
      send_upstream_def observe_control_def judge_def Let_def split: option.splits prod.splits if_splits)

lemma then_no_panic:
  "\<not> m w = (Inl Panic, w') \<Longrightarrow> (\<And>x w1. \<not> f x w1 = (Inl Panic, w')) \<Longrightarrow> \<not> then_act m f w = (Inl Panic, w')"
  by (simp add: then_act_Inl)

lemma compound_no_panic [simp]:
  "\<not> fire_verdict L A cx cl v event intent w = (Inl Panic, w')" "\<not> tool_call L A cx w = (Inl Panic, w')"
  "\<not> replay L A cx b w = (Inl Panic, w')" "\<not> start L A cx b v w = (Inl Panic, w')"
  "\<not> approved_resume L A cx v w = (Inl Panic, w')"
  by (auto simp: fire_verdict_def now_rfc3339_def maybe_fire_webhook_def tool_call_def replay_def start_def
      approved_resume_def Let_def then_act_Inl
      split: option.splits sum.splits server_execution_outcome.splits)

lemma park_no_panic [simp]: "\<not> park L A cx cl v w = (Inl Panic, w')"
  by (auto simp: park_def then_act_Inl split: option.splits sum.splits)

lemma settle_no_panic [simp]: "\<not> settle L A cx cl v upstream w = (Inl Panic, w')"
  by (auto simp: settle_def Let_def then_act_Inl split: option.splits sum.splits)

lemma proceed_panic:
  assumes "proceed L decode A E t w = (Inl Panic, w')" "t \<noteq> Answered Panic"
  shows "\<exists>cx. t = Admitted cx \<and> cx_server_execution cx \<noteq> None \<and> parse_json L (cx_body cx) = None"
proof (cases t)
  case (Admitted cx)
  with assms show ?thesis
    by (auto simp: then_act_Inl act_simps Let_def server_binding_def split: option.splits if_splits)
qed (use assms in \<open>auto simp: then_act_Inl act_simps Let_def\<close>)

lemma run_task_panic:
  assumes "run_task L decode A E n t w = (Answered Panic, w')" "serves_request L decode A hs body t" "t \<noteq> Answered Panic"
  shows "(\<exists>i. parse_server_execution_request L hs = Inr (Some i)) \<and> decode body \<noteq> None \<and> parse_json L body = None"
  using assms
proof (induction n arbitrary: t w)
  case 0
  then show ?case by simp
next
  case (Suc n)
  obtain r w1 where p: "proceed L decode A (E n) t w = (r, w1)" by fastforce
  show ?case
  proof (cases r)
    case (Inl out)
    have stays: "run_task L decode A E k (Answered out) w2 = (Answered out, w2)" for k w2
      by (induction k) (simp_all add: advance_def)
    from Suc.prems(1) p Inl have "out = Panic" by (simp add: advance_def stays)
    with proceed_panic [of L decode A "E n" t w w1] p Inl Suc.prems(3) obtain cx where
      cx: "t = Admitted cx" "cx_server_execution cx \<noteq> None" "parse_json L (cx_body cx) = None" by auto
    with Suc.prems(2) obtain fallback where "intake L decode A hs body fallback = Inr cx"
      by (auto simp: serves_request_def)
    from intake_Inr(1,3,4) [OF this] cx show ?thesis by auto
  next
    case (Inr t1)
    with p Suc.prems(1) have "run_task L decode A E n t1 w1 = (Answered Panic, w')" by (simp add: advance_def)
    moreover have "serves_request L decode A hs body t1" using proceed_serves p Inr Suc.prems(2) by blast
    moreover have "t1 \<noteq> Answered Panic"
      using p Inr Suc.prems by (cases t) (auto simp: act_simps Let_def split: if_splits)
    ultimately show ?thesis by (rule Suc.IH)
  qed
qed


section \<open>A concrete server\<close>

definition state0 :: app_state where
  "state0 = \<lparr>st_velocity_window = 60, st_upstream_url = ''http://up'', st_upstream_adapter = RawJson,
     st_agents = Some (single ''t''), st_deciders = Some [(''op'', ''acme'')], st_decide_token = None,
     st_upstream_api_key = None, st_mode = Enforce, st_slack_webhook_url = None, st_callback_allowlist = [],
     st_webhook_url = None, st_rate_limiter = None, st_verbose_verdicts = False\<rparr>"

definition world0 :: world where
  "world0 = \<lparr>w_conn = conn0, w_buckets = [], w_velocity = Map.empty, w_pins = Map.empty, w_sent = [],
     w_notes = [], w_in_flight = 0\<rparr>"

definition execute_headers :: headers where
  "execute_headers = [(''authorization'', Text ''Bearer t''),
     (SERVER_EXECUTION_CONTRACT_HEADER, Text SERVER_EXECUTION_CONTRACT), (IDEMPOTENCY_ID_HEADER, Text ''xxxxx'')]"

definition call_wire :: mcp_request where
  "call_wire = \<lparr>mr_method = ''tools/call'', mr_params = Some (JObj [(''name'', JStr ''wire'')]), mr_id = None,
     mr_jsonrpc = None\<rparr>"

definition env00 :: request_env where
  "env00 = \<lparr>re_now = 0, re_wall = 0, re_worker = None,
     re_net = (\<lambda>r. Some \<lparr>rp_status = 200, rp_headers = [], rp_chunks = [''done''], rp_read_fails = False\<rparr>)\<rparr>"

lemma marks_5: "marks 5 = ''xxxxx''"
  by code_simp

lemma execute_selectors:
  "parse_server_execution_request (sample_lib bs us rs) execute_headers = Inr (Some 5)"
  "parse_decision_request (sample_lib bs us rs) execute_headers = Inr None"
  "resolve_agent state0 execute_headers = Some \<lparr>ai_tenant = ''_legacy_unqualified'', ai_agent_id = ''bearer-agent''\<rparr>"
proof -
  have h: "header SERVER_EXECUTION_CONTRACT_HEADER execute_headers = Some (Text SERVER_EXECUTION_CONTRACT)"
    "header DECISION_CONTRACT_HEADER execute_headers = None"
    "header LEGACY_EXECUTION_CONTRACT_HEADER execute_headers = None"
    "header IDEMPOTENCY_ID_HEADER execute_headers = Some (Text ''xxxxx'')"
    "header ''authorization'' execute_headers = Some (Text ''Bearer t'')"
    by (simp_all add: header_def execute_headers_def SERVER_EXECUTION_CONTRACT_HEADER_def DECISION_CONTRACT_HEADER_def
        LEGACY_EXECUTION_CONTRACT_HEADER_def IDEMPOTENCY_ID_HEADER_def)
  have "canonical_id (sample_lib bs us rs) execute_headers = Some 5"
    by (simp add: canonical_id_def header_text_def h sample_lib_def marks_5)
  with h show "parse_server_execution_request (sample_lib bs us rs) execute_headers = Inr (Some 5)"
    "parse_decision_request (sample_lib bs us rs) execute_headers = Inr None"
    by (simp_all add: parse_server_execution_request_def parse_decision_request_def contains_key_def header_text_def)
  show "resolve_agent state0 execute_headers = Some \<lparr>ai_tenant = ''_legacy_unqualified'', ai_agent_id = ''bearer-agent''\<rparr>"
    using h(5) by (simp add: resolve_agent_def state0_def bearer_def header_text_def strip_prefix_def lookup_agent_def single_def)
qed

lemma execute_intake:
  "intake (sample_lib bs us rs) (\<lambda>_. Some call_wire) state0 execute_headers body fallback = Inr
     \<lparr>cx_body = body, cx_headers = execute_headers, cx_server_execution = Some 5, cx_decision = None,
      cx_correlation_id = ''xxxxx'', cx_request = call_wire,
      cx_identity = \<lparr>ai_tenant = ''_legacy_unqualified'', ai_agent_id = ''bearer-agent''\<rparr>\<rparr>"
  if "length body \<le> REQUEST_BODY_BYTES"
  using that
  by (simp add: intake_def select_contracts_def check_request_def execute_selectors validate_request_def call_wire_def)
     (simp add: state0_def sample_lib_def marks_5)

lemma run_task_answered: "run_task L decode A E n (Answered out) w = (Answered out, w)"
  by (induction n) (simp_all add: advance_def)

lemma run_to_panic:
  "fst (handle_mcp lib0 (\<lambda>_. Some call_wire) state0 (\<lambda>_. env00) execute_headers ''{}'' world0) = Some Panic"
proof -
  let ?adv = "advance lib0 (\<lambda>_. Some call_wire) state0 env00"
  let ?cx = "\<lparr>cx_body = ''{}'', cx_headers = execute_headers, cx_server_execution = Some 5, cx_decision = None,
      cx_correlation_id = ''xxxxx'', cx_request = call_wire,
      cx_identity = \<lparr>ai_tenant = ''_legacy_unqualified'', ai_agent_id = ''bearer-agent''\<rparr>\<rparr>"
  let ?w = "world0\<lparr>w_conn := tick conn0\<rparr>"
  have 1: "?adv (Arrived execute_headers ''{}'') world0 = (Identified ?cx, ?w)"
    by (simp add: advance_def then_act_def fresh_id_def go_on_def lib0_def execute_intake REQUEST_BODY_BYTES_def)
       (simp add: world0_def)
  have 2: "?adv (Identified ?cx) ?w = (Admitted ?cx, ?w)"
    by (simp add: advance_def then_act_def check_limiter_def state0_def go_on_def)
  have "header CALLBACK_HEADER execute_headers = None"
    by (simp add: header_def execute_headers_def CALLBACK_HEADER_def SERVER_EXECUTION_CONTRACT_HEADER_def
        IDEMPOTENCY_ID_HEADER_def)
  then have 3: "?adv (Admitted ?cx) ?w = (Answered Panic, ?w)"
    by (simp add: advance_def then_act_def tool_call_def Let_def validate_callback_url_def header_text_def go_on_def
        call_wire_def is_mcp_control_method_def server_binding_def lib0_def sample_lib_def sample_parse_def panic_def)
  have "run_task lib0 (\<lambda>_. Some call_wire) state0 (\<lambda>_. env00) (Suc (Suc (Suc 8))) (Arrived execute_headers ''{}'') world0 =
      (Answered Panic, ?w)"
    by (simp only: run_task.simps 1 2 3 run_task_answered prod.case)
  then show ?thesis by (simp add: handle_mcp_def)
qed


end
