(* ===== verification/Serving.thy ===== *)
theory Serving
  imports Mcp_Stages
begin

text \<open>
  The running server: any number of requests to \<open>/mcp\<close>, interleaved at every await point with each
  other, with operators' requests, with the reconciler and with notifications that end; clients may
  go away and the process may restart. What every reachable state satisfies.
\<close>

section \<open>Steps of the server\<close>

text \<open>
  A status is a \<open>u16\<close>; \<open>good\<close> restricts the bodies that the upstream answers, where a property needs
  that.
\<close>

definition env_ok :: "(string \<Rightarrow> bool) \<Rightarrow> request_env \<Rightarrow> bool" where
  "env_ok good E \<longleftrightarrow> (\<forall>request reply. re_net E request = Some reply \<longrightarrow>
     rp_status reply < 65536 \<and> good (concat (rp_chunks reply)))"

text \<open>A restart keeps the database, and draws a new identity for the process.\<close>

definition restarted :: "string \<Rightarrow> world \<Rightarrow> world" where
  "restarted i w = w\<lparr>w_conn := (w_conn w)\<lparr>instance_id := i\<rparr>, w_buckets := [], w_velocity := Map.empty,
     w_pins := Map.empty, w_in_flight := 0\<rparr>"

inductive sys_step ::
  "lib \<Rightarrow> (string \<Rightarrow> mcp_request option) \<Rightarrow> (string \<Rightarrow> decide_request option) \<Rightarrow> app_state \<Rightarrow> (string \<Rightarrow> bool) \<Rightarrow>
   world \<times> task list \<Rightarrow> world \<times> task list \<Rightarrow> bool"
  for L decode decode_decide A good
where
  arrive: "sys_step L decode decode_decide A good (w, ts) (w, ts @ [Arrived hs body])"
| advance: "env_ok good E \<Longrightarrow> advance L decode A E t w = (t', w') \<Longrightarrow>
    sys_step L decode decode_decide A good (w, ts @ t # ts') (w', ts @ t' # ts')"
| cancel: "sys_step L decode decode_decide A good (w, ts @ t # ts') (w, ts @ ts')"
| decide: "handle_decide_pending L decode_decide A i hs body w = (r, w') \<Longrightarrow>
    sys_step L decode decode_decide A good (w, ts) (w', ts)"
| poll: "handle_get_pending L A i hs w = (r, w') \<Longrightarrow> sys_step L decode decode_decide A good (w, ts) (w', ts)"
| listing: "handle_list_pendings L A params hs w = (r, w') \<Longrightarrow>
    sys_step L decode decode_decide A good (w, ts) (w', ts)"
| reconcile: "reconcile_server_executions_at L now (w_conn w) = (r, c) \<Longrightarrow>
    sys_step L decode decode_decide A good (w, ts) (w\<lparr>w_conn := c\<rparr>, ts)"
| delivered: "sys_step L decode decode_decide A good (w, ts) (notification_done w, ts)"
| restart: "sys_step L decode decode_decide A good (w, ts) (restarted i w, [])"

inductive_cases sys_stepE: "sys_step L decode decode_decide A good (w, ts) (w', ts')"

abbreviation runs ::
  "lib \<Rightarrow> (string \<Rightarrow> mcp_request option) \<Rightarrow> (string \<Rightarrow> decide_request option) \<Rightarrow> app_state \<Rightarrow> (string \<Rightarrow> bool) \<Rightarrow>
   world \<times> task list \<Rightarrow> world \<times> task list \<Rightarrow> bool"
where
  "runs L decode decode_decide A good \<equiv> (sys_step L decode decode_decide A good)\<^sup>*\<^sup>*"

section \<open>What the stages do to the tables\<close>

definition sends :: "task \<Rightarrow> bool" where
  "sends t \<longleftrightarrow> (\<exists>cx. t = Relaying cx) \<or> (\<exists>cx cl v. t = Sending cx cl v)"

lemma policy_json_storable: "storable (policy_json d)"
proof -
  let ?kvs = "[(''allow'', JBool (pd_allow d)), (''reasons'', jstrs (pd_reasons d)),
      (''review_reasons'', jstrs (pd_policy_review_reasons d))]"
  have v: "(\<exists>b. v = JBool b) \<or> (\<exists>xs. v = jstrs xs)" if "(k, v) \<in> set ?kvs" for k v
    using that by auto
  have "json_exact v \<and> json_depth v \<le> 1" if "(k, v) \<in> set ?kvs" for k v
    using v [OF that]
  proof (elim disjE exE)
    fix xs
    assume "v = jstrs xs"
    then show ?thesis using json_exact_strs [of xs] json_depth_strs [of xs] by blast
  qed simp
  then have e: "json_exact v" and d: "json_depth v \<le> 1" if "(k, v) \<in> set ?kvs" for k v
    using that by blast+
  have "json_exact (json_obj ?kvs)" using e by (rule json_exact_obj)
  moreover have "json_depth (json_obj ?kvs) \<le> Suc 1" using d by (rule json_depth_obj)
  ultimately show ?thesis by (simp add: policy_json_def storable_def)
qed

lemma verdict_log_storable: "storable_request (verdict_log cx v)"
  by (simp add: storable_request_def verdict_log_def policy_json_storable)

lemma poisoned_log_storable: "storable_request (poisoned_log a changes)"
proof -
  have "storable (json_obj [(''signal'', JStr ''tool_schema_poisoned'')])" by (rule storable_strings) auto
  then show ?thesis by (simp add: storable_request_def poisoned_log_def)
qed

lemma plain_logs_storable: "storable_request (rate_limit_log cx a secs)" "storable_request (decide_log p)"
  by (simp_all add: storable_request_def rate_limit_log_def decide_log_def Let_def)

context db_relation
begin

lemma queries: "keeps R (inspect_server_execution L b)" "keeps R (get_pending L i)"
    "keeps R (get_pending_for_agent L i tenant agent)" "keeps R (list_pendings L filt limit direction)"
    "keeps R (list_pendings_for_tenant L filt limit direction tenant)"
  unfolding inspect_server_execution_def inspect_execution_def get_pending_def get_pending_for_agent_def
    list_pendings_def list_pendings_for_tenant_def
  by (intro keeps_with keeps_bind keeps_select keeps_lift)+

lemma act_case_option:
  "keeps_act (quiet_step R) m \<Longrightarrow> (\<And>x. keeps_act (quiet_step R) (f x)) \<Longrightarrow>
   keeps_act (quiet_step R) (case o' of None \<Rightarrow> m | Some x \<Rightarrow> f x)"
  by (cases o') auto

lemma act_case_sum:
  "(\<And>e. keeps_act (quiet_step R) (f e)) \<Longrightarrow> (\<And>x. keeps_act (quiet_step R) (g x)) \<Longrightarrow>
   keeps_act (quiet_step R) (case r of Inl e \<Rightarrow> f e | Inr x \<Rightarrow> g x)"
  by (cases r) auto

lemma act_case_outcome:
  "keeps_act (quiet_step R) f1 \<Longrightarrow> keeps_act (quiet_step R) f2 \<Longrightarrow> (\<And>d. keeps_act (quiet_step R) (f3 d)) \<Longrightarrow>
   keeps_act (quiet_step R) f4 \<Longrightarrow> keeps_act (quiet_step R) f5 \<Longrightarrow>
   keeps_act (quiet_step R) (case o' of Missing \<Rightarrow> f1 | Started \<Rightarrow> f2 | Completed d \<Rightarrow> f3 d | Uncertain \<Rightarrow> f4 | Conflict \<Rightarrow> f5)"
  by (cases o') auto

lemma act_case_limit:
  "keeps_act (quiet_step R) f \<Longrightarrow> (\<And>a s. keeps_act (quiet_step R) (g a s)) \<Longrightarrow>
   keeps_act (quiet_step R) (case l of Allowed \<Rightarrow> f | Denied a s \<Rightarrow> g a s)"
  by (cases l) auto

lemma act_if:
  "keeps_act (quiet_step R) f \<Longrightarrow> keeps_act (quiet_step R) g \<Longrightarrow> keeps_act (quiet_step R) (if b then f else g)"
  by simp

lemma act_refused: "keeps_act (quiet_step R) (refused A cx status error)"
  unfolding refused_def by (rule act_answer)

lemma act_limiter: "keeps_act (quiet_step R) (check_limiter A now cx)"
  by (auto simp: keeps_act_def check_limiter_def quiet_step_def rel_refl split: option.splits prod.splits)

lemma act_judge: "keeps_act (quiet_step R) (judge L A E cx tool_type)"
  by (auto simp: keeps_act_def judge_def Let_def quiet_step_def rel_refl split: prod.splits)

lemma act_fire: "keeps_act (quiet_step R) (fire_verdict L A cx cl v event intent)"
  unfolding fire_verdict_def by (intro act_then act_now act_webhook)

lemmas act_branches = act_case_option act_case_sum act_case_outcome act_case_limit act_if act_refused act_limiter
  act_judge act_fire

lemma act_observe:
  assumes "\<And>a changes. keeps R (append_ledger L (poisoned_log a changes))"
  shows "keeps_act (quiet_step R) (observe_control L cx body)"
proof -
  have "R c (snd (append_ledger L (poisoned_log a changes) c))" if "clock_ok c" for c a changes
    using keepsD [OF assms that] by (metis prod.collapse)
  then show ?thesis
    by (auto simp: keeps_act_def observe_control_def observe_tools_list_def quiet_step_def rel_refl
        split: option.splits list.splits if_splits)
qed

text \<open>A poll and a listing only read.\<close>

lemma poll_quiet: "keeps_act (quiet_step R) (handle_get_pending L A i hs)"
  unfolding handle_get_pending_def by (auto intro!: act_rules act_branches queries)

lemma listing_quiet: "keeps_act (quiet_step R) (handle_list_pendings L A params hs)"
  unfolding handle_list_pendings_def by (auto simp: Let_def intro!: act_rules act_branches queries split: option.splits)

text \<open>Every step keeps a relation that the ledger operations keep; most contact no upstream.\<close>

lemma proceed_keeps:
  assumes append: "\<And>req. storable_request req \<Longrightarrow> keeps R (append_ledger L req)"
    and exec: "\<And>b. keeps R (inspect_server_execution L b)"
      "\<And>cx cl v b. t = Beginning cx cl v \<Longrightarrow> keeps R (begin_server_execution L b)"
    and review: "\<And>i. keeps R (get_pending L i)" "\<And>q. keeps R (park_pending L q)"
    and complete: "\<And>cx cl v upstream b. t = Settling cx cl v upstream \<Longrightarrow>
        keeps R (complete_server_execution L b (fr_status upstream) (fr_content_type upstream) (fr_body upstream))"
    and "\<not> sends t"
  shows "keeps_act (quiet_step R) (proceed L decode A E t)"
proof -
  note rules = act_rules act_branches
  show ?thesis
  proof (cases t)
    case (Arrived hs body)
    then show ?thesis by (auto intro!: rules)
  next
    case (Identified cx)
    then show ?thesis by (auto intro!: rules)
  next
    case (Throttled cx agent secs)
    then show ?thesis by (auto intro!: rules append plain_logs_storable)
  next
    case (Admitted cx)
    then show ?thesis by (auto simp: tool_call_def Let_def intro!: rules)
  next
    case (Relayed cx upstream)
    then show ?thesis by (auto intro!: rules act_observe append poisoned_log_storable)
  next
    case (Replaying cx cl)
    then show ?thesis by (auto simp: replay_def intro!: rules exec)
  next
    case (Assessing cx cl)
    then show ?thesis by (auto intro!: rules)
  next
    case (Judged cx cl v)
    then show ?thesis by (auto intro!: rules append verdict_log_storable)
  next
    case (Resuming cx cl v)
    then show ?thesis by (auto simp: approved_resume_def intro!: rules review)
  next
    case (Parking cx cl v)
    then show ?thesis by (auto simp: park_def intro!: rules review)
  next
    case (Reviewed cx cl v)
    then show ?thesis by (auto intro!: rules)
  next
    case (Beginning cx cl v)
    then show ?thesis by (auto simp: start_def intro!: rules exec)
  next
    case (Settling cx cl v upstream)
    then show ?thesis by (auto simp: settle_def Let_def intro!: rules complete)
  next
    case (Answered out)
    then show ?thesis by (auto simp: keeps_act_def quiet_step_def rel_refl)
  qed (use \<open>\<not> sends t\<close> in \<open>auto simp: sends_def\<close>)
qed

end

section \<open>Relations that the whole server keeps\<close>

text \<open>What a relation must satisfy for the server to keep it: the ledger's operations keep it.\<close>

locale ledger_relation = db_relation R for R +
  fixes L :: lib and good :: "string \<Rightarrow> bool"
  assumes append: "storable_request req \<Longrightarrow> keeps R (append_ledger L req)"
    and begins: "keeps R (begin_server_execution L b)"
    and completes: "status < 65536 \<Longrightarrow> good body \<Longrightarrow> keeps R (complete_server_execution L b status ct body)"
    and reconciles: "keeps R (reconcile_server_executions_at L now)"
    and parks: "keeps R (park_pending L q)"
    and decides: "keeps R (decide_pending_scoped L i tenant d n)"

interpretation log_ledger: ledger_relation "log_step L" L "retainable L" for L
  by unfold_locales
     (auto simp: append_ledger_def intro: begin_steps complete_keeps_log reconcile_steps park_keeps_log
        decide_keeps_log log.keeps_with append_keeps_log)

interpretation review_ledger: ledger_relation "review_step L" L good for L good
  by unfold_locales
     (auto intro: append_ledger_steps begin_steps complete_keeps_review reconcile_steps park_keeps_review
        decide_keeps_review)

interpretation exec_ledger: ledger_relation "exec_step L" L good for L good
  by unfold_locales
     (auto intro: append_ledger_steps begin_steps complete_keeps_exec reconcile_steps pending_exec_steps)

definition settles_ok :: "(string \<Rightarrow> bool) \<Rightarrow> task \<Rightarrow> bool" where
  "settles_ok good t \<longleftrightarrow>
     (\<forall>cx cl v upstream. t = Settling cx cl v upstream \<longrightarrow> fr_status upstream < 65536 \<and> good (fr_body upstream))"

lemma receive_Inr:
  assumes "receive L adapter i reply = Inr resp"
  shows "\<exists>rp. reply = Some rp \<and> fr_status resp = rp_status rp \<and> fr_body resp = concat (rp_chunks rp)"
  using assms by (auto simp: receive_def Let_def dest!: read_body_Inr)

lemma send_upstream_Inr:
  assumes "send_upstream L A net cx b v w = (Inr (Inr upstream), w')"
  shows "\<exists>request reply. net request = Some reply \<and> fr_status upstream = rp_status reply \<and>
    fr_body upstream = concat (rp_chunks reply)"
  using assms by (auto simp: send_upstream_def forward_def Let_def split: sum.splits dest!: receive_Inr)

lemma proceed_settles: "env_ok good E \<Longrightarrow> proceed L decode A E t w = (Inr t', w') \<Longrightarrow> settles_ok good t'"
  by (cases t) (auto simp: act_simps Let_def settles_ok_def env_ok_def split: if_splits dest!: send_upstream_Inr)

lemma advance_settles:
  "env_ok good E \<Longrightarrow> advance L decode A E t w = (t', w') \<Longrightarrow> settles_ok good t'"
  using proceed_settles [of good E L decode A t w] unfolding advance_def
  by (auto simp: settles_ok_def split: prod.splits sum.splits)

context ledger_relation
begin

lemma decide_quiet: "keeps_act (quiet_step R) (handle_decide_pending L decode A i hs body)"
proof -
  note rules = act_rules act_branches
  show ?thesis
    unfolding handle_decide_pending_def decide_pending_def decide_pending_for_tenant_def
    by (auto intro!: rules append plain_logs_storable decides split: option.splits)
qed

lemma advance_keeps:
  assumes "advance L decode A E t w = (t', w')" "clock_ok (w_conn w)" "settles_ok good t"
  shows "R (w_conn w) (w_conn w')" "\<not> sends t \<Longrightarrow> w_sent w' = w_sent w"
proof -
  obtain r where p: "proceed L decode A E t w = (r, w')"
    using assms(1) by (auto simp: advance_def split: prod.splits sum.splits)
  have quiet: "quiet_step R w w'" if "\<not> sends t"
  proof (rule keeps_actD [OF proceed_keeps assms(2) p])
    show "keeps R (complete_server_execution L b (fr_status upstream) (fr_content_type upstream) (fr_body upstream))"
      if "t = Settling cx cl v upstream" for cx cl v upstream b
      using assms(3) that by (auto simp: settles_ok_def intro: completes)
  qed (use that in \<open>auto intro: append begins parks queries\<close>)
  then show "\<not> sends t \<Longrightarrow> w_sent w' = w_sent w" by (simp add: quiet_step_def)
  show "R (w_conn w) (w_conn w')"
  proof (cases "sends t")
    case True
    with p have "w_conn w' = w_conn w"
      by (auto simp: sends_def then_act_def send_upstream_def Let_def go_on_def answer_def refused_def
          split: prod.splits sum.splits if_splits)
    then show ?thesis by (simp add: rel_refl)
  next
    case False
    with quiet show ?thesis by (simp add: quiet_step_def)
  qed
qed

end

section \<open>Every reachable state\<close>

definition base_ok :: "(string \<Rightarrow> bool) \<Rightarrow> world \<times> task list \<Rightarrow> bool" where
  "base_ok good s \<longleftrightarrow> clock_ok (w_conn (fst s)) \<and> (\<forall>t \<in> set (snd s). settles_ok good t)"

lemma notification_done_sel [simp]: "w_conn (notification_done w) = w_conn w" "w_sent (notification_done w) = w_sent w"
  by (simp_all add: notification_done_def)

lemma restarted_sel [simp]: "w_conn (restarted i w) = (w_conn w)\<lparr>instance_id := i\<rparr>" "w_sent (restarted i w) = w_sent w"
  by (simp_all add: restarted_def)

context ledger_relation
begin

text \<open>
  A step of the server either advances a task, changes the list of tasks alone, is one of an operator,
  of a poll or of the reconciler, which keeps the relation and sends nothing, or is a restart.
\<close>

lemma sys_step_cases:
  assumes "sys_step L decode decode_decide A good (w, ts) (w', ts')" "base_ok good (w, ts)"
  obtains (advance) E t t' us us' where "ts = us @ t # us'" "ts' = us @ t' # us'" "env_ok good E"
      "advance L decode A E t w = (t', w')" "settles_ok good t" "R (w_conn w) (w_conn w')"
    | (arrive) hs body where "w' = w" "ts' = ts @ [Arrived hs body]"
    | (cancel) t us us' where "w' = w" "ts = us @ t # us'" "ts' = us @ us'"
    | (quiet) "ts' = ts" "quiet_step R w w'"
    | (restart) i where "w' = restarted i w" "ts' = []"
proof -
  have c: "clock_ok (w_conn w)" using assms(2) by (simp add: base_ok_def)
  show ?thesis
  proof (rule sys_stepE [OF assms(1)])
    fix hs body
    assume "w = w'" "ts' = ts @ [Arrived hs body]"
    then show ?thesis using arrive [of hs body] by simp
  next
    fix E t t' us us'
    assume a: "ts = us @ t # us'" "ts' = us @ t' # us'" "env_ok good E" "advance L decode A E t w = (t', w')"
    moreover have "settles_ok good t" using assms(2) a by (simp add: base_ok_def)
    ultimately show ?thesis using advance advance_keeps(1) c by blast
  next
    fix us t us'
    assume "ts = us @ t # us'" "w' = w" "ts' = us @ us'"
    then show ?thesis by (intro cancel)
  next
    fix i hs body r
    assume "ts' = ts" "handle_decide_pending L decode_decide A i hs body w = (r, w')"
    then show ?thesis using quiet keeps_actD [OF decide_quiet c] by blast
  next
    fix i hs r
    assume "ts' = ts" "handle_get_pending L A i hs w = (r, w')"
    then show ?thesis using quiet keeps_actD [OF poll_quiet c] by blast
  next
    fix params hs r
    assume "ts' = ts" "handle_list_pendings L A params hs w = (r, w')"
    then show ?thesis using quiet keeps_actD [OF listing_quiet c] by blast
  next
    fix now r c'
    assume "reconcile_server_executions_at L now (w_conn w) = (r, c')" "w' = w\<lparr>w_conn := c'\<rparr>" "ts' = ts"
    then show ?thesis using quiet keepsD [OF reconciles c] by (simp add: quiet_step_def)
  next
    assume "w' = notification_done w" "ts' = ts"
    then show ?thesis using quiet by (simp add: quiet_step_def rel_refl)
  next
    fix i
    assume "w' = restarted i w" "ts' = []"
    then show ?thesis by (rule restart)
  qed
qed

lemma sys_step_keeps:
  assumes "sys_step L decode decode_decide A good (w, ts) (w', ts')" "base_ok good (w, ts)"
  shows "R (w_conn w) (w_conn w') \<or> (\<exists>i. w_conn w' = (w_conn w)\<lparr>instance_id := i\<rparr>)"
  using assms by (cases rule: sys_step_cases) (auto simp: rel_refl quiet_step_def)

end

lemma sys_step_base:
  assumes "sys_step L decode decode_decide A good s s'" "base_ok good s"
  shows "base_ok good s'"
proof -
  obtain w ts w' ts' where s: "s = (w, ts)" "s' = (w', ts')" by fastforce
  have b: "base_ok good (w, ts)" and step: "sys_step L decode decode_decide A good (w, ts) (w', ts')"
    using assms s by simp_all
  have c: "clock_ok c" if "exec_step L (w_conn w) c" for c
    using exec.rel_clock [OF that] b by (simp add: base_ok_def)
  from step b show ?thesis
  proof (cases rule: exec_ledger.sys_step_cases)
    case (advance E t t' us us')
    then show ?thesis using b c advance_settles by (auto simp: s base_ok_def)
  next
    case quiet
    then show ?thesis using b c by (auto simp: s base_ok_def quiet_step_def)
  qed (use b in \<open>auto simp: s base_ok_def settles_ok_def clock_ok_def\<close>)
qed

text \<open>Rule induction for a property of the states, with the facts that hold in all of them.\<close>

lemma runs_invariant:
  assumes "runs L decode decode_decide A good s s'" "base_ok good s" "P s"
    and "\<And>s s'. sys_step L decode decode_decide A good s s' \<Longrightarrow> base_ok good s \<Longrightarrow> P s \<Longrightarrow> P s'"
  shows "P s'"
proof -
  from assms(1) have "base_ok good s' \<and> P s'"
    using assms(2,3)
  proof (induction rule: rtranclp_induct)
    case (step s1 s2)
    then show ?case using assms(4) sys_step_base by blast
  qed simp
  then show ?thesis by simp
qed

end
