(* ===== verification/Hosted_Safety.thy ===== *)
theory Hosted_Safety
  imports Target_Validation Upstream_Adapter Registry
begin

text \<open>
  The validator of internet-hosted configurations, \<open>hosted_safety.rs\<close>, with the part of
  \<open>std::path\<close> it uses. Rates are exact rationals for the code's finite \<open>f64\<close> values, durations are
  nanoseconds, and the embedded contract and its schema are the arguments \<open>fixture\<close> and \<open>schema\<close>.
\<close>

section \<open>Paths\<close>

text \<open>
  \<open>Path::components\<close> on Unix: empty pieces are dropped and so are pieces \<open>.\<close>, except a leading one of
  a relative path.
\<close>

datatype component = RootDir | CurDir | ParentDir | Normal string

definition components :: "string \<Rightarrow> component list" where
  "components path =
     (let pieces = split_on CHR ''/'' path in
      (if prefix ''/'' path then [RootDir] else if hd pieces = ''.'' then [CurDir] else []) @
      map (\<lambda>p. if p = ''..'' then ParentDir else Normal p) (filter (\<lambda>p. p \<noteq> [] \<and> p \<noteq> ''.'') pieces))"

section \<open>Configuration\<close>

definition MINIMUM_TOKEN_BYTES :: nat where
  "MINIMUM_TOKEN_BYTES = 32"

definition MINIMUM_RATE_LIMIT_QPS :: rat where
  "MINIMUM_RATE_LIMIT_QPS = 1 / 10"

definition MAXIMUM_RATE_LIMIT_QPS :: rat where
  "MAXIMUM_RATE_LIMIT_QPS = 100"

definition MINIMUM_RATE_LIMIT_BURST :: nat where
  "MINIMUM_RATE_LIMIT_BURST = 1"

definition MAXIMUM_RATE_LIMIT_BURST :: nat where
  "MAXIMUM_RATE_LIMIT_BURST = 200"

definition MAXIMUM_UPSTREAM_TIMEOUT :: nat where
  "MAXIMUM_UPSTREAM_TIMEOUT = 30 * 1000000000"

datatype deployment_profile = Developer | Hosted

definition profile_from_str :: "string \<Rightarrow> deployment_profile option" where
  "profile_from_str value =
     (let v = to_ascii_lowercase (trim value) in
      if v = ''developer'' then Some Developer else if v = ''hosted'' then Some Hosted else None)"

record hosted_safety_config =
  hs_profile :: deployment_profile
  hs_agent_token :: "string option"
  hs_agents :: "string option"
  hs_decide_token :: "string option"
  hs_deciders :: "string option"
  hs_enforce_mode :: bool
  hs_verbose_verdicts :: bool
  hs_rate_limit_qps :: "rat option"
  hs_rate_limit_burst :: "nat option"
  hs_ledger_path :: string
  hs_upstream_url :: string
  hs_upstream_adapter :: upstream_adapter
  hs_upstream_timeout :: nat

datatype hosted_error =
    ContractBroken contract_error
  | NeedsOneSource
  | NeedsAuthentication
  | BlankEntry
  | NoSeparator
  | NoTokens
  | ShortToken
  | SharedCredentials
  | NeedsEnforce
  | VerboseForbidden
  | NeedsQps
  | QpsRange
  | NeedsBurst
  | BurstRange
  | LedgerNotAbsolute
  | LedgerNotMounted
  | UpstreamInvalid
  | UpstreamNotHttps
  | UpstreamCredentials
  | UpstreamNoHost
  | PlaceholderHost
  | NeedsMcpAdapter
  | TimeoutRange

section \<open>The checks\<close>

definition checked_token :: "string \<Rightarrow> (hosted_error, string) result" where
  "checked_token token =
     (if length (trim token) < MINIMUM_TOKEN_BYTES then Inl ShortToken else Inr (trim token))"

definition configured_entry :: "string \<Rightarrow> (hosted_error, string) result" where
  "configured_entry raw =
     (let entry = trim raw in
      if entry = [] then Inl BlankEntry
      else and_then (ok_or NoSeparator (split_once CHR '':'' entry)) (\<lambda>(_, token). checked_token (trim token)))"

definition configured_tokens :: "string option \<Rightarrow> string option \<Rightarrow> (hosted_error, string list) result" where
  "configured_tokens single_token registry =
     (case (single_token, registry) of
        (Some _, Some _) \<Rightarrow> Inl NeedsOneSource
      | (None, None) \<Rightarrow> Inl NeedsAuthentication
      | (Some token, None) \<Rightarrow> map_result (\<lambda>t. [t]) (checked_token token)
      | (None, Some spec) \<Rightarrow>
          and_then (collect_results configured_entry (split_on CHR '','' spec)) (\<lambda>tokens.
            if tokens = [] then Inl NoTokens else Inr tokens))"

definition validate_ledger_path :: "string \<Rightarrow> (hosted_error, unit) result" where
  "validate_ledger_path raw =
     (if \<not> prefix ''/'' raw \<or> raw = '':memory:'' \<or>
         list_ex (\<lambda>c. c = CurDir \<or> c = ParentDir) (components raw)
      then Inl LedgerNotAbsolute
      else if \<not> prefix (components ''/data'') (components raw) \<or> components raw = components ''/data''
      then Inl LedgerNotMounted
      else Inr ())"

text \<open>\<open>Url::host_str\<close>.\<close>

fun host_str :: "lib \<Rightarrow> host \<Rightarrow> string" where
  "host_str L (Domain d) = d"
| "host_str L (Ip (V4 a)) = show_ip L (V4 a)"
| "host_str L (Ip (V6 a)) = ''['' @ show_ip L (V6 a) @ '']''"

definition validate_upstream :: "lib \<Rightarrow> string \<Rightarrow> (hosted_error, unit) result" where
  "validate_upstream L raw =
     and_then (ok_or UpstreamInvalid (parse_url L raw)) (\<lambda>url.
     if u_scheme url \<noteq> ''https'' then Inl UpstreamNotHttps
     else if u_username url \<noteq> [] \<or> u_password url \<noteq> None \<or> u_fragment url \<noteq> None then Inl UpstreamCredentials
     else and_then (ok_or UpstreamNoHost (u_host url)) (\<lambda>h.
       let name = to_ascii_lowercase (host_str L h) in
       if name = ''localhost'' \<or> name = ''example.com'' \<or> suffix ''.example'' name \<or> suffix ''.invalid'' name \<or>
          suffix ''.test'' name
       then Inl PlaceholderHost else Inr ()))"

definition hosted_constant_time_eq :: "string \<Rightarrow> string \<Rightarrow> bool" where
  "hosted_constant_time_eq left right \<longleftrightarrow>
     (if length left \<noteq> length right then False
      else fold (\<lambda>i difference. difference OR (byte (left ! i) XOR byte (right ! i))) [0..<length left] 0 = 0)"

definition validate_hosted :: "lib \<Rightarrow> string \<Rightarrow> string \<Rightarrow> hosted_safety_config \<Rightarrow> (hosted_error, unit) result" where
  "validate_hosted L fixture schema config =
     (if hs_profile config = Developer then Inr ()
      else
        and_then (map_error ContractBroken (validate_hosted_contract L fixture schema)) (\<lambda>_.
        and_then (configured_tokens (hs_agent_token config) (hs_agents config)) (\<lambda>agent_tokens.
        and_then (configured_tokens (hs_decide_token config) (hs_deciders config)) (\<lambda>operator_tokens.
        if list_ex (\<lambda>agent. list_ex (hosted_constant_time_eq agent) operator_tokens) agent_tokens then Inl SharedCredentials
        else if \<not> hs_enforce_mode config then Inl NeedsEnforce
        else if hs_verbose_verdicts config then Inl VerboseForbidden
        else and_then (ok_or NeedsQps (hs_rate_limit_qps config)) (\<lambda>qps.
        if \<not> (MINIMUM_RATE_LIMIT_QPS \<le> qps \<and> qps \<le> MAXIMUM_RATE_LIMIT_QPS) then Inl QpsRange
        else and_then (ok_or NeedsBurst (hs_rate_limit_burst config)) (\<lambda>burst.
        if \<not> (MINIMUM_RATE_LIMIT_BURST \<le> burst \<and> burst \<le> MAXIMUM_RATE_LIMIT_BURST) then Inl BurstRange
        else and_then (validate_ledger_path (hs_ledger_path config)) (\<lambda>_.
        and_then (validate_upstream L (hs_upstream_url config)) (\<lambda>_.
        if hs_upstream_adapter config \<noteq> McpJsonRpcV1 then Inl NeedsMcpAdapter
        else if hs_upstream_timeout config = 0 \<or> MAXIMUM_UPSTREAM_TIMEOUT < hs_upstream_timeout config
        then Inl TimeoutRange
        else Inr ()))))))))"

section \<open>Facts about the checks\<close>

lemma hosted_constant_time_eq_iff [simp]: "hosted_constant_time_eq left right \<longleftrightarrow> left = right"
  unfolding hosted_constant_time_eq_def constant_time_eq_iff [symmetric] constant_time_eq_def by simp

lemma checked_token_Inr: "checked_token t = Inr u \<longleftrightarrow> u = trim t \<and> MINIMUM_TOKEN_BYTES \<le> length (trim t)"
  by (auto simp: checked_token_def)

text \<open>
  The tokens that were checked are those of the registry that is built from the same setting, up to
  white space around them.
\<close>

lemma configured_single:
  "configured_tokens (Some t) registry = Inr tokens \<longleftrightarrow>
   registry = None \<and> tokens = [trim t] \<and> MINIMUM_TOKEN_BYTES \<le> length (trim t)"
  by (cases registry) (auto simp: configured_tokens_def checked_token_Inr)

lemma configured_entry_Inr:
  "configured_entry raw = Inr u \<longleftrightarrow> trim raw \<noteq> [] \<and> (\<exists>l t. split_once CHR '':'' (trim raw) = Some (l, t) \<and>
     u = trim (trim t) \<and> MINIMUM_TOKEN_BYTES \<le> length u)"
  by (auto simp: configured_entry_def Let_def checked_token_Inr split: prod.splits)

lemma configured_registry:
  assumes "configured_tokens None (Some spec) = Inr tokens" "e \<in> set (declared spec)"
    and "split_once CHR '':'' e = Some (l, t)"
  shows "trim (trim t) \<in> set tokens \<and> MINIMUM_TOKEN_BYTES \<le> length (trim t)"
proof -
  from assms(1) have a: "list_all2 (\<lambda>raw u. configured_entry raw = Inr u) (split_on CHR '','' spec) tokens"
    by (auto simp: configured_tokens_def collect_results_Inr split: if_splits)
  from assms(2) obtain raw where raw: "raw \<in> set (split_on CHR '','' spec)" "e = trim raw"
    by (auto simp: declared_def)
  from a raw(1) obtain u where "u \<in> set tokens" "configured_entry raw = Inr u"
    by (induction rule: list_all2_induct) auto
  with raw(2) assms(3) trim_length [of "trim t"] show ?thesis by (auto simp: configured_entry_Inr)
qed

lemma validate_hosted_Inr:
  assumes "validate_hosted L fixture schema config = Inr ()" "hs_profile config = Hosted"
  obtains agents operators qps burst where
    "configured_tokens (hs_agent_token config) (hs_agents config) = Inr agents"
    "configured_tokens (hs_decide_token config) (hs_deciders config) = Inr operators"
    "\<forall>agent \<in> set agents. agent \<notin> set operators" "hs_enforce_mode config" "\<not> hs_verbose_verdicts config"
    "hs_rate_limit_qps config = Some qps" "1 / 10 \<le> qps" "qps \<le> 100"
    "hs_rate_limit_burst config = Some burst" "1 \<le> burst" "burst \<le> 200"
    "validate_ledger_path (hs_ledger_path config) = Inr ()" "validate_upstream L (hs_upstream_url config) = Inr ()"
    "hs_upstream_adapter config = McpJsonRpcV1"
    "0 < hs_upstream_timeout config" "hs_upstream_timeout config \<le> 30000000000"
  using assms
  by (auto simp: validate_hosted_def list_ex_iff MINIMUM_RATE_LIMIT_QPS_def MAXIMUM_RATE_LIMIT_QPS_def
      MINIMUM_RATE_LIMIT_BURST_def MAXIMUM_RATE_LIMIT_BURST_def MAXIMUM_UPSTREAM_TIMEOUT_def not_le not_less
      split: if_splits)

end
