(* ===== verification/Paths.thy ===== *)
theory Paths
  imports Prelude
begin

text \<open>The operations of \<open>std::path::Path\<close> that the program uses, on UTF-8 paths with \<open>/\<close> as separator.\<close>

text \<open>Trailing separators and dots do not count as components.\<close>

function strip_tail :: "string \<Rightarrow> string" where
  "strip_tail p =
     (if 1 < length p \<and> (suffix ''/'' p \<or> suffix ''/.'' p) then strip_tail (butlast p) else p)"
  by pat_completeness auto
termination by (relation "measure length") auto

declare strip_tail.simps [simp del]

definition last_piece :: "string \<Rightarrow> string" where
  "last_piece p = last (split_on CHR ''/'' (strip_tail p))"

text \<open>\<open>Path::parent\<close>, \<open>Path::file_name\<close> and \<open>Path::join\<close>.\<close>

definition path_parent :: "string \<Rightarrow> string option" where
  "path_parent p =
     (let q = strip_tail p in
      if q = [] \<or> q = ''/'' then None else Some (strip_tail (take (length q - length (last_piece p)) q)))"

definition path_file_name :: "string \<Rightarrow> string option" where
  "path_file_name p =
     (if last_piece p \<in> set [[], ''.'', ''..''] then None else Some (last_piece p))"

definition path_join :: "string \<Rightarrow> string \<Rightarrow> string" where
  "path_join p name = (if p = [] \<or> suffix ''/'' p then p @ name else p @ ''/'' @ name)"

text \<open>
  \<open>Path::extension\<close>: what follows the last dot of the file name, unless that dot is its first character.
\<close>

definition path_extension :: "string \<Rightarrow> string option" where
  "path_extension p =
     (case path_file_name p of
        None \<Rightarrow> None
      | Some n \<Rightarrow>
          (let pieces = split_on CHR ''.'' n in
           if length pieces < 2 \<or> pieces = [[], last pieces] then None else Some (last pieces)))"

lemma path_extension_examples:
  "path_extension ''policies/governance.rego'' = Some ''rego''" "path_extension ''policies/.rego'' = None"
  "path_extension ''policies/a.rego.bak'' = Some ''bak''" "path_extension ''policies/rego'' = None"
  by code_simp+

end
