(* ===== verification/Policy_Load.thy ===== *)
theory Policy_Load
  imports Paths
begin

text \<open>
  Loading the policies of \<open>src/policy.rs\<close>: \<open>PolicyEngine::from_embedded\<close> and \<open>PolicyEngine::from_dir\<close>. An
  engine is the list of the policies that were added to it; whether the Rego parser accepts the next one is an
  argument, like the directory and the files.
\<close>

type_synonym rego_engine = "(string \<times> string) list"

text \<open>
  \<open>pe_read_dir\<close> is \<open>None\<close> when the directory cannot be opened; an entry is \<open>None\<close> when reading it fails, and
  \<open>pe_read\<close> when the file cannot be read as UTF-8.
\<close>

record policy_env =
  pe_read_dir :: "string \<Rightarrow> string option list option"
  pe_read :: "string \<Rightarrow> string option"
  pe_accepts :: "rego_engine \<Rightarrow> string \<Rightarrow> string \<Rightarrow> bool"
  pe_embedded :: string

datatype policy_error =
    ReadDir string
  | ReadEntry
  | ReadPolicy string
  | AddPolicy string
  | NoPolicies string

record policy_engine =
  en_policies :: rego_engine
  en_velocity_window :: nat

definition EMBEDDED_POLICY_NAME :: string where
  "EMBEDDED_POLICY_NAME = ''embedded:governance.rego''"

definition add_policy :: "policy_env \<Rightarrow> string \<Rightarrow> string \<Rightarrow> rego_engine \<Rightarrow> (policy_error, rego_engine) result" where
  "add_policy P name text engine =
     (if pe_accepts P engine name text then Inr (engine @ [(name, text)]) else Inl (AddPolicy name))"

definition policy_engine_new :: "rego_engine \<Rightarrow> nat \<Rightarrow> policy_engine" where
  "policy_engine_new engine velocity_window_secs =
     \<lparr>en_policies = engine, en_velocity_window = velocity_window_secs\<rparr>"

definition from_embedded :: "policy_env \<Rightarrow> nat \<Rightarrow> (policy_error, policy_engine) result" where
  "from_embedded P velocity_window_secs =
     map_result (\<lambda>engine. policy_engine_new engine velocity_window_secs)
       (add_policy P EMBEDDED_POLICY_NAME (pe_embedded P) [])"

fun load_entries ::
  "policy_env \<Rightarrow> string option list \<Rightarrow> rego_engine \<Rightarrow> nat \<Rightarrow> (policy_error, rego_engine \<times> nat) result"
where
  "load_entries P [] engine loaded = Inr (engine, loaded)"
| "load_entries P (None # entries) engine loaded = Inl ReadEntry"
| "load_entries P (Some path # entries) engine loaded =
     (if path_extension path \<noteq> Some ''rego'' then load_entries P entries engine loaded
      else case pe_read P path of
        None \<Rightarrow> Inl (ReadPolicy path)
      | Some text \<Rightarrow>
          and_then (add_policy P path text engine) (\<lambda>engine'. load_entries P entries engine' (Suc loaded)))"

definition from_dir :: "policy_env \<Rightarrow> string \<Rightarrow> nat \<Rightarrow> (policy_error, policy_engine) result" where
  "from_dir P policy_dir velocity_window_secs =
     (case pe_read_dir P policy_dir of
        None \<Rightarrow> Inl (ReadDir policy_dir)
      | Some entries \<Rightarrow>
          and_then (load_entries P entries [] 0) (\<lambda>(engine, loaded).
            if loaded = 0 then Inl (NoPolicies policy_dir)
            else Inr (policy_engine_new engine velocity_window_secs)))"

section \<open>All or nothing\<close>

definition rego_paths :: "string option list \<Rightarrow> string list" where
  "rego_paths entries = filter (\<lambda>p. path_extension p = Some ''rego'') (map the (filter (\<lambda>e. e \<noteq> None) entries))"

text \<open>The engine takes each of these policies after those before it.\<close>

fun accepts_all :: "policy_env \<Rightarrow> rego_engine \<Rightarrow> rego_engine \<Rightarrow> bool" where
  "accepts_all P engine [] = True"
| "accepts_all P engine ((name, text) # rest) \<longleftrightarrow>
     pe_accepts P engine name text \<and> accepts_all P (engine @ [(name, text)]) rest"

lemma rego_paths_simps [simp]:
  "rego_paths [] = []" "rego_paths (None # es) = rego_paths es"
  "rego_paths (Some p # es) = (if path_extension p = Some ''rego'' then p # rego_paths es else rego_paths es)"
  by (simp_all add: rego_paths_def)

lemma load_entries_Inr:
  "load_entries P entries engine loaded = Inr (engine', loaded') \<longleftrightarrow>
   None \<notin> set entries \<and>
   (\<exists>policies. map fst policies = rego_paths entries \<and>
      (\<forall>(path, text) \<in> set policies. pe_read P path = Some text) \<and> accepts_all P engine policies \<and>
      engine' = engine @ policies \<and> loaded' = loaded + length policies)"
proof (induction entries arbitrary: engine loaded)
  case (Cons e entries)
  show ?case
  proof (cases e)
    case (Some path)
    show ?thesis
    proof (cases "path_extension path = Some ''rego''")
      case True
      with Some Cons show ?thesis
        by (cases "pe_read P path")
          (auto simp: add_policy_def Cons_eq_map_conv map_eq_Cons_conv split: if_splits)
    qed (use Some Cons in simp)
  qed simp
qed auto

text \<open>
  C17. Policies are loaded all or nothing: an engine comes out of a directory exactly when the directory can be
  listed without an error, holds at least one file with the extension \<open>rego\<close>, and each of them can be read and
  is accepted; the engine then holds exactly these files, in the order of the listing.
\<close>

theorem policies_load_all_or_nothing:
  "from_dir P policy_dir window = Inr engine \<longleftrightarrow>
   (\<exists>entries policies. pe_read_dir P policy_dir = Some entries \<and> None \<notin> set entries \<and>
      policies \<noteq> [] \<and> map fst policies = rego_paths entries \<and>
      (\<forall>(path, text) \<in> set policies. pe_read P path = Some text) \<and> accepts_all P [] policies \<and>
      engine = \<lparr>en_policies = policies, en_velocity_window = window\<rparr>)"
proof (cases "pe_read_dir P policy_dir")
  case (Some entries)
  show ?thesis
  proof (cases "load_entries P entries [] 0")
    case (Inl e)
    with Some load_entries_Inr [of P entries "[]" 0] show ?thesis by (auto simp: from_dir_def)
  next
    case (Inr r)
    then obtain policies loaded where r: "r = (policies, loaded)" by (cases r)
    with Some Inr load_entries_Inr [of P entries "[]" 0] show ?thesis
      by (auto simp: from_dir_def policy_engine_new_def)
  qed
qed (simp add: from_dir_def)

definition two_policies :: policy_env where
  "two_policies = \<lparr>pe_read_dir = (\<lambda>d. if d = ''p'' then Some [Some ''p/a.rego'', Some ''p/README.md'', Some ''p/b.rego''] else None),
     pe_read = (\<lambda>p. Some ''package x''), pe_accepts = (\<lambda>engine name text. text = ''package x''), pe_embedded = ''package x''\<rparr>"

lemma policies_load_all_or_nothing_witness:
  "from_dir two_policies ''p'' 60 =
     Inr \<lparr>en_policies = [(''p/a.rego'', ''package x''), (''p/b.rego'', ''package x'')], en_velocity_window = 60\<rparr>"
proof -
  have "path_extension ''p/a.rego'' = Some ''rego''" "path_extension ''p/b.rego'' = Some ''rego''"
    "path_extension ''p/README.md'' \<noteq> Some ''rego''" by code_simp+
  then show ?thesis
    by (intro iffD2 [OF policies_load_all_or_nothing]) (simp add: two_policies_def)
qed

end
