(* ===== verification/Schema.thy ===== *)
theory Schema
  imports Db
begin

text \<open>
  Opening the database file: \<open>Ledger::open\<close> and \<open>init_schema\<close> of \<open>src/ledger.rs\<close>, which creates the tables and
  indexes on first use and adds columns to the tables of earlier releases.

  The SQL statements of the schema are data here, with what SQLite documents for them: \<open>IF NOT EXISTS\<close> skips a
  name that is taken, an index needs its table and its columns, an added column needs a default that its
  constraints accept when the table has rows. Every statement may also fail for reasons of its own; outside a
  transaction the statements before it stay in force. Names are compared exactly, and a table and an index of
  one name are not considered.
\<close>

named_theorems schema_defs \<open>the statements of the schema\<close>

section \<open>Tables and statements\<close>

datatype sql_value = SqlNull | SqlInteger int | SqlText string | SqlBlob string

record column =
  co_name :: string
  co_type :: string
  co_not_null :: bool
  co_default :: sql_value
  co_in :: "string list"

record sql_table =
  tb_columns :: "column list"
  tb_unique :: "string list list"
  tb_rows :: "sql_value list list"

record database =
  db_fault :: "nat \<Rightarrow> bool"
  db_calls :: nat
  db_tables :: "string \<rightharpoonup> sql_table"
  db_indexes :: "string \<rightharpoonup> string \<times> string list"

datatype sql_stmt =
    CreateTable string sql_table
  | CreateIndex string string "string list"
  | AddColumn string column

definition column_names :: "sql_table \<Rightarrow> string list" where
  "column_names T = map co_name (tb_columns T)"

text \<open>A \<open>CHECK (c IN (...))\<close> accepts \<open>NULL\<close>.\<close>

definition default_ok :: "column \<Rightarrow> bool" where
  "default_ok c \<longleftrightarrow>
     (co_not_null c \<longrightarrow> co_default c \<noteq> SqlNull) \<and>
     (co_in c = [] \<or> co_default c = SqlNull \<or> co_default c \<in> SqlText ` set (co_in c))"

definition add_columns :: "column list \<Rightarrow> sql_table \<Rightarrow> sql_table" where
  "add_columns cs T = T\<lparr>tb_columns := tb_columns T @ cs,
     tb_rows := map (\<lambda>r. r @ map co_default cs) (tb_rows T)\<rparr>"

fun apply_stmt :: "sql_stmt \<Rightarrow> database \<Rightarrow> (sql_error, database) result" where
  "apply_stmt (CreateTable t T) db =
     Inr (if t \<in> dom (db_tables db) then db else db\<lparr>db_tables := (db_tables db)(t \<mapsto> T)\<rparr>)"
| "apply_stmt (CreateIndex n t cs) db =
     (case db_tables db t of
        None \<Rightarrow> Inl SqliteFailure
      | Some T \<Rightarrow>
          if n \<in> dom (db_indexes db) then Inr db
          else if set cs \<subseteq> set (column_names T) then Inr (db\<lparr>db_indexes := (db_indexes db)(n \<mapsto> (t, cs))\<rparr>)
          else Inl SqliteFailure)"
| "apply_stmt (AddColumn t c) db =
     (case db_tables db t of
        None \<Rightarrow> Inl SqliteFailure
      | Some T \<Rightarrow>
          if co_name c \<in> set (column_names T) \<or> (tb_rows T \<noteq> [] \<and> \<not> default_ok c) then Inl SqliteFailure
          else Inr (db\<lparr>db_tables := (db_tables db)(t \<mapsto> add_columns [c] T)\<rparr>))"

type_synonym 'a schema_op = "database \<Rightarrow> (sql_error, 'a) result \<times> database"

definition tick_db :: "database \<Rightarrow> database" where
  "tick_db db = db\<lparr>db_calls := Suc (db_calls db)\<rparr>"

text \<open>One call of the library: the environment may fail it, and a failed call changes nothing.\<close>

definition call_db :: "(database \<Rightarrow> (sql_error, 'a \<times> database) result) \<Rightarrow> 'a schema_op" where
  "call_db f db =
     (if db_fault db (db_calls db) then (Inl SqliteFailure, tick_db db)
      else case f (tick_db db) of Inl e \<Rightarrow> (Inl e, tick_db db) | Inr (x, db') \<Rightarrow> (Inr x, db'))"

definition execute :: "sql_stmt \<Rightarrow> unit schema_op" where
  "execute s = call_db (\<lambda>db. map_result (Pair ()) (apply_stmt s db))"

fun execute_batch :: "sql_stmt list \<Rightarrow> unit schema_op" where
  "execute_batch [] db = (Inr (), db)"
| "execute_batch (s # ss) db =
     (case execute s db of (Inl e, db') \<Rightarrow> (Inl e, db') | (Inr _, db') \<Rightarrow> execute_batch ss db')"

text \<open>\<open>PRAGMA table_info\<close> of a table that does not exist has no rows.\<close>

definition has_column :: "string \<Rightarrow> string \<Rightarrow> bool schema_op" where
  "has_column t name = call_db (\<lambda>db. Inr (case db_tables db t of
     None \<Rightarrow> False | Some T \<Rightarrow> name \<in> set (column_names T), db))"

section \<open>The schema\<close>

definition col :: "string \<Rightarrow> string \<Rightarrow> column" where
  "col name ty = \<lparr>co_name = name, co_type = ty, co_not_null = False, co_default = SqlNull, co_in = []\<rparr>"

definition not_null :: "column \<Rightarrow> column" where
  "not_null c = c\<lparr>co_not_null := True\<rparr>"

definition default_to :: "sql_value \<Rightarrow> column \<Rightarrow> column" where
  "default_to v c = c\<lparr>co_default := v\<rparr>"

definition check_in :: "string list \<Rightarrow> column \<Rightarrow> column" where
  "check_in vs c = c\<lparr>co_in := vs\<rparr>"

definition chain_version_column :: column where
  "chain_version_column = default_to (SqlInteger 1) (not_null (col ''chain_version'' ''INTEGER''))"

definition entries_table :: sql_table where
  "entries_table =
     \<lparr>tb_columns =
        [col ''id'' ''TEXT'', not_null (col ''seq'' ''INTEGER''), not_null (col ''timestamp'' ''TEXT''),
         not_null (col ''agent_id'' ''TEXT''), not_null (col ''method'' ''TEXT''),
         not_null (col ''intent_category'' ''TEXT''), not_null (col ''authorized'' ''INTEGER''),
         not_null (col ''reasoning'' ''TEXT''), col ''policy_decision'' ''TEXT'',
         not_null (col ''prev_hash'' ''TEXT''), not_null (col ''entry_hash'' ''TEXT''),
         chain_version_column, col ''correlation_id'' ''TEXT''],
      tb_unique = [[''id''], [''seq'']], tb_rows = []\<rparr>"

definition pendings_table :: sql_table where
  "pendings_table =
     \<lparr>tb_columns =
        [col ''correlation_id'' ''TEXT'', not_null (col ''tenant'' ''TEXT''), not_null (col ''agent_id'' ''TEXT''),
         not_null (col ''tool_type'' ''TEXT''), not_null (col ''method'' ''TEXT''),
         not_null (col ''review_reasons_json'' ''TEXT''), not_null (col ''requested_at'' ''TEXT''),
         col ''decided_at'' ''TEXT'', col ''decision'' ''TEXT'', col ''decider_note'' ''TEXT'',
         col ''callback_url'' ''TEXT''],
      tb_unique = [[''correlation_id'']], tb_rows = []\<rparr>"

definition reconciliation_states :: "string list" where
  "reconciliation_states = [''legacy'', ''pending'', ''resolved'', ''uncertain'']"

definition reconciliation_columns :: "column list" where
  "reconciliation_columns =
     [check_in reconciliation_states (default_to (SqlText ''legacy'') (not_null (col ''reconciliation_state'' ''TEXT''))),
      default_to (SqlInteger 0) (not_null (col ''reconciliation_attempts'' ''INTEGER'')),
      col ''last_reconciled_at'' ''TEXT'', col ''reconciliation_error'' ''TEXT'',
      col ''reconciliation_resolved_at'' ''TEXT'', col ''owner_instance'' ''TEXT'']"

definition server_executions_table :: sql_table where
  "server_executions_table =
     \<lparr>tb_columns =
        [not_null (col ''agent_id'' ''TEXT''), not_null (col ''idempotency_id'' ''TEXT''),
         not_null (col ''execution_id'' ''TEXT''), not_null (col ''correlation_id'' ''TEXT''),
         not_null (col ''route'' ''TEXT''), not_null (col ''method'' ''TEXT''), not_null (col ''tool_name'' ''TEXT''),
         not_null (col ''submitted_request_sha256'' ''TEXT''), not_null (col ''effective_request_sha256'' ''TEXT''),
         check_in [''in_flight'', ''completed''] (not_null (col ''state'' ''TEXT'')),
         col ''response_status'' ''INTEGER'', col ''response_content_type'' ''TEXT'', col ''response_body'' ''BLOB'',
         col ''result_sha256'' ''TEXT'', col ''receipt_json'' ''TEXT'', not_null (col ''created_at'' ''TEXT''),
         col ''completed_at'' ''TEXT''] @ reconciliation_columns,
      tb_unique = [[''execution_id''], [''agent_id'', ''idempotency_id'']], tb_rows = []\<rparr>"

definition outbox_table :: sql_table where
  "outbox_table =
     \<lparr>tb_columns =
        [col ''event_id'' ''TEXT'', not_null (col ''execution_id'' ''TEXT''), not_null (col ''payload_json'' ''TEXT''),
         not_null (col ''created_at'' ''TEXT''), col ''delivered_at'' ''TEXT''],
      tb_unique = [[''event_id''], [''execution_id'']], tb_rows = []\<rparr>"

definition correlation_index :: sql_stmt where
  "correlation_index = CreateIndex ''idx_entries_correlation_id'' ''entries'' [''correlation_id'']"

definition tenant_agent_index :: sql_stmt where
  "tenant_agent_index = CreateIndex ''idx_pendings_tenant_agent'' ''pendings'' [''tenant'', ''agent_id'']"

definition schema_batch :: "sql_stmt list" where
  "schema_batch =
     [CreateTable ''entries'' entries_table,
      CreateIndex ''idx_entries_agent_id'' ''entries'' [''agent_id''],
      CreateIndex ''idx_entries_seq'' ''entries'' [''seq''],
      correlation_index,
      CreateTable ''pendings'' pendings_table,
      CreateIndex ''idx_pendings_decided_at'' ''pendings'' [''decided_at''],
      tenant_agent_index,
      CreateTable ''server_executions'' server_executions_table,
      CreateTable ''server_execution_outbox'' outbox_table]"

text \<open>A step of \<open>init_schema\<close>: a batch, or a column that is added when it is missing, with what follows it.\<close>

datatype schema_step =
    Run "sql_stmt list"
  | Unless_Column string column "sql_stmt list"

definition schema_steps :: "schema_step list" where
  "schema_steps =
     [Run schema_batch,
      Unless_Column ''entries'' chain_version_column [],
      Unless_Column ''entries'' (col ''correlation_id'' ''TEXT'') [correlation_index],
      Unless_Column ''pendings'' (col ''callback_url'' ''TEXT'') [],
      Unless_Column ''pendings'' (default_to (SqlText ''_legacy_unqualified'') (not_null (col ''tenant'' ''TEXT''))) [],
      Run [tenant_agent_index]] @
     map (\<lambda>c. Unless_Column ''server_executions'' c []) reconciliation_columns"

fun run_step :: "schema_step \<Rightarrow> unit schema_op" where
  "run_step (Run ss) db = execute_batch ss db"
| "run_step (Unless_Column t c ss) db =
     (case has_column t (co_name c) db of
        (Inl e, db') \<Rightarrow> (Inl e, db')
      | (Inr True, db') \<Rightarrow> (Inr (), db')
      | (Inr False, db') \<Rightarrow> execute_batch (AddColumn t c # ss) db')"

fun run_steps :: "schema_step list \<Rightarrow> unit schema_op" where
  "run_steps [] db = (Inr (), db)"
| "run_steps (s # ss) db =
     (case run_step s db of (Inl e, db') \<Rightarrow> (Inl e, db') | (Inr _, db') \<Rightarrow> run_steps ss db')"

definition init_schema :: "unit schema_op" where
  "init_schema = run_steps schema_steps"

text \<open>
  \<open>Ledger::open\<close>: the connection, the two pragmas and the schema. The journal mode and the busy timeout concern
  other processes and are no part of this state. \<open>instance\<close> is the random identity of the new \<open>Ledger\<close>.
\<close>

definition seq_db :: "'a schema_op \<Rightarrow> 'b schema_op \<Rightarrow> 'b schema_op" where
  "seq_db m k db = (case m db of (Inl e, db') \<Rightarrow> (Inl e, db') | (Inr _, db') \<Rightarrow> k db')"

definition open_connection :: "unit schema_op" where
  "open_connection = call_db (\<lambda>db. Inr ((), db))"

definition pragma_update :: "string \<Rightarrow> string \<Rightarrow> unit schema_op" where
  "pragma_update name value = call_db (\<lambda>db. Inr ((), db))"

definition open_db :: "string \<Rightarrow> string schema_op" where
  "open_db instance =
     seq_db open_connection
       (seq_db (pragma_update ''journal_mode'' ''WAL'')
         (seq_db (pragma_update ''busy_timeout'' ''5000'')
           (seq_db init_schema (\<lambda>db. (Inr instance, db)))))"

section \<open>What a migration keeps\<close>

text \<open>The value of a column in a row, by name.\<close>

definition field :: "sql_table \<Rightarrow> sql_value list \<Rightarrow> string \<Rightarrow> sql_value option" where
  "field T r name = map_of (zip (column_names T) r) name"

definition well_formed_table :: "sql_table \<Rightarrow> bool" where
  "well_formed_table T \<longleftrightarrow>
     distinct (column_names T) \<and>
     list_all (\<lambda>r. length r = length (tb_columns T)) (tb_rows T) \<and>
     list_all (\<lambda>u. set u \<subseteq> set (column_names T)) (tb_unique T)"

definition well_formed :: "database \<Rightarrow> bool" where
  "well_formed db \<longleftrightarrow>
     (\<forall>t T. db_tables db t = Some T \<longrightarrow> well_formed_table T) \<and>
     (\<forall>n t cs. db_indexes db n = Some (t, cs) \<longrightarrow>
        (\<exists>T. db_tables db t = Some T \<and> set cs \<subseteq> set (column_names T)))"

definition extends :: "database \<Rightarrow> database \<Rightarrow> bool" where
  "extends db db' \<longleftrightarrow>
     (\<forall>t T. db_tables db t = Some T \<longrightarrow> (\<exists>cs. db_tables db' t = Some (add_columns cs T))) \<and>
     db_indexes db \<subseteq>\<^sub>m db_indexes db' \<and> db_fault db' = db_fault db"

definition same_content :: "database \<Rightarrow> database \<Rightarrow> bool" where
  "same_content db db' \<longleftrightarrow> db_tables db' = db_tables db \<and> db_indexes db' = db_indexes db"

lemma add_columns_Nil [simp]: "add_columns [] T = T"
  by (simp add: add_columns_def)

lemma some_columns_added [simp]: "\<exists>cs. T = add_columns cs T" "\<exists>cs. add_columns ds T = add_columns cs T"
  by (metis add_columns_Nil) blast

lemma add_columns_append: "add_columns ds (add_columns cs T) = add_columns (cs @ ds) T"
  by (simp add: add_columns_def)

lemma column_names_add [simp]: "column_names (add_columns cs T) = column_names T @ map co_name cs"
  by (simp add: column_names_def add_columns_def)

lemma tick_db_simps [simp]:
  "db_tables (tick_db db) = db_tables db" "db_indexes (tick_db db) = db_indexes db" "db_fault (tick_db db) = db_fault db"
  by (simp_all add: tick_db_def)

lemma well_formed_tick [simp]: "well_formed (tick_db db) = well_formed db"
  by (simp add: well_formed_def)

lemma extends_tick [simp]: "extends db (tick_db db)" "extends (tick_db db) db' = extends db db'"
  by (auto simp: extends_def intro: exI [of _ "[]"])

lemma extends_refl [simp]: "extends db db"
  by (auto simp: extends_def intro: exI [of _ "[]"])

lemma extends_trans: "extends a b \<Longrightarrow> extends b c \<Longrightarrow> extends a c"
  unfolding extends_def by (metis add_columns_append map_le_trans)

lemma apply_stmt_extends: "apply_stmt s db = Inr db' \<Longrightarrow> extends db db'"
  by (cases s) (auto simp: extends_def map_le_def split: if_splits option.splits)

lemma well_formed_add_columns:
  assumes "well_formed_table T" "co_name c \<notin> set (column_names T)"
  shows "well_formed_table (add_columns [c] T)"
  using assms unfolding well_formed_table_def
  by (auto simp: add_columns_def column_names_def list_all_iff)

lemmas table_defs = entries_table_def pendings_table_def server_executions_table_def outbox_table_def
  reconciliation_columns_def chain_version_column_def col_def not_null_def default_to_def check_in_def

fun stmt_ok :: "sql_stmt \<Rightarrow> bool" where
  "stmt_ok (CreateTable t T) = well_formed_table T"
| "stmt_ok _ = True"

lemma apply_stmt_well_formed:
  assumes "apply_stmt s db = Inr db'" "stmt_ok s" "well_formed db"
  shows "well_formed db'"
proof (cases s)
  case (CreateTable t T)
  then show ?thesis using assms by (fastforce simp: well_formed_def split: if_splits)
next
  case (CreateIndex n t cs)
  then show ?thesis using assms by (fastforce simp: well_formed_def split: if_splits option.splits)
next
  case (AddColumn t c)
  then obtain T where T: "db_tables db t = Some T" "co_name c \<notin> set (column_names T)"
      "db' = db\<lparr>db_tables := (db_tables db)(t \<mapsto> add_columns [c] T)\<rparr>"
    using assms(1) by (auto split: if_splits option.splits)
  then show ?thesis using assms(3) by (fastforce simp: well_formed_def intro: well_formed_add_columns)
qed

text \<open>What holds of every statement that is executed holds of the whole migration.\<close>

definition step_stmts :: "schema_step \<Rightarrow> sql_stmt list" where
  "step_stmts s = (case s of Run ss \<Rightarrow> ss | Unless_Column t c ss \<Rightarrow> AddColumn t c # ss)"

locale preserved =
  fixes R :: "database \<Rightarrow> database \<Rightarrow> bool" and good :: "sql_stmt \<Rightarrow> bool"
  assumes R_tick: "R db (tick_db db)"
    and R_trans: "R a b \<Longrightarrow> R b c \<Longrightarrow> R a c"
    and R_refl: "R db db"
    and R_stmt: "good s \<Longrightarrow> apply_stmt s db = Inr db' \<Longrightarrow> R db db'"
begin

lemma seq_keeps: "(\<And>db. R db (snd (m db))) \<Longrightarrow> (\<And>db. R db (snd (k db))) \<Longrightarrow> R db (snd (seq_db m k db))"
  using R_trans [of db "snd (m db)"] by (auto simp: seq_db_def split: prod.split sum.split) (metis snd_conv)+

lemma execute_keeps: "good s \<Longrightarrow> R db (snd (execute s db))"
  using R_tick [of db] R_stmt [of s "tick_db db"] R_trans
  by (cases "apply_stmt s (tick_db db)") (auto simp: execute_def call_db_def)

lemma execute_batch_keeps: "list_all good ss \<Longrightarrow> R db (snd (execute_batch ss db))"
proof (induction ss arbitrary: db)
  case (Cons s ss)
  then show ?case
    using execute_keeps [of s db] R_trans by (auto split: prod.splits sum.splits)
qed (simp add: R_refl)

lemma has_column_keeps: "R db (snd (has_column t name db))"
  by (simp add: has_column_def call_db_def R_tick)

lemma run_step_keeps:
  assumes "list_all good (step_stmts s)"
  shows "R db (snd (run_step s db))"
proof (cases s)
  case (Run ss)
  with assms show ?thesis by (simp add: step_stmts_def execute_batch_keeps)
next
  case (Unless_Column t c ss)
  moreover obtain r db1 where h: "has_column t (co_name c) db = (r, db1)" by fastforce
  moreover have "R db db1" using has_column_keeps [of db t "co_name c"] h by simp
  moreover have "R db1 (snd (execute_batch (AddColumn t c # ss) db1))"
    using assms Unless_Column by (intro execute_batch_keeps) (simp add: step_stmts_def)
  ultimately show ?thesis using R_trans [of db db1]
    by (auto simp del: execute_batch.simps split: sum.splits bool.splits)
qed

lemma run_steps_keep: "list_all (\<lambda>s. list_all good (step_stmts s)) steps \<Longrightarrow> R db (snd (run_steps steps db))"
proof (induction steps arbitrary: db)
  case (Cons s steps)
  then show ?case
    using run_step_keeps [of s db] R_trans by (auto split: prod.splits sum.splits)
qed (simp add: R_refl)

end

interpretation extending: preserved extends "\<lambda>_. True"
  by unfold_locales (auto intro: extends_trans apply_stmt_extends)

interpretation forming: preserved "\<lambda>db db'. well_formed db \<longrightarrow> well_formed db'" stmt_ok
  by unfold_locales (auto intro: apply_stmt_well_formed)

section \<open>What a successful migration achieves\<close>

text \<open>What a statement leaves behind; later statements keep it, and it makes the statement a no-op.\<close>

fun present :: "sql_stmt \<Rightarrow> database \<Rightarrow> bool" where
  "present (CreateTable t T) db \<longleftrightarrow> t \<in> dom (db_tables db)"
| "present (CreateIndex n t cs) db \<longleftrightarrow> t \<in> dom (db_tables db) \<and> n \<in> dom (db_indexes db)"
| "present (AddColumn t c) db \<longleftrightarrow> (\<exists>T. db_tables db t = Some T \<and> co_name c \<in> set (column_names T))"

fun step_present :: "schema_step \<Rightarrow> database \<Rightarrow> bool" where
  "step_present (Run ss) db \<longleftrightarrow> (\<forall>s \<in> set ss. present s db)"
| "step_present (Unless_Column t c ss) db \<longleftrightarrow> present (AddColumn t c) db"

lemma present_extends: "present s db \<Longrightarrow> extends db db' \<Longrightarrow> present s db'"
  by (cases s) (force simp: extends_def map_le_def dom_def)+

lemma step_present_extends: "step_present s db \<Longrightarrow> extends db db' \<Longrightarrow> step_present s db'"
  using present_extends by (cases s) (auto simp del: present.simps)

lemma execute_Inr:
  assumes "execute s db = (Inr u, db')"
  shows "present s db'"
  using assms by (cases s) (auto simp: execute_def call_db_def column_names_def add_columns_def
      split: if_splits sum.splits option.splits)

lemma execute_batch_Inr: "execute_batch ss db = (Inr u, db') \<Longrightarrow> s \<in> set ss \<Longrightarrow> present s db'"
proof (induction ss arbitrary: db)
  case (Cons x ss)
  then obtain v db1 where e: "execute x db = (Inr v, db1)" "execute_batch ss db1 = (Inr u, db')"
    by (auto split: prod.splits sum.splits)
  have "extends db1 db'" using extending.execute_batch_keeps [of ss db1] e(2) by (simp add: list_all_iff)
  with Cons e show ?case by (auto dest: execute_Inr intro: present_extends)
qed simp

lemma run_step_Inr:
  assumes "run_step s db = (Inr u, db')"
  shows "step_present s db'"
proof (cases s)
  case (Run ss)
  with assms show ?thesis by (auto dest: execute_batch_Inr)
next
  case (Unless_Column t c ss)
  obtain r db1 where h: "has_column t (co_name c) db = (r, db1)" by fastforce
  show ?thesis
  proof (cases "r = Inr True")
    case True
    with h assms Unless_Column show ?thesis
      by (auto simp: has_column_def call_db_def split: if_splits option.splits)
  next
    case False
    with h assms Unless_Column have "execute_batch (AddColumn t c # ss) db1 = (Inr u, db')"
      by (auto simp del: execute_batch.simps split: sum.splits bool.splits)
    from execute_batch_Inr [OF this, of "AddColumn t c"] Unless_Column show ?thesis by simp
  qed
qed

lemma run_steps_Inr: "run_steps steps db = (Inr u, db') \<Longrightarrow> s \<in> set steps \<Longrightarrow> step_present s db'"
proof (induction steps arbitrary: db)
  case (Cons x steps)
  then obtain v db1 where e: "run_step x db = (Inr v, db1)" "run_steps steps db1 = (Inr u, db')"
    by (auto split: prod.splits sum.splits)
  have "extends db1 db'" using extending.run_steps_keep [of steps db1] e(2) by (simp add: list_all_iff)
  with Cons e show ?case by (auto dest: run_step_Inr intro: step_present_extends)
qed simp

text \<open>The environment fails no call.\<close>

definition healthy :: "database \<Rightarrow> bool" where
  "healthy db \<longleftrightarrow> (\<forall>i. \<not> db_fault db i)"

lemma healthy_extends: "healthy db \<Longrightarrow> extends db db' \<Longrightarrow> healthy db'"
  by (simp add: healthy_def extends_def)

definition settled :: "database \<Rightarrow> (sql_error, unit) result \<times> database \<Rightarrow> bool" where
  "settled db o' \<longleftrightarrow> fst o' = Inr () \<and> same_content db (snd o') \<and> healthy (snd o')"

lemma execute_healthy:
  assumes "healthy db"
  shows "execute s db = (case apply_stmt s (tick_db db) of Inl e \<Rightarrow> (Inl e, tick_db db) | Inr db' \<Rightarrow> (Inr (), db'))"
  using assms by (cases "apply_stmt s (tick_db db)") (simp_all add: execute_def call_db_def healthy_def)

lemma has_column_healthy:
  assumes "healthy db"
  shows "has_column t name db = (Inr (case db_tables db t of
    None \<Rightarrow> False | Some T \<Rightarrow> name \<in> set (column_names T)), tick_db db)"
  using assms by (simp add: has_column_def call_db_def healthy_def)

lemma healthy_tick [simp]: "healthy (tick_db db) = healthy db"
  by (simp add: healthy_def)

fun creates :: "sql_stmt \<Rightarrow> bool" where
  "creates (AddColumn t c) = False"
| "creates _ = True"

lemma apply_present: "present s db \<Longrightarrow> creates s \<Longrightarrow> apply_stmt s db = Inr db"
  by (cases s) auto

lemma settled_trans: "settled a (Inr (), b) \<Longrightarrow> settled b r \<Longrightarrow> settled a r"
  by (simp add: settled_def same_content_def)

lemma present_same: "same_content db db' \<Longrightarrow> present s db' = present s db"
  by (cases s) (simp_all add: same_content_def)

lemma execute_settled:
  assumes "healthy db" "present s db" "creates s"
  shows "execute s db = (Inr (), tick_db db)"
proof -
  have "present s (tick_db db)" using assms(2) present_same [of db "tick_db db" s] by (simp add: same_content_def)
  with assms show ?thesis by (simp add: execute_healthy apply_present)
qed

lemma execute_batch_settled:
  assumes "healthy db" "\<forall>s \<in> set ss. present s db \<and> creates s"
  shows "settled db (execute_batch ss db)"
  using assms
proof (induction ss arbitrary: db)
  case Nil
  then show ?case by (simp add: settled_def same_content_def)
next
  case (Cons s ss)
  have "settled db (Inr (), tick_db db)" using Cons.prems by (simp add: settled_def same_content_def)
  moreover have "settled (tick_db db) (execute_batch ss (tick_db db))"
    using Cons.prems present_same [of db "tick_db db"] by (intro Cons.IH) (auto simp: same_content_def)
  ultimately show ?case using Cons.prems by (auto simp: execute_settled intro: settled_trans)
qed

text \<open>Steps that a migrated database answers without a change.\<close>

definition step_creates :: "schema_step \<Rightarrow> bool" where
  "step_creates s \<longleftrightarrow> (case s of Run ss \<Rightarrow> list_all creates ss | Unless_Column _ _ _ \<Rightarrow> True)"

lemma run_step_settled:
  assumes "healthy db" "step_present s db" "step_creates s"
  shows "settled db (run_step s db)"
proof (cases s)
  case (Run ss)
  with assms show ?thesis by (auto simp: step_creates_def list_all_iff intro!: execute_batch_settled)
next
  case (Unless_Column t c ss)
  with assms show ?thesis by (auto simp: has_column_healthy settled_def same_content_def)
qed

lemma step_present_same: "same_content db db' \<Longrightarrow> step_present s db' = step_present s db"
  by (cases s) (simp_all add: present_same del: present.simps)

lemma run_steps_settled:
  assumes "healthy db" "\<forall>s \<in> set steps. step_present s db \<and> step_creates s"
  shows "settled db (run_steps steps db)"
  using assms
proof (induction steps arbitrary: db)
  case Nil
  then show ?case by (simp add: settled_def same_content_def)
next
  case (Cons s steps)
  obtain r db1 where r: "run_step s db = (r, db1)" by fastforce
  have s: "settled db (r, db1)" using run_step_settled [of db s] Cons.prems r by simp
  moreover have "settled db1 (run_steps steps db1)"
    using Cons.prems s step_present_same [of db db1] by (intro Cons.IH) (auto simp: settled_def)
  ultimately show ?case using r by (auto simp: settled_def same_content_def)
qed

section \<open>Which databases open\<close>

definition put_new :: "'k \<Rightarrow> 'v \<Rightarrow> ('k \<rightharpoonup> 'v) \<Rightarrow> ('k \<rightharpoonup> 'v)" where
  "put_new k v m = (if k \<in> dom m then m else m(k \<mapsto> v))"

lemma put_new_apply: "put_new k v m x = (case m x of None \<Rightarrow> if x = k then Some v else None | Some y \<Rightarrow> Some y)"
  by (auto simp: put_new_def split: option.splits)

lemma dom_put_new: "dom (put_new k v m) = insert k (dom m)"
  by (auto simp: put_new_def)

fun batch_possible :: "sql_stmt list \<Rightarrow> (string \<rightharpoonup> sql_table) \<Rightarrow> (string \<rightharpoonup> string \<times> string list) \<Rightarrow> bool" where
  "batch_possible [] ts ix = True"
| "batch_possible (CreateTable t T # ss) ts ix = batch_possible ss (put_new t T ts) ix"
| "batch_possible (CreateIndex n t cs # ss) ts ix =
     ((case ts t of None \<Rightarrow> False | Some T \<Rightarrow> n \<in> dom ix \<or> set cs \<subseteq> set (column_names T)) \<and>
      batch_possible ss ts (put_new n (t, cs) ix))"
| "batch_possible (AddColumn t c # ss) ts ix = False"

lemma batch_possible_iff:
  assumes "healthy db" "list_all creates ss"
  shows "is_ok (fst (execute_batch ss db)) = batch_possible ss (db_tables db) (db_indexes db)"
  using assms
proof (induction ss arbitrary: db)
  case (Cons s ss)
  show ?case
  proof (cases "apply_stmt s (tick_db db)")
    case (Inl e)
    then show ?thesis using Cons.prems
      by (cases s) (auto simp: execute_healthy split: option.splits if_splits)
  next
    case (Inr db1)
    then have "healthy db1" using Cons.prems(1) apply_stmt_extends healthy_extends by (metis healthy_tick)
    from Cons.IH [OF this] Cons.prems Inr show ?thesis
      by (cases s) (auto simp: execute_healthy put_new_def split: option.splits if_splits)
  qed
qed simp

text \<open>A column can be added to a table that exists, and an index on it can follow.\<close>

definition step_possible :: "schema_step \<Rightarrow> database \<Rightarrow> bool" where
  "step_possible s db \<longleftrightarrow>
     (case s of
        Run ss \<Rightarrow> \<forall>s \<in> set ss. present s db \<and> creates s
      | Unless_Column t c ss \<Rightarrow> t \<in> dom (db_tables db) \<and> default_ok c \<and>
          (ss = [] \<or> (\<exists>n. ss = [CreateIndex n t [co_name c]])))"

lemma step_possible_extends: "step_possible s db \<Longrightarrow> extends db db' \<Longrightarrow> step_possible s db'"
  using present_extends by (fastforce simp: step_possible_def extends_def dom_def split: schema_step.splits)

lemma run_step_possible:
  assumes "healthy db" "step_possible s db"
  shows "is_ok (fst (run_step s db))"
proof (cases s)
  case (Run ss)
  with assms have "settled db (execute_batch ss db)"
    by (intro execute_batch_settled) (auto simp: step_possible_def)
  with Run show ?thesis by (simp add: settled_def)
next
  case (Unless_Column t c ss)
  with assms obtain T where T: "db_tables db t = Some T" "default_ok c"
      "ss = [] \<or> (\<exists>n. ss = [CreateIndex n t [co_name c]])"
    by (auto simp: step_possible_def)
  show ?thesis
  proof (cases "co_name c \<in> set (column_names T)")
    case True
    with assms(1) T Unless_Column show ?thesis by (simp add: has_column_healthy)
  next
    case False
    let ?db = "(tick_db (tick_db db))\<lparr>db_tables := (db_tables db)(t \<mapsto> add_columns [c] T)\<rparr>"
    have "execute (AddColumn t c) (tick_db db) = (Inr (), ?db)"
      using assms(1) T False by (simp add: execute_healthy)
    moreover have "healthy ?db" using assms(1) by (simp add: healthy_def)
    ultimately show ?thesis using assms(1) T False Unless_Column
      by (auto simp: has_column_healthy execute_healthy)
  qed
qed

lemma run_steps_possible:
  "healthy db \<Longrightarrow> \<forall>s \<in> set steps. step_possible s db \<Longrightarrow> is_ok (fst (run_steps steps db))"
proof (induction steps arbitrary: db)
  case (Cons s steps)
  obtain db1 where s: "run_step s db = (Inr (), db1)"
    using run_step_possible [of db s] Cons.prems by (cases "run_step s db") (auto simp: is_ok_iff)
  have "extends db db1" using extending.run_step_keeps [of s db] s by (simp add: list_all_iff)
  then have "healthy db1" "\<forall>s \<in> set steps. step_possible s db1"
    using Cons.prems healthy_extends step_possible_extends by auto
  with Cons.IH s show ?case by simp
qed simp

section \<open>Opening a ledger\<close>

lemma schema_steps_good:
  "list_all (\<lambda>s. list_all stmt_ok (step_stmts s)) schema_steps" "list_all step_creates schema_steps"
  by (simp_all add: schema_steps_def schema_batch_def step_stmts_def step_creates_def table_defs
      correlation_index_def tenant_agent_index_def well_formed_table_def column_names_def)

lemma ticks [simp]:
  "open_connection db = (if db_fault db (db_calls db) then Inl SqliteFailure else Inr (), tick_db db)"
  "pragma_update name value db = (if db_fault db (db_calls db) then Inl SqliteFailure else Inr (), tick_db db)"
  by (simp_all add: open_connection_def pragma_update_def call_db_def)

lemma open_db_extends: "extends db (snd (open_db instance db))"
  unfolding open_db_def init_schema_def
  by (intro extending.seq_keeps allI extending.run_steps_keep) (simp_all add: list_all_iff)

lemma open_db_well_formed: "well_formed db \<Longrightarrow> well_formed (snd (open_db instance db))"
proof -
  have "well_formed db \<longrightarrow> well_formed (snd (open_db instance db))"
    unfolding open_db_def init_schema_def
    by (intro forming.seq_keeps allI forming.run_steps_keep) (simp_all add: schema_steps_good)
  then show "well_formed db \<Longrightarrow> well_formed (snd (open_db instance db))" ..
qed

lemma open_db_healthy:
  "healthy db \<Longrightarrow> open_db instance db =
     (let r = init_schema (tick_db (tick_db (tick_db db))) in (map_result (\<lambda>_. instance) (fst r), snd r))"
  by (auto simp: open_db_def seq_db_def healthy_def Let_def split: prod.split sum.split)

lemma open_db_Inr:
  assumes "open_db instance db = (Inr i, db')" "s \<in> set schema_steps"
  shows "step_present s db'"
  using assms by (auto simp: open_db_def seq_db_def init_schema_def split: if_splits prod.splits sum.splits
      dest: run_steps_Inr)

lemma field_add_columns:
  assumes "length r = length (tb_columns T)" "name \<in> set (column_names T)"
  shows "field (add_columns cs T) (r @ map co_default cs) name = field T r name"
proof -
  have "fst ` set (zip (column_names T) r) = set (column_names T)"
    using assms(1) by (metis column_names_def length_map map_fst_zip set_map)
  then show ?thesis using assms
    by (simp add: field_def column_names_def [of "add_columns cs T"] add_columns_def)
      (auto simp: column_names_def map_add_def map_of_eq_None_iff split: option.splits)
qed

text \<open>
  C15. Opening a ledger, whatever fails on the way, keeps the data of every table: the rows stay in number
  and order, and every column that a row had still has its value; the tables and indexes stay well formed.
\<close>

theorem migration_keeps_data:
  assumes "well_formed db" "open_db instance db = (r, db')"
  shows "well_formed db' \<and>
    (\<forall>t T. db_tables db t = Some T \<longrightarrow>
      (\<exists>T'. db_tables db' t = Some T' \<and> length (tb_rows T') = length (tb_rows T) \<and>
        (\<forall>i < length (tb_rows T). \<forall>name \<in> set (column_names T).
          field T' (tb_rows T' ! i) name = field T (tb_rows T ! i) name)))"
proof (intro conjI allI impI)
  show "well_formed db'" using open_db_well_formed [OF assms(1), of "instance"] assms(2) by simp
next
  fix t T
  assume T: "db_tables db t = Some T"
  with open_db_extends [of db "instance"] assms(2) obtain cs where cs: "db_tables db' t = Some (add_columns cs T)"
    by (auto simp: extends_def)
  have "length (tb_rows T ! i) = length (tb_columns T)" if "i < length (tb_rows T)" for i
    using T assms(1) that by (auto simp: well_formed_def well_formed_table_def list_all_length)
  with cs show "\<exists>T'. db_tables db' t = Some T' \<and> length (tb_rows T') = length (tb_rows T) \<and>
      (\<forall>i < length (tb_rows T). \<forall>name \<in> set (column_names T).
        field T' (tb_rows T' ! i) name = field T (tb_rows T ! i) name)"
    by (intro exI [of _ "add_columns cs T"]) (simp add: field_add_columns, simp add: add_columns_def field_add_columns [unfolded add_columns_def])
qed

text \<open>
  A ledger that was opened once opens again without failures of the storage, and opening it again
  changes neither tables nor indexes: the migrations are idempotent.
\<close>

theorem reopening_changes_nothing:
  assumes "open_db instance db = (Inr i, db1)" "same_content db1 db2" "healthy db2"
  shows "fst (open_db instance' db2) = Inr instance' \<and> same_content db1 (snd (open_db instance' db2))"
proof -
  let ?db = "tick_db (tick_db (tick_db db2))"
  have "same_content db1 ?db" using assms(2) by (simp add: same_content_def)
  then have "settled ?db (init_schema ?db)"
    using open_db_Inr [OF assms(1)] assms(3) schema_steps_good(2) unfolding init_schema_def
    by (intro run_steps_settled) (auto simp: step_present_same list_all_iff)
  with assms(2) show ?thesis using assms(3) by (simp add: open_db_healthy Let_def settled_def same_content_def)
qed

definition schema_indexes :: "(string \<times> string \<times> string list) list" where
  "schema_indexes =
     [(''idx_entries_agent_id'', ''entries'', [''agent_id'']), (''idx_entries_seq'', ''entries'', [''seq'']),
      (''idx_entries_correlation_id'', ''entries'', [''correlation_id'']),
      (''idx_pendings_decided_at'', ''pendings'', [''decided_at'']),
      (''idx_pendings_tenant_agent'', ''pendings'', [''tenant'', ''agent_id''])]"

definition index_possible :: "database \<Rightarrow> string \<times> string \<times> string list \<Rightarrow> bool" where
  "index_possible db x = (case x of (n, t, cs) \<Rightarrow>
     n \<in> dom (db_indexes db) \<or>
     (case db_tables db t of None \<Rightarrow> True | Some T \<Rightarrow> set cs \<subseteq> set (column_names T)))"

lemma schema_batch_possible:
  "batch_possible schema_batch (db_tables db) (db_indexes db) = list_all (index_possible db) schema_indexes"
  by (cases "db_tables db ''entries''"; cases "db_tables db ''pendings''")
    (simp_all add: schema_batch_def schema_indexes_def index_possible_def correlation_index_def
      tenant_agent_index_def put_new_apply dom_put_new column_names_def table_defs)

lemma after_batch_possible:
  assumes "execute_batch schema_batch db = (Inr u, db')" "s \<in> set (tl schema_steps)"
  shows "step_possible s db'"
  using execute_batch_Inr [OF assms(1), of "CreateTable ''entries'' entries_table"]
    execute_batch_Inr [OF assms(1), of "CreateTable ''pendings'' pendings_table"]
    execute_batch_Inr [OF assms(1), of "CreateTable ''server_executions'' server_executions_table"]
    execute_batch_Inr [OF assms(1), of tenant_agent_index] assms(2)
  by (auto simp: schema_batch_def schema_steps_def step_possible_def correlation_index_def tenant_agent_index_def
      default_ok_def reconciliation_states_def table_defs)

lemma init_schema_opens_iff:
  assumes "healthy db"
  shows "is_ok (fst (init_schema db)) = list_all (index_possible db) schema_indexes"
proof -
  have steps: "schema_steps = Run schema_batch # tl schema_steps" by (simp add: schema_steps_def)
  have batch: "is_ok (fst (execute_batch schema_batch db)) = list_all (index_possible db) schema_indexes"
    using batch_possible_iff [OF assms, of schema_batch] schema_batch_possible
    by (simp add: schema_batch_def correlation_index_def tenant_agent_index_def)
  obtain r db1 where r: "execute_batch schema_batch db = (r, db1)" by fastforce
  have "healthy db1" using extending.execute_batch_keeps [of schema_batch db] r assms healthy_extends
    by (simp add: list_all_iff)
  then have "is_ok (fst (run_steps (tl schema_steps) db1))" if "r = Inr ()"
    using after_batch_possible r that by (intro run_steps_possible) auto
  with batch r show ?thesis unfolding init_schema_def by (subst steps) (auto simp: is_ok_iff split: sum.splits)
qed

text \<open>
  C14. Without failures of the storage a ledger opens exactly when every index of the schema exists already or
  finds its columns in the table that is there. So a database of an earlier release whose tables lack the
  column \<open>correlation_id\<close>, or the column \<open>tenant\<close>, does not open: the batch creates the indexes on these columns
  before the migrations that add them.
\<close>

theorem schema_opens_iff:
  assumes "healthy db"
  shows "(is_ok (fst (open_db instance db)) \<longleftrightarrow> list_all (index_possible db) schema_indexes) \<and>
    (\<forall>T. db_tables db ''entries'' = Some T \<and> ''correlation_id'' \<notin> set (column_names T) \<and>
         ''idx_entries_correlation_id'' \<notin> dom (db_indexes db) \<longrightarrow> \<not> is_ok (fst (open_db instance db))) \<and>
    (\<forall>T. db_tables db ''pendings'' = Some T \<and> ''tenant'' \<notin> set (column_names T) \<and>
         ''idx_pendings_tenant_agent'' \<notin> dom (db_indexes db) \<longrightarrow> \<not> is_ok (fst (open_db instance db)))"
proof -
  let ?db = "tick_db (tick_db (tick_db db))"
  have "index_possible ?db = index_possible db" by (simp add: index_possible_def fun_eq_iff)
  then have "is_ok (fst (open_db instance db)) \<longleftrightarrow> list_all (index_possible db) schema_indexes"
    using assms init_schema_opens_iff [of ?db] by (cases "fst (init_schema ?db)") (auto simp: open_db_healthy Let_def)
  then show ?thesis by (auto simp: schema_indexes_def index_possible_def)
qed

section \<open>Examples\<close>

definition fresh_db :: database where
  "fresh_db = \<lparr>db_fault = \<lambda>_. False, db_calls = 0, db_tables = Map.empty, db_indexes = Map.empty\<rparr>"

lemma fresh_db_simps [simp]: "healthy fresh_db" "db_tables fresh_db = Map.empty" "db_indexes fresh_db = Map.empty"
  by (simp_all add: fresh_db_def healthy_def)

lemma fresh_db_opens: "fst (open_db instance fresh_db) = Inr instance"
proof -
  let ?db = "tick_db (tick_db (tick_db fresh_db))"
  have "is_ok (fst (init_schema ?db))"
    by (subst init_schema_opens_iff) (simp_all add: schema_indexes_def index_possible_def)
  then show ?thesis by (auto simp: open_db_healthy Let_def is_ok_iff)
qed

text \<open>A ledger with one entry that lacks the column \<open>name\<close>.\<close>

definition entries_without :: "string \<Rightarrow> database" where
  "entries_without name = fresh_db\<lparr>db_tables := [''entries'' \<mapsto> entries_table\<lparr>
     tb_columns := filter (\<lambda>c. co_name c \<noteq> name) (tb_columns entries_table),
     tb_rows := [map (\<lambda>c. SqlText (co_name c)) (filter (\<lambda>c. co_name c \<noteq> name) (tb_columns entries_table))]\<rparr>]\<rparr>"

lemma migration_keeps_data_witness:
  "\<exists>T'. db_tables (snd (open_db ''i'' (entries_without ''chain_version''))) ''entries'' = Some T' \<and> length (tb_rows T') = 1 \<and>
     field T' (tb_rows T' ! 0) ''entry_hash'' = Some (SqlText ''entry_hash'')"
proof -
  let ?db = "entries_without ''chain_version''"
  obtain T where T: "db_tables ?db ''entries'' = Some T" "length (tb_rows T) = 1" "''entry_hash'' \<in> set (column_names T)"
      "field T (tb_rows T ! 0) ''entry_hash'' = Some (SqlText ''entry_hash'')"
    by (simp add: entries_without_def column_names_def field_def table_defs)
  have "well_formed ?db"
    by (simp add: well_formed_def entries_without_def well_formed_table_def column_names_def table_defs)
  from migration_keeps_data [OF this, of "''i''" "fst (open_db ''i'' ?db)" "snd (open_db ''i'' ?db)"] T
  show ?thesis by fastforce
qed

lemma schema_opens_iff_witness:
  "is_ok (fst (open_db ''i'' fresh_db)) \<and> \<not> is_ok (fst (open_db ''i'' (entries_without ''correlation_id'')))"
proof -
  have "healthy (entries_without ''correlation_id'')" by (simp add: entries_without_def healthy_def fresh_db_def)
  with schema_opens_iff [of fresh_db] schema_opens_iff [of "entries_without ''correlation_id''"]
  show ?thesis
    by (simp add: schema_indexes_def index_possible_def entries_without_def column_names_def table_defs)
qed

lemma reopening_changes_nothing_witness:
  "fst (open_db ''b'' (snd (open_db ''a'' fresh_db))) = Inr ''b''"
proof -
  obtain db1 where db1: "open_db ''a'' fresh_db = (Inr ''a'', db1)"
    using fresh_db_opens [of "''a''"] by (cases "open_db ''a'' fresh_db") simp
  have "healthy db1" using open_db_extends [of fresh_db "''a''"] db1 healthy_extends [of fresh_db db1] by simp
  with reopening_changes_nothing [OF db1, of db1 "''b''"] db1 show ?thesis by (simp add: same_content_def)
qed

end
