(* ===== verification/Startup.thy ===== *)
theory Startup
  imports Hosted_Safety Proxy Policy_Load Schema Governance
begin

text \<open>
  The subcommand \<open>start\<close> of \<open>main.rs\<close> up to the point where the router is built: the parsers of the
  options, their defaults, and the checks that turn a configuration into the state of the server.
  Rates are exact rationals for the code's finite \<open>f64\<close> values, and durations are nanoseconds.
\<close>

section \<open>Options\<close>

definition parse_mode :: "string \<Rightarrow> clavenar_mode option" where
  "parse_mode s =
     (let m = to_ascii_lowercase (trim s) in
      if m = ''enforce'' then Some Enforce else if m = ''observe'' then Some Observe else None)"

definition parse_deployment_profile :: "string \<Rightarrow> deployment_profile option" where
  "parse_deployment_profile value = profile_from_str value"

definition parse_upstream_adapter :: "string \<Rightarrow> upstream_adapter option" where
  "parse_upstream_adapter value = adapter_from_str value"

record start_options =
  so_bind :: "ip_addr option"
  so_port :: "nat option"
  so_upstream :: "string option"
  so_deployment_profile :: "deployment_profile option"
  so_upstream_adapter :: "upstream_adapter option"
  so_policies :: "string option"
  so_ledger :: "string option"
  so_velocity_window :: "nat option"
  so_token :: "string option"
  so_agents :: "string option"
  so_decide_token :: "string option"
  so_deciders :: "string option"
  so_upstream_api_key :: "string option"
  so_upstream_timeout_secs :: "nat option"
  so_mode :: "clavenar_mode option"
  so_slack_webhook_url :: "string option"
  so_callback_allowlist :: "string option"
  so_webhook_url :: "string option"
  so_rate_limit_qps :: "rat option"
  so_rate_limit_burst :: "nat option"
  so_verbose_verdicts :: bool

record start_config =
  sc_bind :: ip_addr
  sc_port :: nat
  sc_upstream :: string
  sc_deployment_profile :: deployment_profile
  sc_upstream_adapter :: upstream_adapter
  sc_policies :: "string option"
  sc_ledger_path :: string
  sc_velocity_window :: nat
  sc_token :: "string option"
  sc_agents :: "string option"
  sc_decide_token :: "string option"
  sc_deciders :: "string option"
  sc_upstream_api_key :: "string option"
  sc_upstream_timeout :: nat
  sc_mode :: clavenar_mode
  sc_slack_webhook_url :: "string option"
  sc_callback_allowlist :: "string option"
  sc_webhook_url :: "string option"
  sc_rate_limit_qps :: "rat option"
  sc_rate_limit_burst :: "nat option"
  sc_verbose_verdicts :: bool

definition unwrap_or :: "'a \<Rightarrow> 'a option \<Rightarrow> 'a" where
  "unwrap_or d o' = (case o' of None \<Rightarrow> d | Some x \<Rightarrow> x)"

text \<open>The defaults; \<open>verbose_env\<close> is the variable \<open>CLAVENAR_LITE_VERBOSE_VERDICTS\<close>, if set.\<close>

definition start_config_of :: "start_options \<Rightarrow> string option \<Rightarrow> start_config" where
  "start_config_of o' verbose_env =
     \<lparr>sc_bind = unwrap_or (V4 [0, 0, 0, 0]) (so_bind o'), sc_port = unwrap_or 8088 (so_port o'),
      sc_upstream = unwrap_or ''http://localhost:9000/mcp'' (so_upstream o'),
      sc_deployment_profile = unwrap_or Developer (so_deployment_profile o'),
      sc_upstream_adapter = unwrap_or RawJson (so_upstream_adapter o'),
      sc_policies = so_policies o',
      sc_ledger_path = unwrap_or ''./clavenar-lite.db'' (so_ledger o'),
      sc_velocity_window = unwrap_or 60 (so_velocity_window o'),
      sc_token = so_token o', sc_agents = so_agents o', sc_decide_token = so_decide_token o',
      sc_deciders = so_deciders o', sc_upstream_api_key = so_upstream_api_key o',
      sc_upstream_timeout = unwrap_or 120 (so_upstream_timeout_secs o') * 1000000000,
      sc_mode = unwrap_or Enforce (so_mode o'),
      sc_slack_webhook_url = so_slack_webhook_url o', sc_callback_allowlist = so_callback_allowlist o',
      sc_webhook_url = so_webhook_url o', sc_rate_limit_qps = so_rate_limit_qps o',
      sc_rate_limit_burst = so_rate_limit_burst o',
      sc_verbose_verdicts = (so_verbose_verdicts o' \<or>
        (case verbose_env of None \<Rightarrow> False | Some v \<Rightarrow> trim v \<in> set [''true'', ''1'', ''yes'']))\<rparr>"

section \<open>The checks\<close>

datatype start_error =
    UnsafeHosted hosted_error
  | InvalidUpstream
  | PoliciesFailed policy_error
  | LedgerFailed
  | ClientFailed
  | BadAgents registry_error
  | BadDeciders registry_error
  | UnsafeAllowlist allowlist_error
  | InvalidWebhook

text \<open>
  What the environment decides: the files of the policies, the database at the path of the ledger, whether
  the client builds; and the embedded contracts with their schemas.
\<close>

record boot_env =
  be_policies :: policy_env
  be_database :: "string \<Rightarrow> database"
  be_instance :: string
  be_client_builds :: bool
  be_hosted_contract :: "string \<times> string"
  be_target_contract :: "string \<times> string"
  be_resolution_contract :: "string \<times> string"

definition hosted_view :: "start_config \<Rightarrow> hosted_safety_config" where
  "hosted_view cfg =
     \<lparr>hs_profile = sc_deployment_profile cfg, hs_agent_token = sc_token cfg, hs_agents = sc_agents cfg,
      hs_decide_token = sc_decide_token cfg, hs_deciders = sc_deciders cfg,
      hs_enforce_mode = (sc_mode cfg = Enforce), hs_verbose_verdicts = sc_verbose_verdicts cfg,
      hs_rate_limit_qps = sc_rate_limit_qps cfg, hs_rate_limit_burst = sc_rate_limit_burst cfg,
      hs_ledger_path = sc_ledger_path cfg, hs_upstream_url = sc_upstream cfg,
      hs_upstream_adapter = sc_upstream_adapter cfg, hs_upstream_timeout = sc_upstream_timeout cfg\<rparr>"

definition agents_of :: "start_config \<Rightarrow> (start_error, agent_registry option) result" where
  "agents_of cfg =
     (case (sc_agents cfg, sc_token cfg) of
        (Some spec, _) \<Rightarrow> map_result Some (map_error BadAgents (parse_agents spec))
      | (None, Some t) \<Rightarrow> Inr (Some (single t))
      | (None, None) \<Rightarrow> Inr None)"

definition deciders_of :: "start_config \<Rightarrow> (start_error, tenant_registry option) result" where
  "deciders_of cfg =
     (case sc_deciders cfg of
        Some spec \<Rightarrow> map_result Some (map_error BadDeciders (parse_deciders spec))
      | None \<Rightarrow> Inr None)"

definition raw_callback_allowlist :: "start_config \<Rightarrow> string list" where
  "raw_callback_allowlist cfg =
     (case sc_callback_allowlist cfg of
        Some spec \<Rightarrow> filter (\<lambda>s. s \<noteq> []) (map trim (split_on CHR '','' spec))
      | None \<Rightarrow> [])"

text \<open>\<open>as u32\<close> saturates.\<close>

definition limiter_of :: "start_config \<Rightarrow> rate_limit_config option" where
  "limiter_of cfg =
     (let qps = max (unwrap_or 0 (sc_rate_limit_qps cfg)) 0;
          burst = (case sc_rate_limit_burst cfg of
            Some b \<Rightarrow> b | None \<Rightarrow> min (nat \<lceil>max (of_int \<lceil>qps\<rceil>) (1 :: rat)\<rceil>) 4294967295)
      in map_option fst (from_config \<lparr>rc_qps = qps, rc_burst = burst\<rparr>))"

definition load_policies :: "policy_env \<Rightarrow> start_config \<Rightarrow> (policy_error, policy_engine) result" where
  "load_policies P cfg =
     (case sc_policies cfg of
        Some directory \<Rightarrow> from_dir P directory (sc_velocity_window cfg)
      | None \<Rightarrow> from_embedded P (sc_velocity_window cfg))"

definition run_start :: "lib \<Rightarrow> boot_env \<Rightarrow> start_config \<Rightarrow> (start_error, app_state) result" where
  "run_start L B cfg =
     and_then (map_error UnsafeHosted
       (validate_hosted L (fst (be_hosted_contract B)) (snd (be_hosted_contract B)) (hosted_view cfg))) (\<lambda>_.
     and_then (ensure (parse_url L (sc_upstream cfg) \<noteq> None) InvalidUpstream) (\<lambda>_.
     and_then (map_error PoliciesFailed (load_policies (be_policies B) cfg)) (\<lambda>policy.
     and_then (map_error (\<lambda>_. LedgerFailed) (fst (open_db (be_instance B) (be_database B (sc_ledger_path cfg))))) (\<lambda>_.
     and_then (ensure (be_client_builds B) ClientFailed) (\<lambda>_.
     and_then (agents_of cfg) (\<lambda>agents.
     and_then (deciders_of cfg) (\<lambda>deciders.
     and_then (map_error UnsafeAllowlist (normalize_callback_allowlist L (be_target_contract B)
       (be_resolution_contract B) (raw_callback_allowlist cfg))) (\<lambda>callback_allowlist.
     and_then (ensure (case sc_webhook_url cfg of None \<Rightarrow> True | Some u \<Rightarrow> parse_url L u \<noteq> None)
       InvalidWebhook) (\<lambda>_.
     Inr \<lparr>st_velocity_window = en_velocity_window policy, st_upstream_url = sc_upstream cfg,
       st_upstream_adapter = sc_upstream_adapter cfg, st_agents = agents, st_deciders = deciders,
       st_decide_token = sc_decide_token cfg, st_upstream_api_key = sc_upstream_api_key cfg,
       st_mode = sc_mode cfg, st_slack_webhook_url = sc_slack_webhook_url cfg,
       st_callback_allowlist = callback_allowlist, st_webhook_url = sc_webhook_url cfg,
       st_rate_limiter = limiter_of cfg, st_verbose_verdicts = sc_verbose_verdicts cfg\<rparr>)))))))))"

section \<open>What a started server guarantees\<close>

lemma run_start_Inr:
  assumes "run_start L B cfg = Inr A"
  shows "validate_hosted L (fst (be_hosted_contract B)) (snd (be_hosted_contract B)) (hosted_view cfg) = Inr ()"
    "agents_of cfg = Inr (st_agents A)" "deciders_of cfg = Inr (st_deciders A)" "st_decide_token A = sc_decide_token cfg"
    "st_mode A = sc_mode cfg" "st_verbose_verdicts A = sc_verbose_verdicts cfg" "st_upstream_url A = sc_upstream cfg"
    "st_upstream_adapter A = sc_upstream_adapter cfg" "st_rate_limiter A = limiter_of cfg"
  using assms by (auto simp: run_start_def)

text \<open>
  The credentials that the server accepts are those that were checked, up to white space around them.
\<close>

definition accepts_only :: "(string \<Rightarrow> bool) \<Rightarrow> string list \<Rightarrow> bool" where
  "accepts_only accepts tokens \<longleftrightarrow>
     (\<forall>token. accepts token \<longrightarrow> trim token \<in> set tokens \<and> MINIMUM_TOKEN_BYTES \<le> length token)"

lemma single_accepted:
  assumes "configured_tokens (Some t) registry = Inr tokens" "\<And>token. accepts token \<Longrightarrow> token = t"
  shows "accepts_only accepts tokens"
  using assms trim_length [of t] unfolding accepts_only_def configured_single by auto

lemma registry_accepted:
  assumes "configured_tokens None (Some spec) = Inr tokens"
    and "\<And>token. accepts token \<Longrightarrow> \<exists>e \<in> set (declared spec). \<exists>l t. split_once CHR '':'' e = Some (l, t) \<and> token = trim t"
  shows "accepts_only accepts tokens"
  unfolding accepts_only_def
proof (intro allI impI)
  fix token
  assume "accepts token"
  with assms(2) obtain e l t where e: "e \<in> set (declared spec)" "split_once CHR '':'' e = Some (l, t)" "token = trim t"
    by blast
  with configured_registry [OF assms(1) e(1,2)] trim_length [of "trim t"]
  show "trim token \<in> set tokens \<and> MINIMUM_TOKEN_BYTES \<le> length token" by auto
qed

lemma tenant_entry_token:
  "tenant_entry e = Inr (token, tenant) \<Longrightarrow> \<exists>l t. split_once CHR '':'' e = Some (l, t) \<and> token = trim t"
  by (auto simp: tenant_entry_def Let_def split: option.splits if_splits)

lemma agents_accepted:
  assumes "configured_tokens (sc_token cfg) (sc_agents cfg) = Inr tokens" "agents_of cfg = Inr r"
  shows "\<exists>registry. r = Some registry \<and> accepts_only (\<lambda>token. lookup_agent registry token \<noteq> None) tokens"
proof (cases "sc_agents cfg")
  case None
  with assms(1) obtain t where t: "sc_token cfg = Some t" by (cases "sc_token cfg") (auto simp: configured_tokens_def)
  have "lookup_agent (single t) token \<noteq> None \<Longrightarrow> token = t" for token
    by (auto simp: lookup_agent_def single_def split: if_splits)
  with None t assms show ?thesis by (auto simp: agents_of_def intro!: single_accepted)
next
  case (Some spec)
  with assms(1) have c: "configured_tokens None (Some spec) = Inr tokens"
    by (cases "sc_token cfg") (simp_all add: configured_tokens_def)
  from Some assms(2) obtain registry where r: "r = Some registry" "parse_agents spec = Inr registry"
    by (auto simp: agents_of_def)
  have "accepts_only (\<lambda>token. lookup_agent registry token \<noteq> None) tokens"
  proof (rule registry_accepted [OF c])
    fix token
    assume "lookup_agent registry token \<noteq> None"
    then show "\<exists>e \<in> set (declared spec). \<exists>l t. split_once CHR '':'' e = Some (l, t) \<and> token = trim t"
      using agents.lookup_declared [OF r(2) refl, of token] by (fastforce simp: agent_entry_Inr)
  qed
  with r show ?thesis by blast
qed

text \<open>The token of an operator, with whichever of the two kinds of credentials is configured.\<close>

lemma operators_accepted:
  assumes "configured_tokens (sc_decide_token cfg) (sc_deciders cfg) = Inr tokens" "deciders_of cfg = Inr (st_deciders A)"
    and "st_decide_token A = sc_decide_token cfg"
  shows "\<exists>accepts. accepts_only accepts tokens \<and>
    (\<forall>hs. is_ok (resolve_operator_tenant A hs) \<longrightarrow> (\<exists>token. bearer hs = Some token \<and> accepts token))"
proof (cases "sc_deciders cfg")
  case None
  with assms(1) obtain t where t: "sc_decide_token cfg = Some t"
    by (cases "sc_decide_token cfg") (auto simp: configured_tokens_def)
  have "st_deciders A = None" using None assms(2) by (simp add: deciders_of_def)
  then have "\<forall>hs. is_ok (resolve_operator_tenant A hs) \<longrightarrow> (\<exists>token. bearer hs = Some token \<and> token = t)"
    using t assms(3) by (auto simp: resolve_operator_tenant_def split: option.splits if_splits)
  moreover have "accepts_only (\<lambda>token. token = t) tokens"
    using assms(1) t by (intro single_accepted) auto
  ultimately show ?thesis by blast
next
  case (Some spec)
  with assms(1) have c: "configured_tokens None (Some spec) = Inr tokens"
    by (cases "sc_decide_token cfg") (simp_all add: configured_tokens_def)
  from Some assms(2) obtain registry where r: "st_deciders A = Some registry" "parse_deciders spec = Inr registry"
    by (auto simp: deciders_of_def)
  have "accepts_only (\<lambda>token. lookup_tenant registry token \<noteq> None) tokens"
  proof (rule registry_accepted [OF c])
    fix token
    assume "lookup_tenant registry token \<noteq> None"
    then obtain e tenant where "e \<in> set (declared spec)" "tenant_entry e = Inr (token, tenant)"
      using operators.lookup_declared [OF r(2) refl, of token] by blast
    with tenant_entry_token [of e token tenant]
    show "\<exists>e \<in> set (declared spec). \<exists>l t. split_once CHR '':'' e = Some (l, t) \<and> token = trim t" by blast
  qed
  moreover have "\<forall>hs. is_ok (resolve_operator_tenant A hs) \<longrightarrow>
      (\<exists>token. bearer hs = Some token \<and> lookup_tenant registry token \<noteq> None)"
  proof (intro allI impI)
    fix hs
    assume "is_ok (resolve_operator_tenant A hs)"
    then show "\<exists>token. bearer hs = Some token \<and> lookup_tenant registry token \<noteq> None"
      using r(1) by (cases "bearer hs"; cases "Option.bind (bearer hs) (lookup_tenant registry)")
        (simp_all add: resolve_operator_tenant_def ok_or_def)
  qed
  ultimately show ?thesis by blast
qed

lemma limiter_hosted:
  assumes "sc_rate_limit_qps cfg = Some qps" "sc_rate_limit_burst cfg = Some burst" "1 / 10 \<le> qps" "1 \<le> burst"
  shows "limiter_of cfg = Some \<lparr>rc_qps = qps, rc_burst = burst\<rparr>"
proof -
  have "0 < qps" using assms(3) by (rule less_le_trans [rotated]) simp
  with assms show ?thesis by (simp add: limiter_of_def unwrap_or_def from_config_def is_enabled_def)
qed

lemma hosted_config_safe:
  assumes "run_start L B cfg = Inr A" "sc_deployment_profile cfg = Hosted"
  shows "st_mode A = Enforce" "\<not> st_verbose_verdicts A" "st_upstream_adapter A = McpJsonRpcV1"
    and "resolve_agent A hs \<noteq> None \<longrightarrow> (\<exists>token. bearer hs = Some token \<and> 32 \<le> length token)"
    and "\<exists>url. parse_url L (st_upstream_url A) = Some url \<and> u_scheme url = ''https''"
    and "st_agents A \<noteq> None"
    and "is_ok (resolve_operator_tenant A hs) \<longrightarrow> (\<exists>token. bearer hs = Some token \<and> 32 \<le> length token)"
    and "\<not> (resolve_agent A hs \<noteq> None \<and> is_ok (resolve_operator_tenant A hs))"
    and "\<exists>limiter. st_rate_limiter A = Some limiter \<and> 1 / 10 \<le> rc_qps limiter \<and> rc_qps limiter \<le> 100 \<and>
       1 \<le> rc_burst limiter \<and> rc_burst limiter \<le> 200"
proof -
  note start = run_start_Inr [OF assms(1)]
  obtain agents operators qps burst where v:
      "configured_tokens (sc_token cfg) (sc_agents cfg) = Inr agents"
      "configured_tokens (sc_decide_token cfg) (sc_deciders cfg) = Inr operators"
      "\<forall>agent \<in> set agents. agent \<notin> set operators" "sc_mode cfg = Enforce" "\<not> sc_verbose_verdicts cfg"
      "sc_rate_limit_qps cfg = Some qps" "1 / 10 \<le> qps" "qps \<le> 100"
      "sc_rate_limit_burst cfg = Some burst" "1 \<le> burst" "burst \<le> 200"
      "validate_upstream L (sc_upstream cfg) = Inr ()" "sc_upstream_adapter cfg = McpJsonRpcV1"
    using assms(2) by (rule_tac validate_hosted_Inr [OF start(1)]) (auto simp: hosted_view_def)
  obtain registry where a: "st_agents A = Some registry"
      "accepts_only (\<lambda>token. lookup_agent registry token \<noteq> None) agents"
    using agents_accepted [OF v(1) start(2)] by blast
  obtain accepts where o: "accepts_only accepts operators"
      "\<And>hs. is_ok (resolve_operator_tenant A hs) \<Longrightarrow> \<exists>token. bearer hs = Some token \<and> accepts token"
    using operators_accepted [OF v(2) start(3,4)] by blast
  have agent: "\<exists>token. bearer hs = Some token \<and> 32 \<le> length token \<and> trim token \<in> set agents"
    if "resolve_agent A hs \<noteq> None" for hs
    using that a by (cases "bearer hs") (auto simp: resolve_agent_def accepts_only_def MINIMUM_TOKEN_BYTES_def)
  have operator: "\<exists>token. bearer hs = Some token \<and> 32 \<le> length token \<and> trim token \<in> set operators"
    if "is_ok (resolve_operator_tenant A hs)" for hs
    using o(1) o(2) [OF that] by (auto simp: accepts_only_def MINIMUM_TOKEN_BYTES_def)
  show "st_mode A = Enforce" "\<not> st_verbose_verdicts A" "st_upstream_adapter A = McpJsonRpcV1" "st_agents A \<noteq> None"
    using v(4,5,13) start(5,6,8) a(1) by simp_all
  show "resolve_agent A hs \<noteq> None \<longrightarrow> (\<exists>token. bearer hs = Some token \<and> 32 \<le> length token)"
    "is_ok (resolve_operator_tenant A hs) \<longrightarrow> (\<exists>token. bearer hs = Some token \<and> 32 \<le> length token)"
    "\<not> (resolve_agent A hs \<noteq> None \<and> is_ok (resolve_operator_tenant A hs))"
    using agent [of hs] operator [of hs] v(3) by auto
  show "\<exists>limiter. st_rate_limiter A = Some limiter \<and> 1 / 10 \<le> rc_qps limiter \<and> rc_qps limiter \<le> 100 \<and>
       1 \<le> rc_burst limiter \<and> rc_burst limiter \<le> 200"
    using limiter_hosted [OF v(6,9,7,10)] v(7,8,10,11) start(9) by simp
  show "\<exists>url. parse_url L (st_upstream_url A) = Some url \<and> u_scheme url = ''https''"
    using v(12) start(7) by (auto simp: validate_upstream_def ok_or_def split: option.splits if_splits)
qed

text \<open>
  C5. A server that starts with the hosted profile is safe to expose: it enforces, hides its detectors,
  limits every agent within the allowed bounds, and speaks the MCP adapter with an https upstream; no
  request without a credential of at least 32 bytes is taken for an agent or for an operator, and no
  request is taken for both.
\<close>

theorem hosted_start_is_safe:
  assumes "run_start L B cfg = Inr A" "sc_deployment_profile cfg = Hosted"
  shows "st_mode A = Enforce \<and> \<not> st_verbose_verdicts A \<and> st_upstream_adapter A = McpJsonRpcV1 \<and>
    (\<exists>limiter. st_rate_limiter A = Some limiter \<and> 1 / 10 \<le> rc_qps limiter \<and> rc_qps limiter \<le> 100 \<and>
       1 \<le> rc_burst limiter \<and> rc_burst limiter \<le> 200) \<and>
    (\<exists>url. parse_url L (st_upstream_url A) = Some url \<and> u_scheme url = ''https'') \<and>
    (\<forall>hs. (resolve_agent A hs \<noteq> None \<longrightarrow> (\<exists>token. bearer hs = Some token \<and> 32 \<le> length token)) \<and>
       (is_ok (resolve_operator_tenant A hs) \<longrightarrow> (\<exists>token. bearer hs = Some token \<and> 32 \<le> length token)) \<and>
       \<not> (resolve_agent A hs \<noteq> None \<and> is_ok (resolve_operator_tenant A hs)))"
  using hosted_config_safe [OF assms] by blast

text \<open>A hosted configuration that starts.\<close>

definition hosted_fixture :: json where
  "hosted_fixture = JObj
     [(''contract'', JStr ''clavenar.hosted-lite-safety/v1''),
      (''authentication'', JObj [(''anonymousMcp'', JBool False), (''agentOperatorOverlap'', JStr ''reject-constant-time'')]),
      (''posture'', JObj [(''mode'', JStr ''enforce'')]), (''rateLimit'', JObj [(''required'', JBool True)]),
      (''durability'', JObj [(''scaleToZero'', JBool False)]),
      (''adapter'', JObj [(''identifier'', JStr ''mcp-jsonrpc-v1''), (''responseId'', JStr ''exact-request-id'')])]"

definition target_fixture :: json where
  "target_fixture = JObj
     [(''contract'', JStr ''clavenar.rooted-path-target-validation/v1''),
      (''targets'', JObj [(''credentialsAllowed'', JBool False), (''fragmentsAllowed'', JBool False),
         (''redirects'', JStr ''disabled'')])]"

definition resolution_fixture :: json where
  "resolution_fixture = JObj
     [(''contract'', JStr ''clavenar.outbound-resolution-pinning/v1''),
      (''resolution'', JObj [(''rejectWholeSetOnAnyNonPublicAnswer'', JBool True), (''pinSelectedAddress'', JBool True),
         (''applicationClientReresolution'', JBool False)]),
      (''redirects'', JObj [(''mode'', JStr ''manual''), (''maximumHops'', JNum (Integral 5)),
         (''validateAndRepinEveryHop'', JBool True)])]"

text \<open>A call of the tool \<open>wire\<close>, and the answer to it.\<close>

definition rpc_call :: json where
  "rpc_call = JObj [(''id'', JNum (Integral 1)), (''jsonrpc'', JStr ''2.0''), (''method'', JStr ''tools/call''),
     (''params'', JObj [(''name'', JStr ''wire'')])]"

definition rpc_reply :: json where
  "rpc_reply = JObj [(''id'', JNum (Integral 1)), (''jsonrpc'', JStr ''2.0''), (''result'', JStr ''done'')]"

definition hosted_lib :: lib where
  "hosted_lib = gov_lib [(''H'', hosted_fixture), (''T'', target_fixture), (''R'', resolution_fixture), (''S'', JNull),
      (''call'', rpc_call), (''reply'', rpc_reply)]
     [(''https://up.acme.io/mcp'', \<lparr>u_scheme = ''https'', u_username = [], u_password = None,
        u_host = Some (Domain ''up.acme.io''), u_port = Some 443, u_path = ''/mcp'', u_query = None, u_fragment = None\<rparr>)]"

lemma hosted_sample:
  "\<exists>bodies urls. hosted_lib = sample_lib bodies urls governance_rules"
  by (auto simp: hosted_lib_def gov_lib_def)

lemma parse_hosted:
  "parse_json hosted_lib ''H'' = Some hosted_fixture" "parse_json hosted_lib ''T'' = Some target_fixture"
  "parse_json hosted_lib ''R'' = Some resolution_fixture" "parse_json hosted_lib ''S'' = Some JNull"
  "parse_json hosted_lib ''call'' = Some rpc_call" "parse_json hosted_lib ''reply'' = Some rpc_reply"
  by (simp_all add: hosted_lib_def gov_lib_def sample_lib_def sample_parse_def)

definition hosted_options :: start_options where
  "hosted_options = \<lparr>so_bind = None, so_port = Some 8443, so_upstream = Some ''https://up.acme.io/mcp'', so_deployment_profile = Some Hosted,
     so_upstream_adapter = Some McpJsonRpcV1, so_policies = None, so_ledger = Some ''/data/ledger.db'', so_velocity_window = None,
     so_token = Some ''0123456789abcdef0123456789abcdef'', so_agents = None, so_decide_token = None,
     so_deciders = Some ''acme:fedcba9876543210fedcba9876543210'', so_upstream_api_key = None,
     so_upstream_timeout_secs = Some 30, so_mode = None, so_slack_webhook_url = None, so_callback_allowlist = None,
     so_webhook_url = None, so_rate_limit_qps = Some 5, so_rate_limit_burst = Some 10, so_verbose_verdicts = False\<rparr>"

definition boot0 :: boot_env where
  "boot0 = \<lparr>be_policies = two_policies, be_database = (\<lambda>_. fresh_db), be_instance = ''i'', be_client_builds = True,
     be_hosted_contract = (''H'', ''S''), be_target_contract = (''T'', ''S''), be_resolution_contract = (''R'', ''S'')\<rparr>"

lemma hosted_contracts:
  "validate_hosted_contract hosted_lib ''H'' ''S'' = Inr ()" "validate_target_contract hosted_lib ''T'' ''S'' = Inr ()"
  "validate_resolution_contract hosted_lib ''R'' ''S'' = Inr ()"
  by (simp_all add: validate_hosted_contract_def validate_target_contract_def validate_resolution_contract_def
      check_contract_def parse_hosted hosted_fixture_def target_fixture_def resolution_fixture_def json_index_def)

lemma hosted_trims:
  "trim ''0123456789abcdef0123456789abcdef'' = ''0123456789abcdef0123456789abcdef''"
  "trim ''fedcba9876543210fedcba9876543210'' = ''fedcba9876543210fedcba9876543210''"
  "trim ''acme:fedcba9876543210fedcba9876543210'' = ''acme:fedcba9876543210fedcba9876543210''" "trim ''acme'' = ''acme''"
  "label_ok ''acme'' \<and> label_ok ''operator''"
  by code_simp+

lemma hosted_tokens:
  "configured_tokens (Some ''0123456789abcdef0123456789abcdef'') None = Inr [''0123456789abcdef0123456789abcdef'']"
  "configured_tokens None (Some ''acme:fedcba9876543210fedcba9876543210'') = Inr [''fedcba9876543210fedcba9876543210'']"
  "parse_deciders ''acme:fedcba9876543210fedcba9876543210'' = Inr [(''fedcba9876543210fedcba9876543210'', ''acme'')]"
  "validate_ledger_path ''/data/ledger.db'' = Inr ()"
  by (simp_all add: configured_tokens_def checked_token_def configured_entry_def MINIMUM_TOKEN_BYTES_def ok_or_def
      parse_deciders_def tenant_entry_def agent_identity_new_def hosted_trims collect_results.simps)
     code_simp

lemma hosted_upstream: "validate_upstream hosted_lib ''https://up.acme.io/mcp'' = Inr ()"
  "parse_url hosted_lib ''https://up.acme.io/mcp'' \<noteq> None"
proof -
  have "to_ascii_lowercase ''up.acme.io'' = ''up.acme.io'' \<and> \<not> suffix ''.example'' ''up.acme.io'' \<and>
      \<not> suffix ''.invalid'' ''up.acme.io'' \<and> \<not> suffix ''.test'' ''up.acme.io''"
    by (simp add: suffix_to_prefix) code_simp
  then show "validate_upstream hosted_lib ''https://up.acme.io/mcp'' = Inr ()"
      "parse_url hosted_lib ''https://up.acme.io/mcp'' \<noteq> None"
    by (simp_all add: validate_upstream_def hosted_lib_def gov_lib_def sample_lib_def)
qed

text \<open>The server that this starts.\<close>

definition hosted_state :: app_state where
  "hosted_state = \<lparr>st_velocity_window = 60, st_upstream_url = ''https://up.acme.io/mcp'', st_upstream_adapter = McpJsonRpcV1,
     st_agents = Some (single ''0123456789abcdef0123456789abcdef''),
     st_deciders = Some [(''fedcba9876543210fedcba9876543210'', ''acme'')], st_decide_token = None,
     st_upstream_api_key = None, st_mode = Enforce, st_slack_webhook_url = None, st_callback_allowlist = [],
     st_webhook_url = None, st_rate_limiter = Some \<lparr>rc_qps = 5, rc_burst = 10\<rparr>, st_verbose_verdicts = False\<rparr>"

lemma hosted_limiter: "limiter_of (start_config_of hosted_options None) = Some \<lparr>rc_qps = 5, rc_burst = 10\<rparr>"
  by (rule limiter_hosted) (simp_all add: start_config_of_def hosted_options_def)

lemma hosted_starts: "run_start hosted_lib boot0 (start_config_of hosted_options None) = Inr hosted_state"
  unfolding run_start_def hosted_limiter
  by (simp add: hosted_state_def policy_engine_new_def validate_hosted_def hosted_view_def start_config_of_def hosted_options_def unwrap_or_def
      boot0_def hosted_contracts hosted_tokens hosted_upstream MINIMUM_RATE_LIMIT_QPS_def MAXIMUM_RATE_LIMIT_QPS_def
      MINIMUM_RATE_LIMIT_BURST_def MAXIMUM_RATE_LIMIT_BURST_def MAXIMUM_UPSTREAM_TIMEOUT_def agents_of_def deciders_of_def
      raw_callback_allowlist_def normalize_callback_allowlist_def normalize_allowlist_strings_def parse_allowlist_def
      ok_or_def ensure_def load_policies_def from_embedded_def add_policy_def two_policies_def fresh_db_opens)

theorem hosted_start_is_safe_witness:
  "run_start hosted_lib boot0 (start_config_of hosted_options None) = Inr hosted_state \<and> st_mode hosted_state = Enforce \<and>
     resolve_agent hosted_state [] = None"
proof -
  have "sc_deployment_profile (start_config_of hosted_options None) = Hosted"
    by (simp add: start_config_of_def hosted_options_def unwrap_or_def)
  from hosted_start_is_safe [OF hosted_starts this] have "st_mode hosted_state = Enforce"
      "resolve_agent hosted_state [] \<noteq> None \<longrightarrow> (\<exists>token. bearer [] = Some token \<and> 32 \<le> length token)"
    by blast+
  moreover have "bearer [] = None" by (simp add: bearer_def header_text_def header_def)
  ultimately show ?thesis using hosted_starts by auto
qed

end
