(* ===== verification/Sample_Run.thy ===== *)
theory Sample_Run
  imports Serving Startup
begin

text \<open>
  A run of the hosted server of theory \<open>Startup\<close>, with the shipped policy: one server execution whose tool
  call is harmless and allowed, from its arrival until its response comes back from the upstream.
\<close>

lemma run_task_runs:
  assumes "run_task L decode A E n t w = (t', w')" "\<And>k. env_ok good (E k)"
  shows "runs L decode decode_decide A good (w, us @ t # us') (w', us @ t' # us')"
  using assms(1)
proof (induction n arbitrary: t w)
  case 0
  then show ?case by simp
next
  case (Suc n)
  obtain t1 w1 where a: "advance L decode A (E n) t w = (t1, w1)" by fastforce
  with Suc have "runs L decode decode_decide A good (w1, us @ t1 # us') (w', us @ t' # us')" by simp
  with sys_step.advance [OF assms(2) a] show ?case by (rule converse_rtranclp_into_rtranclp)
qed

definition wire_request :: mcp_request where
  "wire_request = \<lparr>mr_method = ''tools/call'', mr_params = Some (JObj [(''name'', JStr ''wire'')]),
     mr_id = Some (JNum (Integral 1)), mr_jsonrpc = Some ''2.0''\<rparr>"

definition decode1 :: "string \<Rightarrow> mcp_request option" where
  "decode1 body = (if body = ''call'' then Some wire_request else None)"

definition headers1 :: headers where
  "headers1 = [(''authorization'', Text ''Bearer 0123456789abcdef0123456789abcdef''),
     (SERVER_EXECUTION_CONTRACT_HEADER, Text SERVER_EXECUTION_CONTRACT), (IDEMPOTENCY_ID_HEADER, Text ''xxxxx'')]"

definition env1 :: request_env where
  "env1 = \<lparr>re_now = 0, re_wall = 0, re_worker = None,
     re_net = (\<lambda>r. Some \<lparr>rp_status = 200, rp_headers = [(''content-type'', Text ''application/json'')],
       rp_chunks = [''reply''], rp_read_fails = False\<rparr>)\<rparr>"

definition agent1 :: agent_identity where
  "agent1 = \<lparr>ai_tenant = ''_legacy_unqualified'', ai_agent_id = ''bearer-agent''\<rparr>"

definition cx1 :: mcp_context where
  "cx1 = \<lparr>cx_body = ''call'', cx_headers = headers1, cx_server_execution = Some 5, cx_decision = None,
      cx_correlation_id = ''xxxxx'', cx_request = wire_request, cx_identity = agent1\<rparr>"

definition digest1 :: string where
  "digest1 = ''sha256:'' @ sha256_hex hosted_lib (print_json hosted_lib rpc_call)"

definition binding1 :: server_execution_binding where
  "binding1 = \<lparr>sb_agent_id = ''bearer-agent'', sb_idempotency_id = 5, sb_correlation_id = ''xxxxx'', sb_route = ''/mcp'',
     sb_method = ''tools/call'', sb_tool_name = ''wire'', sb_submitted_request_sha256 = digest1,
     sb_effective_request_sha256 = digest1\<rparr>"

definition call1 :: call where
  "call1 = \<lparr>cl_callback_url = None, cl_tool_type = ''wire'', cl_binding = Some binding1\<rparr>"

definition attempt1 :: "verdict \<Rightarrow> attempt" where
  "attempt1 v = \<lparr>at_request = \<lparr>ur_url = ''https://up.acme.io/mcp'', ur_bearer = None, ur_body = ''call''\<rparr>,
     at_agent = agent1, at_method = ''tools/call'', at_execution = Some binding1, at_verdict = Some v\<rparr>"

abbreviation proceed1 where "proceed1 \<equiv> proceed hosted_lib decode1 hosted_state env1"

lemma env1_ok: "good ''reply'' \<Longrightarrow> env_ok good env1"
  by (simp add: env_ok_def env1_def)

lemma headers1_lookup:
  "header SERVER_EXECUTION_CONTRACT_HEADER headers1 = Some (Text SERVER_EXECUTION_CONTRACT)"
  "header DECISION_CONTRACT_HEADER headers1 = None" "header LEGACY_EXECUTION_CONTRACT_HEADER headers1 = None"
  "header IDEMPOTENCY_ID_HEADER headers1 = Some (Text ''xxxxx'')" "header CALLBACK_HEADER headers1 = None"
  "header ''authorization'' headers1 = Some (Text ''Bearer 0123456789abcdef0123456789abcdef'')"
  by (simp_all add: header_def headers1_def SERVER_EXECUTION_CONTRACT_HEADER_def DECISION_CONTRACT_HEADER_def
      LEGACY_EXECUTION_CONTRACT_HEADER_def IDEMPOTENCY_ID_HEADER_def CALLBACK_HEADER_def)

lemma uuid1: "parse_uuid hosted_lib ''xxxxx'' = Some 5" "show_uuid hosted_lib 5 = ''xxxxx''"
  by (simp_all add: hosted_lib_def gov_lib_def sample_lib_def marks_5)

lemma validated1: "validate_request hosted_lib McpJsonRpcV1 ''call'' = Inr (Some (JNum (Integral 1)))"
  by (simp add: validate_request_def REQUEST_BODY_BYTES_def parse_hosted rpc_call_def ensure_def ok_or_def Let_def)

lemma intake1: "intake hosted_lib decode1 hosted_state headers1 ''call'' fallback = Inr cx1"
proof -
  have "canonical_id hosted_lib headers1 = Some 5"
    by (simp add: canonical_id_def header_text_def headers1_lookup uuid1)
  then have "parse_server_execution_request hosted_lib headers1 = Inr (Some 5)"
      "parse_decision_request hosted_lib headers1 = Inr None"
    by (simp_all add: headers1_lookup parse_server_execution_request_def parse_decision_request_def contains_key_def
        header_text_def)
  then have "select_contracts hosted_lib hosted_state headers1 fallback = Inr (Some 5, None, ''xxxxx'')"
    by (simp add: select_contracts_def uuid1)
  moreover have "check_request hosted_lib decode1 hosted_state ''xxxxx'' True ''call'' = Inr wire_request"
    by (simp add: check_request_def decode1_def wire_request_def hosted_state_def validated1)
  moreover have "resolve_agent hosted_state headers1 = Some agent1" "st_agents hosted_state \<noteq> None"
    by (simp_all add: resolve_agent_def hosted_state_def bearer_def header_text_def headers1_lookup strip_prefix_def
        lookup_agent_def single_def agent1_def)
  ultimately show ?thesis by (simp add: intake_def cx1_def)
qed

lemma arrived1: "proceed1 (Arrived headers1 ''call'') world0 = (Inr (Identified cx1), world0\<lparr>w_conn := tick conn0\<rparr>)"
  by (simp add: then_act_def fresh_id_def go_on_def intake1) (simp add: world0_def)

text \<open>The first request of an agent is within its rate.\<close>

lemma identified1:
  assumes "w_buckets w = []"
  shows "\<exists>bs. proceed1 (Identified cx1) w = (Inr (Admitted cx1), w\<lparr>w_buckets := bs\<rparr>)"
proof -
  have "fst (check_rate \<lparr>rc_qps = 5, rc_burst = 10\<rparr> 0 k []) = Allowed" for k
    by (simp add: check_rate_def Let_def maybe_prune_def new_bucket_def try_consume_def refill_def as_secs_def
        split: prod.split)
  then obtain bs where "check_rate \<lparr>rc_qps = 5, rc_burst = 10\<rparr> 0 (canonical_key (cx_identity cx1)) [] = (Allowed, bs)"
    by (metis prod.collapse)
  with assms show ?thesis
    by (auto simp: then_act_def check_limiter_def hosted_state_def env1_def go_on_def)
qed

lemma admitted1: "proceed1 (Admitted cx1) w = (Inr (Replaying cx1 call1), w)"
proof -
  have "server_binding hosted_lib cx1 ''wire'' = Some (Some binding1)"
    by (simp add: server_binding_def cx1_def binding1_def digest1_def wire_request_def agent1_def parse_hosted Let_def)
  then show ?thesis
    by (simp add: then_act_def tool_call_def Let_def validate_callback_url_def header_text_def go_on_def cx1_def
        wire_request_def is_mcp_control_method_def tool_type_of_def call1_def headers1_lookup)
qed

lemma replaying1:
  assumes "w_conn w = tick conn0"
  shows "proceed1 (Replaying cx1 call1) w = (Inr (Assessing cx1 call1), w\<lparr>w_conn := tick (tick (tick conn0))\<rparr>)"
  using assms
  by (simp add: then_act_def call1_def replay_def inspect_server_execution_def on_conn_def go_on_def
      with_connection_def with_connection_result_def inspect_execution_result row_of_binding_def inspect_row_def conn0_def)

text \<open>With the shipped rules the call is green.\<close>

lemma assessing1:
  assumes "w_velocity w = Map.empty"
  shows "\<exists>v m. proceed1 (Assessing cx1 call1) w = (Inr (Judged cx1 call1 v), w\<lparr>w_velocity := m\<rparr>) \<and> vd_tier v = Green"
proof -
  let ?brain = "inspect ''wire'' (from_utf8_lossy ''call'')"
  let ?inp = "policy_input_of cx1 ''wire'' ?brain"
  have i: "pi_recent_request_count ?inp < 2 ^ 32" "pi_tool_type ?inp = ''wire''"
      "pi_intent_score ?inp = hv_intent_score ?brain"
    by (simp_all add: policy_input_of_def)
  have "\<not> hv_injection_detected ?brain" by code_simp
  moreover have "pi_recent_request_count (effective_input 60 0 ?inp Map.empty) \<le> 100"
    by (simp add: effective_input_def policy_input_of_def record_and_count_def sweep_def)
  moreover have "''wire'' \<notin> set DANGEROUS_TOOL_NAMES" by (simp add: DANGEROUS_TOOL_NAMES_def)
  moreover have "runs_governance hosted_lib (\<lambda>q. [])" unfolding hosted_lib_def by (rule gov_lib_runs)
  ultimately have "classify ?brain (fst (evaluate hosted_lib 60 0 0 None ?inp Map.empty)) = Green"
    using governance_tiers [OF _ i refl, of hosted_lib "\<lambda>q. []" 60 0 0 Map.empty] by simp
  moreover have "cx_body cx1 = ''call''" "cl_tool_type call1 = ''wire''" by (simp_all add: cx1_def call1_def)
  ultimately show ?thesis
    using assms by (auto simp: then_act_def judge_def Let_def go_on_def env1_def hosted_state_def
        simp del: from_utf8_lossy.simps split: prod.split)
qed

text \<open>The ledger takes the verdict, and then the intent.\<close>

lemma begun1:
  "\<exists>c'. begin_server_execution hosted_lib binding1 (snd (append_ledger hosted_lib req (tick (tick (tick conn0))))) =
     (Inr Started, c')"
  by (simp add: run_simps hosted_lib_def gov_lib_def binding1_def append_ledger_def tick_def)

lemma sending1:
  "\<exists>upstream w'. proceed1 (Sending cx1 call1 v) w = (Inr (Settling cx1 call1 v upstream), w') \<and> w_conn w' = w_conn w \<and>
     w_sent w' = w_sent w @ [attempt1 v]"
proof -
  have "is_json_type (Some ''application/json'')" by code_simp
  then have "validate_mcp_response hosted_lib 200 (Some ''application/json'') ''reply'' (Some (JNum (Integral 1))) = Inr ()"
    by (simp add: validate_mcp_response_def parse_hosted rpc_reply_def ensure_def ok_or_def Let_def)
  then show ?thesis
    by (simp add: then_act_def send_upstream_def forward_def receive_def cx1_def call1_def wire_request_def validated1
        attempt1_def hosted_state_def env1_def Let_def RESPONSE_BODY_BYTES_def header_text_def header_def ok_or_def go_on_def)
qed

lemma world0_sel [simp]: "w_conn world0 = conn0" "w_sent world0 = []"
  by (simp_all add: world0_def)

lemma conn0_tables [simp]: "t_entries conn0 = []" "t_pendings conn0 = []" "t_executions conn0 = []" "t_outbox conn0 = []"
  by (simp_all add: conn0_def)

lemma reply_retainable: "retainable hosted_lib ''reply''"
  by (simp add: retainable_def result_value_def parse_hosted rpc_reply_def int_ok_def keys_sorted_def)

text \<open>The whole run. Its one attempt is the server execution, with the digest of its body.\<close>

lemma task1:
  "\<exists>k t' v w'. run_task hosted_lib decode1 hosted_state (\<lambda>_. env1) k (Arrived headers1 ''call'') world0 = (t', w') \<and>
     w_sent w' = [attempt1 v]"
proof -
  let ?w1 = "world0\<lparr>w_conn := tick conn0\<rparr>"
  obtain bs where identified: "proceed1 (Identified cx1) ?w1 = (Inr (Admitted cx1), ?w1\<lparr>w_buckets := bs\<rparr>)"
    using identified1 [of ?w1] by (auto simp: world0_def)
  let ?w2 = "?w1\<lparr>w_buckets := bs\<rparr>"
  let ?w3 = "?w2\<lparr>w_conn := tick (tick (tick conn0))\<rparr>"
  have replaying: "proceed1 (Replaying cx1 call1) ?w2 = (Inr (Assessing cx1 call1), ?w3)"
    by (rule replaying1) simp
  obtain v m where v: "proceed1 (Assessing cx1 call1) ?w3 = (Inr (Judged cx1 call1 v), ?w3\<lparr>w_velocity := m\<rparr>)"
      "vd_tier v = Green"
    using assessing1 [of ?w3] by (auto simp: world0_def)
  define c where "c = snd (append_ledger hosted_lib (verdict_log cx1 v) (tick (tick (tick conn0))))"
  let ?w4 = "?w3\<lparr>w_velocity := m, w_conn := c\<rparr>"
  have judged: "proceed1 (Judged cx1 call1 v) (?w3\<lparr>w_velocity := m\<rparr>) = (Inr (Reviewed cx1 call1 v), ?w4)"
    by (simp add: then_act_def on_conn_def go_on_def v(2) c_def split: prod.split)
  have reviewed: "proceed1 (Reviewed cx1 call1 v) ?w4 = (Inr (Beginning cx1 call1 v), ?w4)"
    by (simp add: go_on_def v(2) cx1_def)
  obtain c' where "begin_server_execution hosted_lib binding1 c = (Inr Started, c')"
    using begun1 unfolding c_def by blast
  then have begun: "proceed1 (Beginning cx1 call1 v) ?w4 = (Inr (Sending cx1 call1 v), ?w4\<lparr>w_conn := c'\<rparr>)"
    by (simp add: then_act_def call1_def start_def on_conn_def go_on_def)
  obtain upstream w' where sent: "proceed1 (Sending cx1 call1 v) (?w4\<lparr>w_conn := c'\<rparr>) =
      (Inr (Settling cx1 call1 v upstream), w')"
    and a: "w_sent w' = [attempt1 v]"
    using sending1 [of v "?w4\<lparr>w_conn := c'\<rparr>"] by (auto simp: world0_def)
  note steps = arrived1 identified admitted1 replaying v(1) judged reviewed begun sent
  let ?E = "\<lambda>_::nat. env1"
  have "run_task hosted_lib decode1 hosted_state ?E (Suc (Suc (Suc (Suc (Suc (Suc (Suc (Suc (Suc 0)))))))))
      (Arrived headers1 ''call'') world0 = (Settling cx1 call1 v upstream, w')"
    by (simp only: run_task.simps advance_def steps prod.case sum.case)
  with a show ?thesis by blast
qed

lemma run1:
  assumes "good ''reply''"
  shows "\<exists>v w' ts. runs hosted_lib decode1 decode_decide hosted_state good (world0, []) (w', ts) \<and>
     w_sent w' = [attempt1 v]"
proof -
  obtain k t' v w' where r: "run_task hosted_lib decode1 hosted_state (\<lambda>_. env1) k (Arrived headers1 ''call'') world0 = (t', w')"
      "w_sent w' = [attempt1 v]"
    using task1 by blast
  from run_task_runs [OF r(1), of good decode_decide "[]" "[]"] env1_ok [of good, OF assms]
  have "runs hosted_lib decode1 decode_decide hosted_state good (world0, [Arrived headers1 ''call'']) (w', [t'])" by simp
  moreover have "sys_step hosted_lib decode1 decode_decide hosted_state good
      (world0, []) (world0, [Arrived headers1 ''call''])"
    using sys_step.arrive [where ts = "[]"] by simp
  ultimately show ?thesis using r(2) by (meson converse_rtranclp_into_rtranclp)
qed

end
