(* ===== verification/Effects.thy ===== *)
theory Effects
  imports Sample_Run
begin

text \<open>
  What holds in every state that the running server can reach: the ledger is sound, nothing reaches the
  upstream that was not authorized, and one server execution reaches it at most once.
\<close>

section \<open>The ledger\<close>



section \<open>Authorized\<close>

definition approved :: "conn \<Rightarrow> string \<Rightarrow> bool" where
  "approved c correlation_id \<longleftrightarrow>
     (\<exists>r \<in> set (t_pendings c). pr_correlation_id r = correlation_id \<and> pr_decision r = Some ''allow'')"

definition call_ok :: "lib \<Rightarrow> mcp_context \<Rightarrow> call \<Rightarrow> bool" where
  "call_ok L cx cl \<longleftrightarrow> \<not> is_mcp_control_method (mr_method (cx_request cx)) \<and>
     cl_tool_type cl = tool_type_of (cx_request cx) \<and> server_binding L cx (cl_tool_type cl) = Some (cl_binding cl)"

text \<open>
  The verdict on the tool call of \<open>agent\<close> with this body: the inspection of the body, and the decision of
  the policy engine on its outcome, at some time and with some velocity count.
\<close>

definition verdict_on ::
  "lib \<Rightarrow> app_state \<Rightarrow> agent_identity \<Rightarrow> string \<Rightarrow> string \<Rightarrow> verdict \<Rightarrow> bool"
where
  "verdict_on L A agent tool body v \<longleftrightarrow>
     vd_brain v = inspect tool (from_utf8_lossy body) \<and>
     (\<exists>now wall worker inp m. vd_policy v = fst (evaluate L (st_velocity_window A) now wall worker inp m) \<and>
        pi_tool_type inp = tool \<and> pi_intent_score inp = hv_intent_score (vd_brain v) \<and>
        pi_agent_id inp = Some (canonical_key agent) \<and> pi_current_time inp = None \<and>
        pi_recent_request_count inp = 0)"

definition judged_ok :: "lib \<Rightarrow> app_state \<Rightarrow> mcp_context \<Rightarrow> call \<Rightarrow> verdict \<Rightarrow> bool" where
  "judged_ok L A cx cl v \<longleftrightarrow> verdict_on L A (cx_identity cx) (cl_tool_type cl) (cx_body cx) v \<and>
     vd_tier v = classify (vd_brain v) (vd_policy v)"

definition reviewed_ok :: "app_state \<Rightarrow> conn \<Rightarrow> mcp_context \<Rightarrow> verdict \<Rightarrow> bool" where
  "reviewed_ok A c cx v \<longleftrightarrow>
     (st_mode A = Enforce \<longrightarrow> vd_tier v = Yellow \<longrightarrow> approved c (cx_correlation_id cx))"

text \<open>What holds of a task at each of its stages.\<close>

fun task_inv :: "lib \<Rightarrow> app_state \<Rightarrow> conn \<Rightarrow> task \<Rightarrow> bool" where
  "task_inv L A c (Relaying cx) \<longleftrightarrow> is_mcp_control_method (mr_method (cx_request cx))"
| "task_inv L A c (Replaying cx cl) \<longleftrightarrow> call_ok L cx cl"
| "task_inv L A c (Assessing cx cl) \<longleftrightarrow> call_ok L cx cl"
| "task_inv L A c (Judged cx cl v) \<longleftrightarrow> call_ok L cx cl \<and> judged_ok L A cx cl v"
| "task_inv L A c (Resuming cx cl v) \<longleftrightarrow> call_ok L cx cl \<and> judged_ok L A cx cl v"
| "task_inv L A c (Reviewed cx cl v) \<longleftrightarrow> call_ok L cx cl \<and> judged_ok L A cx cl v \<and> reviewed_ok A c cx v"
| "task_inv L A c (Beginning cx cl v) \<longleftrightarrow> call_ok L cx cl \<and> judged_ok L A cx cl v \<and> reviewed_ok A c cx v \<and>
     (st_mode A = Enforce \<longrightarrow> vd_tier v \<noteq> Red) \<and> cx_decision cx = None"
| "task_inv L A c (Sending cx cl v) \<longleftrightarrow> call_ok L cx cl \<and> judged_ok L A cx cl v \<and> reviewed_ok A c cx v \<and>
     (st_mode A = Enforce \<longrightarrow> vd_tier v \<noteq> Red) \<and> cx_decision cx = None"
| "task_inv L A c _ \<longleftrightarrow> True"

text \<open>
  What holds of everything that was sent. It answers a request of an authenticated agent whose body it
  carries: a control method, or a server execution that the request's headers select, for the tool that
  its body names.
\<close>

definition requested :: "lib \<Rightarrow> (string \<Rightarrow> mcp_request option) \<Rightarrow> app_state \<Rightarrow> attempt \<Rightarrow> bool" where
  "requested L decode A a \<longleftrightarrow>
     (\<exists>hs parsed. resolve_agent A hs = Some (at_agent a) \<and> decode (ur_body (at_request a)) = Some parsed \<and>
        at_method a = mr_method parsed \<and>
        (case at_execution a of
           None \<Rightarrow> is_mcp_control_method (at_method a)
         | Some b \<Rightarrow> st_agents A \<noteq> None \<and>
             parse_server_execution_request L hs = Inr (Some (sb_idempotency_id b)) \<and>
             sb_agent_id b = ai_agent_id (at_agent a) \<and> sb_tool_name b = tool_type_of parsed))"

text \<open>
  An execution has the digest of that body on record, and the body was inspected; if the posture is to
  enforce, it was found harmless, allowed by the policy, and approved by a human when the policy asked
  for a review.
\<close>

definition cleared :: "lib \<Rightarrow> app_state \<Rightarrow> conn \<Rightarrow> attempt \<Rightarrow> server_execution_binding \<Rightarrow> bool" where
  "cleared L A c a b \<longleftrightarrow>
     (\<exists>doc. parse_json L (ur_body (at_request a)) = Some doc \<and>
        sb_submitted_request_sha256 b = ''sha256:'' @ sha256_hex L (print_json L doc)) \<and>
     (\<exists>v. at_verdict a = Some v \<and> verdict_on L A (at_agent a) (sb_tool_name b) (ur_body (at_request a)) v \<and>
        (st_mode A = Enforce \<longrightarrow> hv_authorized (vd_brain v) \<and> pd_allow (vd_policy v) \<and>
           (pd_policy_review_reasons (vd_policy v) = [] \<or> approved c (sb_correlation_id b))))"

definition attempt_ok ::
  "lib \<Rightarrow> (string \<Rightarrow> mcp_request option) \<Rightarrow> app_state \<Rightarrow> conn \<Rightarrow> attempt \<Rightarrow> bool"
where
  "attempt_ok L decode A c a \<longleftrightarrow> ur_url (at_request a) = st_upstream_url A \<and> requested L decode A a \<and>
     (case at_execution a of None \<Rightarrow> True | Some b \<Rightarrow> cleared L A c a b)"

lemma approved_persists:
  assumes "review_step L c c'" "pendings_ok L (t_pendings c)" "approved c i"
  shows "approved c' i"
proof -
  from assms(3) obtain r where r: "r \<in> set (t_pendings c)" "pr_correlation_id r = i" "pr_decision r = Some ''allow''"
    by (auto simp: approved_def)
  with assms(2) have "pr_decided_at r \<noteq> None" by (force simp: pendings_ok_def pending_row_ok_def)
  with review_keeps_decided [OF assms(1) r(1)] r show ?thesis by (auto simp: approved_def)
qed

lemma approved_restart: "approved (c\<lparr>instance_id := i\<rparr>) x \<longleftrightarrow> approved c x"
  by (simp add: approved_def)

lemma get_pending_decision:
  assumes "get_pending L i c = (Inr (Some p), c')" "pd_decision p = Some ''allow''"
  shows "approved c i"
proof -
  from assms(1) obtain r where f: "find (\<lambda>r. pr_correlation_id r = i) (t_pendings c) = Some r"
      and p: "row_to_pending L r = Inr p"
    by (auto simp: get_pending_def db_simps row_option_def split: if_splits option.splits)
  from p have "pd_decision p = pr_decision r" by (auto simp: row_to_pending_def)
  with f assms(2) show ?thesis by (auto simp: approved_def find_Some_iff)
qed

lemma judge_Inr:
  assumes "judge L A E cx tool w = (Inr v, w')" "cl_tool_type cl = tool"
  shows "judged_ok L A cx cl v"
proof -
  let ?inp = "policy_input_of cx tool (inspect tool (from_utf8_lossy (cx_body cx)))"
  let ?ev = "evaluate L (st_velocity_window A) (re_now E) (re_wall E) (re_worker E) ?inp (w_velocity w)"
  have v: "vd_brain v = inspect tool (from_utf8_lossy (cx_body cx))" "vd_policy v = fst ?ev"
      "vd_tier v = classify (vd_brain v) (vd_policy v)"
    using assms(1) by (auto simp: judge_def Let_def simp del: from_utf8_lossy.simps split: prod.splits)
  have "verdict_on L A (cx_identity cx) tool (cx_body cx) v"
    unfolding verdict_on_def v(1,2)
    by (intro conjI refl exI [of _ "re_now E"] exI [of _ "re_wall E"] exI [of _ "re_worker E"] exI [of _ ?inp]
        exI [of _ "w_velocity w"]) (simp_all add: policy_input_of_def)
  with v(3) assms(2) show ?thesis by (simp add: judged_ok_def)
qed

lemma approved_resume_Inr:
  assumes "approved_resume L A cx v w = (Inr True, w')"
  shows "approved (w_conn w) (cx_correlation_id cx)"
  using assms get_pending_decision by (auto simp: approved_resume_def act_simps)

lemma proceed_inv:
  assumes "proceed L decode A E t w = (Inr t', w')" "task_inv L A (w_conn w) t"
  shows "task_inv L A (w_conn w) t'"
  using assms
  by (cases t) (auto simp: act_simps Let_def call_ok_def reviewed_ok_def intro: judge_Inr dest: approved_resume_Inr split: if_splits)

lemma task_inv_persists:
  assumes "review_step L c c'" "pendings_ok L (t_pendings c)" "task_inv L' A c t"
  shows "task_inv L' A c' t"
  using assms(3) approved_persists [OF assms(1,2)] by (cases t) (auto simp: reviewed_ok_def)

lemma attempt_ok_persists:
  assumes "review_step L c c'" "pendings_ok L (t_pendings c)" "attempt_ok L' decode A c a"
  shows "attempt_ok L' decode A c' a"
  using assms(3) approved_persists [OF assms(1,2)]
  unfolding attempt_ok_def cleared_def by (auto split: option.splits)

text \<open>What a step sends.\<close>

lemma forward_request:
  assumes "forward L adapter net url key body = (Some request, res)"
  shows "ur_url request = url \<and> ur_body request = body"
  using assms by (auto simp: forward_def Let_def split: sum.splits)

lemma tier_cleared:
  assumes "judged_ok L A cx cl v" "vd_tier v \<noteq> Red"
  shows "hv_authorized (vd_brain v)" "pd_allow (vd_policy v)"
    "pd_policy_review_reasons (vd_policy v) = [] \<or> vd_tier v = Yellow"
  using assms by (auto simp: judged_ok_def classify_def split: if_splits)

lemma server_binding_Some:
  assumes "server_binding L cx tool = Some bo" "cx_server_execution cx = Some u"
  shows "\<exists>b doc. bo = Some b \<and> parse_json L (cx_body cx) = Some doc \<and> sb_tool_name b = tool \<and>
    sb_correlation_id b = cx_correlation_id cx \<and> sb_agent_id b = ai_agent_id (cx_identity cx) \<and>
    sb_idempotency_id b = u \<and> sb_submitted_request_sha256 b = ''sha256:'' @ sha256_hex L (print_json L doc)"
  using assms by (auto simp: server_binding_def Let_def split: option.splits)

lemma sending_ok:
  assumes inv: "task_inv L A c (Sending cx cl v)" and "serves_request L decode A hs body (Sending cx cl v)"
    and r: "ur_url request = st_upstream_url A" "ur_body request = cx_body cx"
  shows "attempt_ok L decode A c \<lparr>at_request = request, at_agent = cx_identity cx,
    at_method = mr_method (cx_request cx), at_execution = cl_binding cl, at_verdict = Some v\<rparr>"
    (is "attempt_ok L decode A c ?a")
proof -
  from assms(2) obtain fallback where "intake L decode A hs body fallback = Inr cx"
    by (auto simp: serves_request_def)
  note i = intake_Inr [OF this]
  from inv i(7) obtain u where u: "cx_server_execution cx = Some u"
    by (auto simp: call_ok_def)
  have tool: "cl_tool_type cl = tool_type_of (cx_request cx)"
    and "server_binding L cx (cl_tool_type cl) = Some (cl_binding cl)"
    using inv unfolding task_inv.simps call_ok_def by blast+
  from server_binding_Some [OF this(2) u] obtain b doc where b: "cl_binding cl = Some b"
      "parse_json L (cx_body cx) = Some doc" "sb_tool_name b = cl_tool_type cl"
      "sb_correlation_id b = cx_correlation_id cx" "sb_agent_id b = ai_agent_id (cx_identity cx)"
      "sb_idempotency_id b = u" "sb_submitted_request_sha256 b = ''sha256:'' @ sha256_hex L (print_json L doc)"
    by blast
  have "hv_authorized (vd_brain v) \<and> pd_allow (vd_policy v) \<and>
      (pd_policy_review_reasons (vd_policy v) = [] \<or> approved c (cx_correlation_id cx))" if "st_mode A = Enforce"
    using inv that tier_cleared [of L A cx cl v] by (auto simp: reviewed_ok_def)
  moreover have "verdict_on L A (cx_identity cx) (cl_tool_type cl) (cx_body cx) v"
    using inv by (simp add: judged_ok_def)
  ultimately have "cleared L A c ?a b" using b r by (simp add: cleared_def)
  moreover have "requested L decode A ?a"
    unfolding requested_def using i(1,3,4,8,10) u b(1,3,5,6) r(2) tool
    by (intro exI [of _ hs] exI [of _ "cx_request cx"]) simp
  ultimately show ?thesis using b(1) r(1) by (simp add: attempt_ok_def)
qed

lemma relaying_ok:
  assumes "task_inv L A c (Relaying cx)" "serves_request L decode A hs body (Relaying cx)"
    and "ur_url request = st_upstream_url A" "ur_body request = cx_body cx"
  shows "attempt_ok L decode A c \<lparr>at_request = request, at_agent = cx_identity cx,
    at_method = mr_method (cx_request cx), at_execution = None, at_verdict = None\<rparr>"
proof -
  from assms(2) obtain fallback where "intake L decode A hs body fallback = Inr cx"
    by (auto simp: serves_request_def)
  from intake_Inr(1,3,8) [OF this] assms(1,3,4) show ?thesis by (auto simp: attempt_ok_def requested_def)
qed

lemma send_upstream_result:
  assumes "send_upstream L A net cx binding v w = (r, w')"
  shows "w_conn w' = w_conn w \<and> (w_sent w' = w_sent w \<or> (\<exists>request. ur_url request = st_upstream_url A \<and>
    ur_body request = cx_body cx \<and> w_sent w' = w_sent w @ [\<lparr>at_request = request, at_agent = cx_identity cx,
      at_method = mr_method (cx_request cx), at_execution = binding, at_verdict = v\<rparr>]))"
proof -
  obtain sent res where f: "forward L (st_upstream_adapter A) net (st_upstream_url A) (st_upstream_api_key A) (cx_body cx) =
      (sent, res)" by fastforce
  show ?thesis
    using assms f forward_request [of L "st_upstream_adapter A" net "st_upstream_url A" "st_upstream_api_key A" "cx_body cx" _ res]
    by (cases sent) (auto simp: send_upstream_def)
qed

lemma then_answer:
  assumes "then_act m f w = (r, w')" "\<And>x w1 r' w2. f x w1 = (r', w2) \<Longrightarrow> w2 = w1"
  shows "\<exists>r1. m w = (r1, w')"
  using assms(1) assms(2) [of _ _ r w'] by (fastforce simp: then_act_def split: prod.splits sum.splits)

lemma sends_result:
  assumes "proceed L decode A E t w = (r, w')"
  shows "t = Relaying cx \<Longrightarrow> \<exists>r'. send_upstream L A (re_net E) cx None None w = (r', w')"
    and "t = Sending cx cl v \<Longrightarrow> \<exists>r'. send_upstream L A (re_net E) cx (cl_binding cl) (Some v) w = (r', w')"
proof -
  assume "t = Relaying cx"
  with assms have "then_act (send_upstream L A (re_net E) cx None None) (\<lambda>res. case res of
       Inl e \<Rightarrow> answer (plain 502 (cx_correlation_id cx) (st_mode A) (Message (UpstreamUnreachable e)))
     | Inr upstream \<Rightarrow> go_on (Relayed cx upstream)) w = (r, w')" by (simp only: proceed.simps)
  then show "\<exists>r'. send_upstream L A (re_net E) cx None None w = (r', w')"
    by (rule then_answer) (auto simp: go_on_def answer_def split: sum.splits)
next
  assume "t = Sending cx cl v"
  with assms have "then_act (send_upstream L A (re_net E) cx (cl_binding cl) (Some v)) (\<lambda>res. case res of
       Inl e \<Rightarrow>
         if cl_binding cl \<noteq> None then refused A cx 409 ''server_execution_uncertain''
         else answer \<lparr>rs_status = 502, rs_headers = clavenar_headers (cx_correlation_id cx) (st_mode A)
                (vd_tier v = Red) (vd_tier v = Yellow), rs_body = Message (UpstreamUnreachable e)\<rparr>
     | Inr upstream \<Rightarrow> go_on (Settling cx cl v upstream)) w = (r, w')" by (simp only: proceed.simps)
  then show "\<exists>r'. send_upstream L A (re_net E) cx (cl_binding cl) (Some v) w = (r', w')"
    by (rule then_answer) (auto simp: go_on_def answer_def refused_def split: sum.splits if_splits)
qed

lemma sends_sent:
  assumes p: "proceed L decode A E t w = (r, w')" and "sends t" "task_inv L A (w_conn w) t"
    and "serves_request L decode A hs body t"
  shows "\<exists>new. w_sent w' = w_sent w @ new \<and> w_conn w' = w_conn w \<and> (\<forall>a \<in> set new. attempt_ok L decode A (w_conn w) a)"
proof -
  from assms(2) consider (relay) cx where "t = Relaying cx" | (send) cx cl v where "t = Sending cx cl v"
    by (auto simp: sends_def)
  then show ?thesis
  proof cases
    case (relay cx)
    with sends_result(1) [OF p] obtain r' where "send_upstream L A (re_net E) cx None None w = (r', w')" by blast
    from send_upstream_result [OF this] relaying_ok [OF assms(3) [unfolded relay] assms(4) [unfolded relay]]
    show ?thesis by auto
  next
    case (send cx cl v)
    with sends_result(2) [OF p] obtain r' where "send_upstream L A (re_net E) cx (cl_binding cl) (Some v) w = (r', w')"
      by blast
    from send_upstream_result [OF this] sending_ok [OF assms(3) [unfolded send] assms(4) [unfolded send]]
    show ?thesis by auto
  qed
qed

definition safe ::
  "lib \<Rightarrow> (string \<Rightarrow> mcp_request option) \<Rightarrow> app_state \<Rightarrow> world \<times> task list \<Rightarrow> bool"
where
  "safe L decode A s \<longleftrightarrow> (case s of (w, ts) \<Rightarrow>
     pendings_ok L (t_pendings (w_conn w)) \<and> (\<forall>a \<in> set (w_sent w). attempt_ok L decode A (w_conn w) a) \<and>
     (\<forall>t \<in> set ts. task_inv L A (w_conn w) t \<and> (\<exists>hs body. serves_request L decode A hs body t)))"

lemma advance_safe:
  assumes "advance L decode A E t w = (t', w')" "review_step L (w_conn w) (w_conn w')" "clock_ok (w_conn w)"
    and "settles_ok good t" "pendings_ok L (t_pendings (w_conn w))" "task_inv L A (w_conn w) t"
    and "serves_request L decode A hs body t" "\<forall>a \<in> set (w_sent w). attempt_ok L decode A (w_conn w) a"
  shows "task_inv L A (w_conn w') t' \<and> serves_request L decode A hs body t' \<and>
    (\<forall>a \<in> set (w_sent w'). attempt_ok L decode A (w_conn w') a)"
proof -
  obtain r where p: "proceed L decode A E t w = (r, w')"
    and r: "r = Inl out \<Longrightarrow> t' = Answered out" "r = Inr t1 \<Longrightarrow> t' = t1" for out t1
    using assms(1) by (auto simp: advance_def split: prod.splits sum.splits)
  have "task_inv L A (w_conn w) t' \<and> serves_request L decode A hs body t'"
  proof (cases r)
    case (Inl out)
    with r(1) [of out] show ?thesis by (simp add: serves_request_def)
  next
    case (Inr t1)
    with p r(2) [of t1] proceed_inv [OF _ assms(6)] proceed_serves [OF _ assms(7)] show ?thesis by blast
  qed
  moreover have "\<forall>a \<in> set (w_sent w'). attempt_ok L decode A (w_conn w) a"
  proof (cases "sends t")
    case True
    with sends_sent [OF p _ assms(6,7)] assms(8) show ?thesis by auto
  next
    case False
    with review_ledger.advance_keeps(2) [OF assms(1,3,4)] assms(8) show ?thesis by simp
  qed
  ultimately show ?thesis
    using task_inv_persists [OF assms(2,5)] attempt_ok_persists [OF assms(2,5)] by blast
qed

lemma safe_step:
  assumes "sys_step L decode decode_decide A good s s'" "base_ok good s" "safe L decode A s"
  shows "safe L decode A s'"
proof -
  obtain w ts w' ts' where s: "s = (w, ts)" "s' = (w', ts')" by fastforce
  have b: "base_ok good (w, ts)" and step: "sys_step L decode decode_decide A good (w, ts) (w', ts')"
    and safe: "pendings_ok L (t_pendings (w_conn w))" "\<forall>a \<in> set (w_sent w). attempt_ok L decode A (w_conn w) a"
      "\<forall>t \<in> set ts. task_inv L A (w_conn w) t \<and> (\<exists>hs body. serves_request L decode A hs body t)"
    using assms s by (simp_all add: safe_def)
  have later: "pendings_ok L (t_pendings c)" "task_inv L A (w_conn w) t \<Longrightarrow> task_inv L A c t"
      "attempt_ok L decode A (w_conn w) a \<Longrightarrow> attempt_ok L decode A c a" if "review_step L (w_conn w) c" for c t a
    using task_inv_persists [OF that safe(1)] attempt_ok_persists [OF that safe(1)] that safe(1)
    by (auto simp: review_step_def)
  from step b show ?thesis
  proof (cases rule: review_ledger.sys_step_cases)
    case (advance E t t' us us')
    with safe(3) obtain hs body where t: "task_inv L A (w_conn w) t" "serves_request L decode A hs body t" by auto
    have "clock_ok (w_conn w)" using b by (simp add: base_ok_def)
    from advance_safe [OF advance(4,6) this advance(5) safe(1) t safe(2)] show ?thesis
      using safe(3) later [OF advance(6)] advance(1,2) by (auto simp: s safe_def)
  next
    case quiet
    with safe later show ?thesis by (auto simp: s safe_def quiet_step_def)
  next
    case (arrive hs body)
    with safe show ?thesis by (auto simp: s safe_def serves_request_def)
  next
    case (restart i)
    have "attempt_ok L decode A ((w_conn w)\<lparr>instance_id := i\<rparr>) a = attempt_ok L decode A (w_conn w) a" for a
      by (simp add: attempt_ok_def cleared_def approved_restart split: option.split)
    with restart safe show ?thesis by (simp add: s safe_def)
  qed (use safe in \<open>auto simp: s safe_def\<close>)
qed

lemma sent_ok:
  assumes "runs L decode decode_decide A good (w, []) (w', ts)"
    and "clock_ok (w_conn w)" "pendings_ok L (t_pendings (w_conn w))" "w_sent w = []" "a \<in> set (w_sent w')"
  shows "attempt_ok L decode A (w_conn w') a"
proof -
  have "safe L decode A (w', ts)"
    using assms(1)
  proof (rule runs_invariant)
    show "base_ok good (w, [])" using assms(2) by (simp add: base_ok_def)
    show "safe L decode A (w, [])" using assms(3,4) by (simp add: safe_def)
  qed (rule safe_step)
  with assms(5) show ?thesis by (simp add: safe_def)
qed



section \<open>At most once\<close>

datatype exec_identity = Identity string uuid

definition key_of :: "server_execution_binding \<Rightarrow> exec_identity" where
  "key_of b = Identity (sb_agent_id b) (sb_idempotency_id b)"

fun has_row :: "lib \<Rightarrow> conn \<Rightarrow> exec_identity \<Rightarrow> bool" where
  "has_row L c (Identity agent i) \<longleftrightarrow>
     (\<exists>r \<in> set (t_executions c). xr_agent_id r = agent \<and> xr_idempotency_id r = show_uuid L i)"

text \<open>The identities that are released to be sent, and those that were.\<close>

fun sending_keys :: "task \<Rightarrow> exec_identity list" where
  "sending_keys (Sending cx cl v) = map key_of (case cl_binding cl of None \<Rightarrow> [] | Some b \<Rightarrow> [b])"
| "sending_keys _ = []"

definition sent_keys :: "world \<Rightarrow> exec_identity list" where
  "sent_keys w = map key_of (List.map_filter at_execution (w_sent w))"

definition released :: "world \<times> task list \<Rightarrow> exec_identity list" where
  "released s = concat (map sending_keys (snd s)) @ sent_keys (fst s)"

definition once :: "lib \<Rightarrow> world \<times> task list \<Rightarrow> bool" where
  "once L s \<longleftrightarrow> distinct (released s) \<and> (\<forall>k \<in> set (released s). has_row L (w_conn (fst s)) k)"

lemma has_row_iff: "has_row L c (key_of b) \<longleftrightarrow> row_of_binding L b c \<noteq> None"
  by (auto simp: key_of_def row_of_binding_def find_None_iff has_identity_def)

lemma has_row_persists: "exec_step L c c' \<Longrightarrow> has_row L c k \<Longrightarrow> has_row L c' k"
proof -
  assume e: "exec_step L c c'" and h: "has_row L c k"
  obtain b where k: "k = key_of b"
    by (metis key_of_def exec_identity.exhaust server_execution_binding.select_convs(1,2))
  with h obtain r where "row_of_binding L b c = Some r" by (auto simp: has_row_iff)
  from row_persists [OF e this] show ?thesis by (auto simp: k has_row_iff)
qed

lemma start_Inr:
  assumes "start L A cx b v w = (Inr u, w')"
  shows "\<not> has_row L (w_conn w) (key_of b) \<and> has_row L (w_conn w') (key_of b)"
proof -
  from assms have s: "begin_server_execution L b (w_conn w) = (Inr Started, w_conn w')"
    by (auto simp: start_def act_simps)
  from begin_cases [OF s] begin_started_row [OF s] show ?thesis by (auto simp: has_row_iff)
qed

text \<open>A step releases an identity only if it had no row, and gives it one.\<close>

lemma proceed_releases:
  assumes "proceed L decode A E t w = (Inr t', w')" "sending_keys t' \<noteq> []"
  shows "sending_keys t = [] \<and> (\<exists>k. sending_keys t' = [k] \<and> \<not> has_row L (w_conn w) k \<and> has_row L (w_conn w') k)"
  using assms by (cases t) (auto simp: act_simps Let_def split: if_splits dest: start_Inr)

lemma advance_releases:
  assumes "advance L decode A E t w = (t', w')" "sending_keys t' \<noteq> []"
  shows "(t' = t \<and> w' = w) \<or>
    sending_keys t = [] \<and> (\<exists>k. sending_keys t' = [k] \<and> \<not> has_row L (w_conn w) k \<and> has_row L (w_conn w') k)"
  using assms proceed_releases [of L decode A E t w] by (auto simp: advance_def split: prod.splits sum.splits)

lemma sent_keys_snoc:
  "w_sent w' = w_sent w @ [a] \<Longrightarrow> sent_keys w' = sent_keys w @ map key_of (case at_execution a of None \<Rightarrow> [] | Some b \<Rightarrow> [b])"
  by (simp add: sent_keys_def List.map_filter_def split: option.split)

text \<open>A step that contacts the upstream moves the identity of its task from released to sent.\<close>

lemma proceed_sends_keys:
  assumes "proceed L decode A E t w = (r, w')" "sends t"
  shows "sent_keys w' = sent_keys w \<or> sent_keys w' = sent_keys w @ sending_keys t"
proof -
  from assms(2) consider (relay) cx where "t = Relaying cx" | (send) cx cl v where "t = Sending cx cl v"
    by (auto simp: sends_def)
  then show ?thesis
  proof cases
    case (relay cx)
    with sends_result(1) [OF assms(1)] obtain r' where "send_upstream L A (re_net E) cx None None w = (r', w')" by blast
    from send_upstream_result [OF this] show ?thesis
      using sent_keys_snoc [of w' w] by (auto simp: relay sent_keys_def)
  next
    case (send cx cl v)
    with sends_result(2) [OF assms(1)] obtain r' where
      "send_upstream L A (re_net E) cx (cl_binding cl) (Some v) w = (r', w')" by blast
    from send_upstream_result [OF this] show ?thesis
      using sent_keys_snoc [of w' w] by (auto simp: send sent_keys_def)
  qed
qed

lemma advance_once:
  assumes "advance L decode A E t w = (t', w')" "exec_step L (w_conn w) (w_conn w')" "clock_ok (w_conn w)"
    and "settles_ok good t" "once L (w, us @ t # us')"
  shows "once L (w', us @ t' # us')"
proof -
  define U U' where "U = concat (map sending_keys us)" and "U' = concat (map sending_keys us')"
  have rel: "released (v, us @ x # us') = U @ sending_keys x @ U' @ sent_keys v" for v x
    by (simp add: released_def U_def U'_def)
  have once: "distinct (U @ sending_keys t @ U' @ sent_keys w)"
      "\<forall>k \<in> set (U @ sending_keys t @ U' @ sent_keys w). has_row L (w_conn w) k"
    using assms(5) by (simp_all add: once_def rel)
  have old: "\<forall>k \<in> set (U @ sending_keys t @ U' @ sent_keys w). has_row L (w_conn w') k"
    using once(2) has_row_persists [OF assms(2)] by blast
  show ?thesis
  proof (cases "sends t")
    case True
    obtain r where p: "proceed L decode A E t w = (r, w')"
      using assms(1) by (auto simp: advance_def split: prod.splits sum.splits)
    have "sending_keys t' = []"
    proof (rule ccontr)
      assume ne: "sending_keys t' \<noteq> []"
      have "stage t < stage t'" using advance_stage [OF assms(1)] True by (auto simp: sends_def)
      with ne True show False by (cases t') (auto simp: sends_def)
    qed
    with proceed_sends_keys [OF p True] once(1) old show ?thesis by (auto simp: once_def rel)
  next
    case False
    with exec_ledger.advance_keeps(2) [OF assms(1,3,4)] have sent: "sent_keys w' = sent_keys w"
      by (simp add: sent_keys_def)
    show ?thesis
    proof (cases "sending_keys t' = []")
      case True
      with once(1) old sent show ?thesis by (auto simp: once_def rel)
    next
      case ne: False
      from False have "sending_keys t = []" by (cases t) (auto simp: sends_def)
      with advance_releases [OF assms(1) ne] obtain k where k: "sending_keys t = []" "sending_keys t' = [k]"
          "\<not> has_row L (w_conn w) k" "has_row L (w_conn w') k" using ne by auto
      with once(2) have "k \<notin> set (U @ U' @ sent_keys w)" by auto
      with k once(1) old sent show ?thesis by (auto simp: once_def rel)
    qed
  qed
qed

lemma once_step:
  assumes "sys_step L decode decode_decide A good s s'" "base_ok good s" "once L s"
  shows "once L s'"
proof -
  obtain w ts w' ts' where s: "s = (w, ts)" "s' = (w', ts')" by fastforce
  have b: "base_ok good (w, ts)" and step: "sys_step L decode decode_decide A good (w, ts) (w', ts')"
    and once: "once L (w, ts)" using assms s by simp_all
  from step b show ?thesis
  proof (cases rule: exec_ledger.sys_step_cases)
    case (advance E t t' us us')
    with b once advance_once [OF advance(4,6) _ advance(5)] show ?thesis by (auto simp: s base_ok_def)
  next
    case quiet
    then have "released (w', ts') = released (w, ts)" "exec_step L (w_conn w) (w_conn w')"
      by (simp_all add: released_def quiet_step_def sent_keys_def)
    with once has_row_persists show ?thesis unfolding s once_def fst_conv by metis
  next
    case (restart i)
    have "has_row L ((w_conn w)\<lparr>instance_id := i\<rparr>) k = has_row L (w_conn w) k" for k by (cases k) simp
    with restart once show ?thesis by (auto simp: s once_def released_def sent_keys_def)
  qed (use once in \<open>auto simp: s once_def released_def simp del: set_concat\<close>)
qed

text \<open>
  C2. One server execution reaches the upstream at most once. However requests with the same agent and
  idempotency id interleave, repeat, are cancelled, fail or span restarts of the process, the identities
  of the executions that were sent are distinct, and each has its intent in the database.
\<close>

theorem executed_at_most_once:
  assumes "runs L decode decode_decide A good (w, []) (w', ts)" "clock_ok (w_conn w)" "w_sent w = []"
  shows "distinct (sent_keys w') \<and> (\<forall>k \<in> set (sent_keys w'). has_row L (w_conn w') k)"
proof -
  have "once L (w', ts)"
    using assms(1)
  proof (rule runs_invariant)
    show "base_ok good (w, [])" using assms(2) by (simp add: base_ok_def)
    show "once L (w, [])" using assms(3) by (simp add: once_def released_def sent_keys_def List.map_filter_def)
  qed (rule once_step)
  then show ?thesis by (simp add: once_def released_def)
qed

theorem executed_at_most_once_witness:
  "\<exists>w' :: world. sent_keys w' = [key_of binding1] \<and> has_row hosted_lib (w_conn w') (key_of binding1)"
proof -
  obtain v w' ts where r: "runs hosted_lib decode1 (\<lambda>_. None) hosted_state (\<lambda>_. True) (world0, []) (w', ts)"
      "w_sent w' = [attempt1 v]"
    using run1 [of "\<lambda>_. True"] by blast
  then have "sent_keys w' = [key_of binding1]" by (simp add: sent_keys_def List.map_filter_def attempt1_def)
  with executed_at_most_once [OF r(1)] show ?thesis by (auto simp: conn0_clock)
qed

end
