(* ===== verification/Hosted_Server.thy ===== *)
theory Hosted_Server
  imports Effects
begin

text \<open>
  The hosted server as a whole: a server that \<open>start\<close> brings up with the hosted profile, whose policy engine
  runs the shipped rules, under any interleaving of requests, operators, failures and restarts.
\<close>

section \<open>What the shipped rules let pass\<close>

lemma verdict_governed:
  assumes "runs_governance L fmt2" "verdict_on L A agent tool body v" "hv_authorized (vd_brain v)" "pd_allow (vd_policy v)"
  shows "tool \<notin> set DANGEROUS_TOOL_NAMES"
    "\<forall>needle \<in> set INJECTION_NEEDLES. \<not> contains_str (to_lowercase (from_utf8_lossy body)) needle"
    "tool = ''wire_transfer'' \<Longrightarrow> pd_policy_review_reasons (vd_policy v) \<noteq> []"
proof -
  from assms(2) obtain now wall worker inp m where brain: "vd_brain v = inspect tool (from_utf8_lossy body)"
    and policy: "vd_policy v = fst (evaluate L (st_velocity_window A) now wall worker inp m)"
    and inp: "pi_tool_type inp = tool" "pi_recent_request_count inp = 0"
    by (auto simp: verdict_on_def)
  from assms(3) brain show "tool \<notin> set DANGEROUS_TOOL_NAMES"
      "\<forall>needle \<in> set INJECTION_NEEDLES. \<not> contains_str (to_lowercase (from_utf8_lossy body)) needle"
    by (auto simp: inspect_authorized inspect_injection_iff contains_str_iff simp del: from_utf8_lossy.simps)
  assume "tool = ''wire_transfer''"
  moreover have "worker = None"
    using assms(4) policy by (cases worker) (auto simp: evaluate_def deny_with_def Let_def split: prod.splits)
  ultimately show "pd_policy_review_reasons (vd_policy v) \<noteq> []"
    using governance_decision(2) [OF assms(1), of inp "st_velocity_window A" now wall m] policy inp
    by (simp add: review_rules_def)
qed

text \<open>What may leave a hosted server.\<close>

definition hosted_request :: "lib \<Rightarrow> (string \<Rightarrow> mcp_request option) \<Rightarrow> app_state \<Rightarrow> conn \<Rightarrow> attempt \<Rightarrow> bool" where
  "hosted_request L decode A c a \<longleftrightarrow>
     (\<exists>url. parse_url L (ur_url (at_request a)) = Some url \<and> u_scheme url = ''https'') \<and>
     (\<exists>registry token. st_agents A = Some registry \<and> lookup_agent registry token = Some (at_agent a) \<and>
        32 \<le> length token) \<and>
     (\<exists>parsed. decode (ur_body (at_request a)) = Some parsed \<and>
        (case at_execution a of
           None \<Rightarrow> is_mcp_control_method (mr_method parsed)
         | Some b \<Rightarrow>
             sb_agent_id b = ai_agent_id (at_agent a) \<and> tool_type_of parsed \<notin> set DANGEROUS_TOOL_NAMES \<and>
             (\<forall>needle \<in> set INJECTION_NEEDLES.
                \<not> contains_str (to_lowercase (from_utf8_lossy (ur_body (at_request a)))) needle) \<and>
             (tool_type_of parsed = ''wire_transfer'' \<longrightarrow> approved c (sb_correlation_id b))))"



end
