(* ===== verification/Traffic.thy ===== *)
theory Traffic
  imports Effects
begin

text \<open>
  How much reaches the upstream: the rate limiter of \<open>src/rate_limit.rs\<close> within the running server. A timed run
  is a run of the server whose handlers read a clock that never goes back; it counts the restarts of the process,
  each of which empties the limiter.
\<close>

section \<open>Timed runs\<close>

text \<open>The steps of the server other than those of its handlers of \<open>/mcp\<close> and the restart.\<close>

inductive other_step ::
  "lib \<Rightarrow> (string \<Rightarrow> decide_request option) \<Rightarrow> app_state \<Rightarrow> world \<times> task list \<Rightarrow> world \<times> task list \<Rightarrow> bool"
  for L decode_decide A
where
  arrive: "other_step L decode_decide A (w, ts) (w, ts @ [Arrived hs body])"
| cancel: "other_step L decode_decide A (w, ts @ t # ts') (w, ts @ ts')"
| decide: "handle_decide_pending L decode_decide A i hs body w = (r, w') \<Longrightarrow>
    other_step L decode_decide A (w, ts) (w', ts)"
| poll: "handle_get_pending L A i hs w = (r, w') \<Longrightarrow> other_step L decode_decide A (w, ts) (w', ts)"
| listing: "handle_list_pendings L A params hs w = (r, w') \<Longrightarrow> other_step L decode_decide A (w, ts) (w', ts)"
| reconcile: "reconcile_server_executions_at L now (w_conn w) = (r, c) \<Longrightarrow>
    other_step L decode_decide A (w, ts) (w\<lparr>w_conn := c\<rparr>, ts)"
| delivered: "other_step L decode_decide A (w, ts) (notification_done w, ts)"

inductive timed_run ::
  "lib \<Rightarrow> (string \<Rightarrow> mcp_request option) \<Rightarrow> (string \<Rightarrow> decide_request option) \<Rightarrow> app_state \<Rightarrow> (string \<Rightarrow> bool) \<Rightarrow>
   instant \<Rightarrow> world \<times> task list \<Rightarrow> nat \<Rightarrow> instant \<Rightarrow> world \<times> task list \<Rightarrow> bool"
  for L decode decode_decide A good t0 s0
where
  begins: "timed_run L decode decode_decide A good t0 s0 0 t0 s0"
| wait: "timed_run L decode decode_decide A good t0 s0 n u s \<Longrightarrow> u \<le> v \<Longrightarrow>
    timed_run L decode decode_decide A good t0 s0 n v s"
| handler: "timed_run L decode decode_decide A good t0 s0 n u (w, ts @ t # ts') \<Longrightarrow> u \<le> re_now E \<Longrightarrow>
    env_ok good E \<Longrightarrow> advance L decode A E t w = (t', w') \<Longrightarrow>
    timed_run L decode decode_decide A good t0 s0 n (re_now E) (w', ts @ t' # ts')"
| others: "timed_run L decode decode_decide A good t0 s0 n u s \<Longrightarrow> other_step L decode_decide A s s' \<Longrightarrow>
    timed_run L decode decode_decide A good t0 s0 n u s'"
| restart: "timed_run L decode decode_decide A good t0 s0 n u (w, ts) \<Longrightarrow>
    timed_run L decode decode_decide A good t0 s0 (Suc n) u (restarted i w, [])"

lemma other_step_sys: "other_step L decode_decide A s s' \<Longrightarrow> sys_step L decode decode_decide A good s s'"
  by (induction rule: other_step.induct) (auto intro: sys_step.intros)

lemma timed_run_runs: "timed_run L decode decode_decide A good t0 s0 n u s \<Longrightarrow> runs L decode decode_decide A good s0 s"
proof (induction rule: timed_run.induct)
  case (others n u s s')
  then show ?case by (auto intro: rtranclp.rtrancl_into_rtrancl other_step_sys)
qed (auto intro: rtranclp.rtrancl_into_rtrancl sys_step.intros)

section \<open>What leaves the limiter alone\<close>

definition still :: "('e, 'a) act \<Rightarrow> bool" where
  "still m \<longleftrightarrow> (\<forall>w. w_buckets (snd (m w)) = w_buckets w \<and> w_sent (snd (m w)) = w_sent w)"

lemma still_simple:
  "still (go_on x)" "still (answer r)" "still panic" "still (fresh_id L)" "still wall_clock"
  "still (spawn_notification n)" "still (on_conn m)" "still (refused A cx status e)" "still (judge L A E cx tool)"
  "still (observe_control L cx body)"
  by (auto simp: still_def go_on_def answer_def panic_def fresh_id_def wall_clock_def spawn_notification_def
      on_conn_def refused_def judge_def observe_control_def Let_def split: prod.split)

lemma still_then: "still m \<Longrightarrow> (\<And>x. still (f x)) \<Longrightarrow> still (then_act m f)"
  by (auto simp: still_def then_act_def split: prod.split sum.split) (metis snd_conv)+

lemma still_cases:
  "still f \<Longrightarrow> still g \<Longrightarrow> still (if b then f else g)"
  "still f \<Longrightarrow> (\<And>x. still (h x)) \<Longrightarrow> still (case o' of None \<Rightarrow> f | Some x \<Rightarrow> h x)"
  "(\<And>e. still (k e)) \<Longrightarrow> (\<And>x. still (l x)) \<Longrightarrow> still (case r of Inl e \<Rightarrow> k e | Inr x \<Rightarrow> l x)"
  "still f \<Longrightarrow> still f2 \<Longrightarrow> (\<And>d. still (f3 d)) \<Longrightarrow> still f4 \<Longrightarrow> still f5 \<Longrightarrow>
   still (case out of Missing \<Rightarrow> f | Started \<Rightarrow> f2 | Completed d \<Rightarrow> f3 d | Uncertain \<Rightarrow> f4 | Conflict \<Rightarrow> f5)"
  by (auto split: option.split sum.split server_execution_outcome.split)

lemma still_notify: "still (now_rfc3339 L)" "still (maybe_fire_webhook A e)" "still (fire_verdict L A cx cl v event intent)"
  unfolding fire_verdict_def now_rfc3339_def maybe_fire_webhook_def
  by (auto intro!: still_then still_simple still_cases)

lemmas still_rules = still_simple still_then still_cases still_notify

lemma still_operators:
  "still (handle_decide_pending L decode A i hs body)" "still (handle_get_pending L A i hs)"
  "still (handle_list_pendings L A params hs)"
  unfolding handle_decide_pending_def handle_get_pending_def handle_list_pendings_def
  by (auto simp: Let_def intro!: still_rules split: option.split)

lemma still_proceed:
  assumes "\<not> sends t" "\<And>cx. t \<noteq> Identified cx"
  shows "still (proceed L decode A E t)"
  using assms
  by (cases t)
     (auto simp: sends_def tool_call_def replay_def approved_resume_def park_def start_def settle_def Let_def still_def [of "\<lambda>w. (Inl _, w)"]
       intro!: still_rules split: option.split)

lemma other_step_still:
  assumes "other_step L decode_decide A (w, ts) (w', ts')"
  shows "w_buckets w' = w_buckets w \<and> w_sent w' = w_sent w \<and>
    (ts' = ts \<or> (\<exists>hs body. ts' = ts @ [Arrived hs body]) \<or> (\<exists>us t us'. ts = us @ t # us' \<and> ts' = us @ us'))"
  using assms
proof (cases rule: other_step.cases)
  case (decide i hs body r)
  with still_operators(1) [of L decode_decide A i hs body] show ?thesis by (simp add: still_def) (metis snd_conv)
next
  case (poll i hs r)
  with still_operators(2) [of L A i hs] show ?thesis by (simp add: still_def) (metis snd_conv)
next
  case (listing params hs r)
  with still_operators(3) [of L A params hs] show ?thesis by (simp add: still_def) (metis snd_conv)
qed (auto simp: notification_done_def)

section \<open>Tickets\<close>

text \<open>A task that has passed the limiter and may still contact the upstream holds a ticket of its agent.\<close>

fun ticket_of :: "task \<Rightarrow> mcp_context option" where
  "ticket_of (Admitted cx) = Some cx"
| "ticket_of (Relaying cx) = Some cx"
| "ticket_of (Replaying cx cl) = Some cx"
| "ticket_of (Assessing cx cl) = Some cx"
| "ticket_of (Judged cx cl v) = Some cx"
| "ticket_of (Resuming cx cl v) = Some cx"
| "ticket_of (Reviewed cx cl v) = Some cx"
| "ticket_of (Beginning cx cl v) = Some cx"
| "ticket_of (Sending cx cl v) = Some cx"
| "ticket_of _ = None"

definition holds :: "string \<Rightarrow> task \<Rightarrow> nat" where
  "holds a t = (case ticket_of t of None \<Rightarrow> 0 | Some cx \<Rightarrow> if canonical_key (cx_identity cx) = a then 1 else 0)"

definition in_flight :: "string \<Rightarrow> task list \<Rightarrow> nat" where
  "in_flight a ts = sum_list (map (holds a) ts)"

definition forwarded :: "string \<Rightarrow> world \<Rightarrow> nat" where
  "forwarded a w = length (filter (\<lambda>x. canonical_key (at_agent x) = a) (w_sent w))"

lemma in_flight_simps [simp]:
  "in_flight a [] = 0" "in_flight a (t # ts) = holds a t + in_flight a ts"
  "in_flight a (ts @ ts') = in_flight a ts + in_flight a ts'"
  by (simp_all add: in_flight_def)

lemma proceed_ticket:
  assumes "proceed L decode A E t w = (Inr t', w')" "\<And>cx. t \<noteq> Identified cx"
  shows "ticket_of t' = None \<or> \<not> sends t \<and> ticket_of t' = ticket_of t"
  using assms by (cases t) (auto simp: act_simps Let_def sends_def split: if_splits)

lemma advance_ticket:
  assumes "advance L decode A E t w = (t', w')" "\<And>cx. t \<noteq> Identified cx"
  shows "w_buckets w' = w_buckets w \<and> forwarded a w' + holds a t' \<le> forwarded a w + holds a t"
proof -
  obtain r where p: "proceed L decode A E t w = (r, w')"
    and t': "t' = (case r of Inl out \<Rightarrow> Answered out | Inr t1 \<Rightarrow> t1)"
    using assms(1) by (auto simp: advance_def split: prod.splits sum.splits)
  have ticket: "ticket_of t' = None \<or> \<not> sends t \<and> ticket_of t' = ticket_of t"
    using proceed_ticket [of L decode A E t w] p assms(2) by (cases r) (auto simp: t')
  show ?thesis
  proof (cases "sends t")
    case False
    with still_proceed [of t L decode A E] assms(2) p have "w_buckets w' = w_buckets w" "w_sent w' = w_sent w"
      by (simp_all add: still_def) (metis snd_conv)+
    with ticket show ?thesis by (auto simp: forwarded_def holds_def)
  next
    case True
    then obtain cx where t: "t = Relaying cx \<or> (\<exists>cl v. t = Sending cx cl v)" by (auto simp: sends_def)
    then have "\<exists>binding v r'. send_upstream L A (re_net E) cx binding v w = (r', w')"
      using sends_result(1) [OF p, of cx] sends_result(2) [OF p, of cx] by blast
    then obtain binding v r' where s: "send_upstream L A (re_net E) cx binding v w = (r', w')" by blast
    then have "w_buckets w' = w_buckets w" by (auto simp: send_upstream_def split: prod.splits)
    moreover have "ticket_of t = Some cx" using t by auto
    ultimately show ?thesis
      using send_upstream_result [OF s] ticket True by (auto simp: forwarded_def holds_def)
  qed
qed

text \<open>The step through the limiter: a ticket costs a token.\<close>

lemma advance_identified:
  assumes "advance L decode A E (Identified cx) w = (t', w')" "st_rate_limiter A = Some cfg"
  shows "w_buckets w' = snd (check_rate cfg (re_now E) (canonical_key (cx_identity cx)) (w_buckets w)) \<and>
    w_sent w' = w_sent w \<and> holds a (Identified cx) = 0 \<and>
    holds a t' = (if fst (check_rate cfg (re_now E) (canonical_key (cx_identity cx)) (w_buckets w)) = Allowed \<and>
       canonical_key (cx_identity cx) = a then 1 else 0)"
  using assms
  by (auto simp: advance_def then_act_def check_limiter_def go_on_def holds_def split: prod.splits rate_limit_outcome.splits)

section \<open>The budget of the upstream\<close>

text \<open>What was forwarded and the tickets are covered by what the limiter gave out.\<close>

definition within_budget ::
  "rate_limit_config \<Rightarrow> string \<Rightarrow> instant \<Rightarrow> rat \<Rightarrow> nat \<Rightarrow> instant \<Rightarrow> world \<times> task list \<Rightarrow> bool"
where
  "within_budget cfg a t0 base n u s \<longleftrightarrow>
     rates.covered cfg a t0 base n u (forwarded a (fst s) + in_flight a (snd s)) (w_buckets (fst s))"

lemma budget_advance:
  assumes "st_rate_limiter A = Some cfg" "within_budget cfg a t0 base n (re_now E) (w, ts @ t # ts')"
    and "advance L decode A E t w = (t', w')"
  shows "within_budget cfg a t0 base n (re_now E) (w', ts @ t' # ts')"
proof (cases "\<exists>cx. t = Identified cx")
  case False
  with advance_ticket [OF assms(3), of a]
  have "w_buckets w' = w_buckets w" "forwarded a w' + holds a t' \<le> forwarded a w + holds a t" by blast+
  with assms(2) show ?thesis
    unfolding within_budget_def by (auto elim!: rates.covered_less)
next
  case True
  then obtain cx where t: "t = Identified cx" by blast
  obtain res m' where c: "check_rate cfg (re_now E) (canonical_key (cx_identity cx)) (w_buckets w) = (res, m')"
    by fastforce
  from rates.covered_check [OF _ c, of a] assms(2) advance_identified [OF assms(3) [unfolded t] assms(1), of a]
  show ?thesis by (fastforce simp: within_budget_def c t forwarded_def ac_simps)
qed

lemma budget_run:
  assumes "st_rate_limiter A = Some cfg" "timed_run L decode decode_decide A good t0 s0 n u s"
    and "within_budget cfg a t0 base 0 t0 s0"
  shows "within_budget cfg a t0 base n u s"
  using assms(2)
proof (induction rule: timed_run.induct)
  case begins
  show ?case by (rule assms(3))
next
  case (wait n u s v)
  then show ?case unfolding within_budget_def by (auto elim: rates.covered_later)
next
  case (handler n u w ts t ts' E t' w')
  have "within_budget cfg a t0 base n (re_now E) (w, ts @ t # ts')"
    using handler.IH handler.hyps(2) unfolding within_budget_def by (rule rates.covered_later)
  then show ?case using handler.hyps(4) by (rule budget_advance [OF assms(1)])
next
  case (others n u s s')
  obtain w ts w' ts' where s: "s = (w, ts)" "s' = (w', ts')" by fastforce
  from other_step_still [of L decode_decide A w ts w' ts'] others.hyps(2)
  have w: "w_buckets w' = w_buckets w" "w_sent w' = w_sent w"
    and ts: "ts' = ts \<or> (\<exists>hs body. ts' = ts @ [Arrived hs body]) \<or> (\<exists>us t us'. ts = us @ t # us' \<and> ts' = us @ us')"
    by (auto simp: s)
  from ts have "in_flight a ts' \<le> in_flight a ts" by (auto simp: holds_def)
  with others.IH w show ?case unfolding within_budget_def s
    by (auto simp: forwarded_def elim!: rates.covered_less)
next
  case (restart n u w ts i)
  have "rates.covered cfg a t0 base (Suc n) u (forwarded a w + in_flight a ts) []"
    using restart.IH unfolding within_budget_def fst_conv snd_conv by (rule rates.covered_reset)
  from rates.covered_less [OF this, of "forwarded a w"] show ?case
    by (simp add: within_budget_def restarted_def forwarded_def)
qed


text \<open>The sample execution is forwarded, within the budget.\<close>

lemma run_task_timed:
  assumes "env_ok good E" "u \<le> re_now E"
  shows "run_task L decode A (\<lambda>_. E) k t w = (t', w') \<Longrightarrow>
    timed_run L decode decode_decide A good t0 s0 n u (w, us @ t # us') \<Longrightarrow>
    timed_run L decode decode_decide A good t0 s0 n (re_now E) (w', us @ t' # us')"
  using assms(2)
proof (induction k arbitrary: t w u)
  case 0
  then show ?case by (auto intro: timed_run.wait)
next
  case (Suc k)
  obtain t1 w1 where a: "advance L decode A E t w = (t1, w1)" by fastforce
  from timed_run.handler [OF Suc.prems(2,3) assms(1) a] Suc.IH [of t1 w1 "re_now E"] Suc.prems(1) a
  show ?case by simp
qed

lemma timed1:
  "\<exists>v w' ts. timed_run hosted_lib decode1 (\<lambda>_. None) hosted_state (\<lambda>_. True) 0 (world0, []) 0 0 (w', ts) \<and>
     w_sent w' = [attempt1 v]"
proof -
  let ?run = "timed_run hosted_lib decode1 (\<lambda>_. None) hosted_state (\<lambda>_. True) 0 (world0, []) 0"
  obtain k t' v w' where r: "run_task hosted_lib decode1 hosted_state (\<lambda>_. env1) k (Arrived headers1 ''call'') world0 = (t', w')"
      "w_sent w' = [attempt1 v]"
    using task1 by blast
  have "?run 0 (world0, [] @ [Arrived headers1 ''call''])"
    by (rule timed_run.others [OF timed_run.begins other_step.arrive])
  from run_task_timed [OF _ _ r(1), of "\<lambda>_. True" 0 "\<lambda>_. None" 0 "(world0, [])" 0 "[]" "[]"] this
  have "?run (re_now env1) (w', [t'])" by (simp add: env1_ok)
  with r(2) show ?thesis by (auto simp: env1_def)
qed


end
