(* ===== verification/Reliable.thy ===== *)
theory Reliable
  imports Exec_Contract
begin

text \<open>
  When the operations of the ledger succeed. On a platform that is \<open>reliable\<close> for the next \<open>n\<close> calls
  (the storage does not fail, the random UUIDs are new and the chain is sound) an operation that makes
  \<open>k\<close> calls returns its result and leaves a platform that is reliable for \<open>n - k\<close> calls.
\<close>

section \<open>The platform\<close>

definition next_id :: "lib \<Rightarrow> conn \<Rightarrow> nat \<Rightarrow> string" where
  "next_id L c k = show_uuid L (fresh c (calls c + k))"

definition reliable :: "lib \<Rightarrow> nat \<Rightarrow> conn \<Rightarrow> bool" where
  "reliable L n c \<longleftrightarrow> codec_ok L \<and> clock_ok c \<and> chain_ok L (t_entries c) \<and>
     (\<forall>k<n. \<not> fault c (calls c + k)) \<and> inj_on (next_id L c) {..<n} \<and>
     next_id L c ` {..<n} \<inter> er_id ` set (t_entries c) = {}"

lemma next_id_tick [simp]: "next_id L (tick c) k = next_id L c (Suc k)"
  by (simp add: next_id_def)

lemma reliable_less: "reliable L n c \<Longrightarrow> m \<le> n \<Longrightarrow> reliable L m c"
proof -
  assume h: "reliable L n c" and m: "m \<le> n"
  then have s: "{..<m} \<subseteq> {..<n}" by auto
  have "inj_on (next_id L c) {..<m}" using h s inj_on_subset unfolding reliable_def by blast
  moreover have "next_id L c ` {..<m} \<inter> er_id ` set (t_entries c) = {}"
    using h image_mono [OF s, of "next_id L c"] unfolding reliable_def by blast
  ultimately show "reliable L m c" using h m by (simp add: reliable_def)
qed

lemma reliable_fault: "reliable L n c \<Longrightarrow> k < n \<Longrightarrow> \<not> fault c (calls c + k)"
  by (simp add: reliable_def)

lemma reliable_now: "reliable L (Suc n) c \<Longrightarrow> \<not> fault c (calls c)"
  using reliable_fault [of L "Suc n" c 0] by simp

lemma reliable_new: "reliable L n c \<Longrightarrow> k < n \<Longrightarrow> next_id L c k \<notin> er_id ` set (t_entries c)"
  by (auto simp: reliable_def)

lemma reliable_tick:
  assumes "reliable L (Suc n) c"
  shows "reliable L n (tick c)"
proof -
  have s: "Suc ` {..<n} \<subseteq> {..<Suc n}" by auto
  have im: "next_id L (tick c) = next_id L c \<circ> Suc" by (simp add: fun_eq_iff)
  from assms have "inj_on (next_id L c) (Suc ` {..<n})"
    unfolding reliable_def using inj_on_subset s by blast
  then have "inj_on (next_id L (tick c)) {..<n}"
    unfolding im by (intro comp_inj_on) simp_all
  moreover from assms s have "next_id L (tick c) ` {..<n} \<inter> er_id ` set (t_entries c) = {}"
    unfolding im image_comp [symmetric] reliable_def by blast
  moreover from assms have "\<forall>k<n. \<not> fault c (Suc (calls c + k))"
    unfolding reliable_def by (metis Suc_mono add_Suc_right)
  moreover from assms have "clock_ok (tick c)" "codec_ok L" "chain_ok L (t_entries c)"
    by (simp_all add: reliable_def clock_ok_def)
  ultimately show ?thesis by (simp add: reliable_def)
qed

text \<open>Only the entries and the environment matter.\<close>

lemma reliable_cong:
  assumes "same_env c c'" "calls c' = calls c" "t_entries c' = t_entries c"
  shows "reliable L n c' \<longleftrightarrow> reliable L n c"
proof -
  have "next_id L c' = next_id L c" using assms by (simp add: fun_eq_iff next_id_def same_env_def)
  with assms show ?thesis by (simp add: reliable_def same_env_def clock_ok_def)
qed

section \<open>The operations\<close>

text \<open>The statements of an append: its tail query, its UUID, its time stamp, its insertion.\<close>

lemma append_on_connection_calls:
  assumes "append_on_connection L req c = (Inr e, c')"
  shows "calls c' = calls c + 4" "er_id (entry_to_row L e) = next_id L c 1"
proof -
  obtain s h where "append_on_connection L req c =
      (let e = new_entry L req (fresh c (calls c + 1)) (clock c (calls c + 2)) s h
       in bind_db (insert_entry (entry_to_row L e)) (\<lambda>_. return_db e) (tick (tick (tick c))))"
    by (rule append_on_connection_steps)
  with assms show "calls c' = calls c + 4" "er_id (entry_to_row L e) = next_id L c 1"
    by (auto simp: Let_def bind_db_Inr return_db_def insert_entry_Inr entry_to_row_def new_entry_def next_id_def)
qed

lemma append_on_connection_result:
  assumes "reliable L (4 + n) c"
  shows "\<exists>e c'. append_on_connection L req c = (Inr e, c')"
proof (cases "append_on_connection L req c")
  case (Pair r c')
  let ?s = "int (length (t_entries c)) + 1"
  let ?e = "new_entry L req (fresh c (calls c + 1)) (clock c (calls c + 2)) ?s
      (chain_head GENESIS_PREV_HASH (t_entries c))"
  have ok: "chain_ok L (t_entries c)" "\<not> fault c (calls c)" "\<not> fault c (calls c + 3)"
    using assms reliable_fault [OF assms, of 0] reliable_fault [OF assms, of 3] by (simp_all add: reliable_def)
  have new: "next_id L c 1 \<notin> er_id ` set (t_entries c)" by (rule reliable_new [OF assms]) simp
  have "append_on_connection L req c =
      bind_db (insert_entry (entry_to_row L ?e)) (\<lambda>_. return_db ?e) (tick (tick (tick c)))"
    using ok
    by (auto simp: append_on_connection_def select_def sql_def tail_query_chain
        bind_db_def [of new_v4] bind_db_def [of utc_now] new_v4_def utc_now_def chain_head_def Let_def)
  moreover have "?s \<notin> er_seq ` set (t_entries c)"
  proof -
    have "map er_seq (t_entries c) = map (\<lambda>i. 1 + int i) [0..<length (t_entries c)]"
      using ok(1) unfolding chain_ok_def by (rule chain_from_seqs)
    then have "er_seq ` set (t_entries c) = (\<lambda>i. 1 + int i) ` {0..<length (t_entries c)}"
      by (metis image_set set_upt)
    then show ?thesis by auto
  qed
  moreover have "er_id (entry_to_row L ?e) = next_id L c 1" "er_seq (entry_to_row L ?e) = ?s"
    by (simp_all add: entry_to_row_def new_entry_def next_id_def)
  ultimately have a: "append_on_connection L req c =
      bind_db (insert_entry (entry_to_row L ?e)) (\<lambda>_. return_db ?e) (tick (tick (tick c)))"
    and "\<forall>r \<in> set (t_entries c). er_id r \<noteq> er_id (entry_to_row L ?e) \<and> er_seq r \<noteq> er_seq (entry_to_row L ?e)"
    using new by (simp, metis imageI)
  then have "insert_entry (entry_to_row L ?e) (tick (tick (tick c))) =
      (Inr (), (tick (tick (tick (tick c))))\<lparr>t_entries := t_entries c @ [entry_to_row L ?e]\<rparr>)"
    using ok(3) by (intro iffD2 [OF insert_entry_Inr]) (simp add: numeral_3_eq_3)
  with a have "append_on_connection L req c = (Inr ?e,
      (tick (tick (tick (tick c))))\<lparr>t_entries := t_entries c @ [entry_to_row L ?e]\<rparr>)"
    by (simp add: bind_db_def return_db_def)
  then show ?thesis by blast
qed

lemma append_on_connection_reliable:
  assumes "reliable L (4 + n) c" "storable_request req"
  obtains e c' where "append_on_connection L req c = (Inr e, c')" "reliable L n c'" "calls c' = calls c + 4"
    "same_env c c'" "other_tables c c'"
proof -
  obtain e c' where a: "append_on_connection L req c = (Inr e, c')"
    using append_on_connection_result [OF assms(1)] by blast
  note env = append_on_connection_Inr(1) [OF a] and calls = append_on_connection_calls [OF a]
  have h: "codec_ok L" "clock_ok c" "chain_ok L (t_entries c)" "inj_on (next_id L c) {..<4 + n}"
      "next_id L c ` {..<4 + n} \<inter> er_id ` set (t_entries c) = {}" "\<And>k. k < 4 + n \<Longrightarrow> \<not> fault c (calls c + k)"
    using assms(1) by (auto simp: reliable_def)
  have ids: "next_id L c' k = next_id L c (4 + k)" for k
    using env calls(1) by (simp add: next_id_def same_env_def add.assoc)
  have "chain_ok L (t_entries c')"
    by (rule append_on_connection_chain [OF h(1,2) assms(2) h(3) a])
  moreover have "inj_on (next_id L c') {..<n}"
  proof (rule inj_onI)
    fix i j assume "i \<in> {..<n}" "j \<in> {..<n}" "next_id L c' i = next_id L c' j"
    then show "i = j" using inj_onD [OF h(4), of "4 + i" "4 + j"] by (simp add: ids)
  qed
  moreover have "next_id L c' ` {..<n} \<inter> er_id ` set (t_entries c') = {}"
  proof -
    have "next_id L c (4 + k) \<noteq> next_id L c 1" if "k < n" for k
      using inj_onD [OF h(4), of "4 + k" 1] that by auto
    moreover have "next_id L c (4 + k) \<notin> er_id ` set (t_entries c)" if "k < n" for k
      using h(5) that by (meson disjoint_iff imageI lessThan_iff nat_add_left_cancel_less)
    ultimately show ?thesis
      using append_on_connection_Inr(3) [OF a] calls(2) by (fastforce simp: ids)
  qed
  moreover have "\<not> fault c' (calls c' + k)" if "k < n" for k
    using h(6) [of "4 + k"] that env calls(1) by (simp add: same_env_def add.assoc)
  moreover have "clock_ok c'" using env h(2) same_env_clock_ok by blast
  ultimately have "reliable L n c'" using h(1) by (simp add: reliable_def)
  then show ?thesis using that a env calls(1) append_on_connection_Inr(2) [OF a] by blast
qed

lemma append_ledger_reliable:
  assumes "reliable L (5 + n) c" "storable_request req"
  obtains e c' where "append_ledger L req c = (Inr e, c')" "reliable L n c'" "same_env c c'" "other_tables c c'"
proof -
  have h: "reliable L (Suc (4 + n)) c" using assms(1) by simp
  obtain e c' where "append_on_connection L req (tick c) = (Inr e, c')" "reliable L n c'"
      "same_env (tick c) c'" "other_tables (tick c) c'"
    using append_on_connection_reliable [OF reliable_tick [OF h] assms(2)] by metis
  with that reliable_now [OF h] show ?thesis
    by (auto simp: append_ledger_def with_connection_def with_connection_result_def same_env_def other_tables_def)
qed

lemma inspect_reliable:
  assumes "reliable L (2 + n) c"
  shows "inspect_server_execution L b c = (inspect_row b (row_of_binding L b c), tick (tick c))"
    and "reliable L n (tick (tick c))"
proof -
  have h: "reliable L (Suc (Suc n)) c" using assms by simp
  note h' = reliable_tick [OF h]
  show "inspect_server_execution L b c = (inspect_row b (row_of_binding L b c), tick (tick c))"
    using reliable_now [OF h] reliable_now [OF h']
    by (simp add: inspect_server_execution_def with_connection_def with_connection_result_def
        inspect_execution_result)
  show "reliable L n (tick (tick c))" by (rule reliable_tick [OF h'])
qed

lemma get_pending_reliable:
  assumes "reliable L (2 + n) c"
  shows "get_pending L i c =
      (row_option L (find (\<lambda>r. pr_correlation_id r = i) (t_pendings c)), tick (tick c))"
proof -
  have h: "reliable L (Suc (Suc n)) c" using assms by simp
  show ?thesis
    using reliable_now [OF h] reliable_now [OF reliable_tick [OF h]]
    by (simp add: get_pending_def with_connection_def with_connection_result_def select_def sql_def bind_db_def
        lift_result_def)
qed

text \<open>An execution is new when no row of the tables claims one of its identities.\<close>

definition new_execution :: "lib \<Rightarrow> server_execution_binding \<Rightarrow> conn \<Rightarrow> bool" where
  "new_execution L b c \<longleftrightarrow> row_of_binding L b c = None \<and>
     (\<forall>r \<in> set (t_executions c). xr_execution_id r \<noteq> show_uuid L (execution_id L b)) \<and>
     (\<forall>r \<in> set (t_outbox c). ob_execution_id r \<noteq> show_uuid L (execution_id L b) \<and>
        ob_event_id r \<noteq> show_uuid L (outbox_event_id L (show_uuid L (execution_id L b))))"

text \<open>A transaction whose body commits, and whose \<open>BEGIN\<close> and \<open>COMMIT\<close> succeed.\<close>

lemma transaction_commits:
  assumes "body (tick c) = (Inr (Commit x), c2)" "\<not> fault c (calls c)" "\<not> fault c2 (calls c2)"
  shows "transaction body c = (Inr x, tick c2)"
  using assms by (simp add: transaction_def sql_def return_db_def)

definition started :: "lib \<Rightarrow> server_execution_binding \<Rightarrow> conn \<Rightarrow> conn \<Rightarrow> bool" where
  "started L b c c' \<longleftrightarrow> t_outbox c' = t_outbox c \<and> t_pendings c' = t_pendings c \<and>
     (\<exists>now. t_executions c' = t_executions c @ [intent_row L b (instance_id c) now])"

lemma begin_reliable:
  assumes "reliable L (10 + n) c" "new_execution L b c"
  obtains c' where "begin_server_execution L b c = (Inr Started, c')" "reliable L n c'" "started L b c c'"
proof -
  define c2 where "c2 = tick (tick c)"
  define c4 where "c4 = tick (tick c2)"
  have h: "reliable L (Suc (Suc (Suc (Suc (Suc (4 + Suc n)))))) c" using assms(1) by (simp add: numeral_eq_Suc)
  note h1 = reliable_tick [OF h] and h2 = reliable_tick [OF reliable_tick [OF h]]
  note h3 = reliable_tick [OF h2] and h4 = reliable_tick [OF reliable_tick [OF h2]]
  define row where "row = intent_row L b (instance_id c) (clock c (calls c + 3))"
  define c5 where "c5 = (tick c4)\<lparr>t_executions := t_executions c @ [row]\<rparr>"
  have ins: "insert_execution row c4 = (Inr (), c5)"
    using assms(2) reliable_now [OF h4]
    by (auto simp: insert_execution_def sql_def c5_def c4_def c2_def row_def new_execution_def row_of_binding_def
        find_None_iff has_identity_def intent_row_def)
  have "reliable L (4 + Suc n) c5 \<longleftrightarrow> reliable L (4 + Suc n) (tick c4)"
    by (rule reliable_cong) (simp_all add: c5_def same_env_def)
  then have h5: "reliable L (4 + Suc n) c5"
    using reliable_tick [OF h4] by (simp add: c4_def c2_def)
  obtain e c6 where app: "append_on_connection L (intent_log L b) c5 = (Inr e, c6)" "reliable L (Suc n) c6"
      "same_env c5 c6" "other_tables c5 c6"
    using append_on_connection_reliable [OF h5 intent_storable] by metis
  have none: "inspect_row b (row_of_binding L b c2) = Inr Missing"
    using assms(2) by (simp add: c2_def new_execution_def inspect_row_def)
  have now: "clock c (calls c + 3) = clock (tick c2) (calls (tick c2))"
    by (simp add: c2_def numeral_3_eq_3)
  have "begin_transaction L b (instance_id c) c2 = (Inr (Commit Started), c6)"
    using reliable_now [OF h2] none ins app(1) unfolding row_def now
    by (simp add: begin_transaction_def bind_db_def inspect_execution_result utc_now_def return_db_def c4_def
        c2_def [symmetric])
  then have "transaction (begin_transaction L b (instance_id c)) (tick c) = (Inr Started, tick c6)"
    using reliable_now [OF h1] reliable_now [OF app(2)] by (intro transaction_commits) (simp_all add: c2_def)
  then have "begin_server_execution L b c = (Inr Started, tick c6)"
    using reliable_now [OF h] by (simp add: begin_server_execution_def with_connection_def with_connection_result_def)
  moreover have "started L b c (tick c6)"
    using app(4) by (auto simp: started_def other_tables_def c5_def c4_def c2_def row_def)
  ultimately show ?thesis using that reliable_tick [OF app(2)] by blast
qed

text \<open>The one row of an execution that was started on its own waits for its result.\<close>

lemma started_awaits:
  assumes "new_execution L b c" "started L b c c'"
  shows "\<exists>now. filter (awaits_result L b) (t_executions c') = [intent_row L b (instance_id c) now]"
    and "\<exists>now. row_of_binding L b c' = Some (intent_row L b (instance_id c) now)"
proof -
  obtain now where rows: "t_executions c' = t_executions c @ [intent_row L b (instance_id c) now]"
    using assms(2) by (auto simp: started_def)
  have "\<not> has_identity L b r" if "r \<in> set (t_executions c)" for r
    using assms(1) that by (auto simp: new_execution_def row_of_binding_def find_None_iff)
  then have none: "find (has_identity L b) (t_executions c) = None" "filter (awaits_result L b) (t_executions c) = []"
    by (auto simp: find_None_iff filter_empty_conv awaits_result_def)
  have "awaits_result L b (intent_row L b (instance_id c) now)"
    by (simp add: awaits_result_def has_identity_def intent_row_def)
  then show "\<exists>now. filter (awaits_result L b) (t_executions c') = [intent_row L b (instance_id c) now]"
      "\<exists>now. row_of_binding L b c' = Some (intent_row L b (instance_id c) now)"
    using none by (auto simp: rows row_of_binding_def find_append awaits_result_def)
qed

lemma complete_reliable:
  assumes "reliable L (10 + n) c" "new_execution L b c0" "started L b c0 c" "status < 65536" "retainable L body"
  obtains c' where "complete_server_execution L b status ct body c = (Inr (completed_record L b status ct body), c')"
    "reliable L n c'" "inspect_row b (row_of_binding L b c') = Inr (Completed (completed_record L b status ct body))"
proof -
  define c3 where "c3 = tick (tick (tick c))"
  have h: "reliable L (Suc (Suc (Suc (Suc (Suc (4 + Suc n)))))) c" using assms(1) by (simp add: numeral_eq_Suc)
  note h1 = reliable_tick [OF h]
  note h2 = reliable_tick [OF h1]
  note h3 = reliable_tick [OF h2] note h4 = reliable_tick [OF h3]
  define now where "now = show_time L (clock c (calls c))"
  let ?rec = "receipt L b status body" and ?ex = "show_uuid L (execution_id L b)"
  let ?f = "completed_row status ct body (result_digest L body) (print_json L ?rec) now"
  let ?g = "\<lambda>r. if awaits_result L b r then ?f r else r"
  let ?ob = "outbox_entry L (outbox_event_id L ?ex) ?ex (print_json L ?rec) now"
  define c4 where "c4 = (tick c3)\<lparr>t_executions := map ?g (t_executions c)\<rparr>"
  define c5 where "c5 = (tick c4)\<lparr>t_outbox := t_outbox c @ [?ob]\<rparr>"
  obtain t where rows: "filter (awaits_result L b) (t_executions c) = [intent_row L b (instance_id c0) t]"
    using started_awaits(1) [OF assms(2,3)] by blast
  have "update_executions (awaits_result L b) ?f c3 = (Inr (length (filter (awaits_result L b) (t_executions c3))), c4)"
    using reliable_now [OF h3] by (intro iffD2 [OF update_executions_Inr]) (simp add: c4_def c3_def)
  then have upd: "update_executions (awaits_result L b) ?f c3 = (Inr 1, c4)"
    using rows by (simp add: c3_def)
  have e4: "reliable L k c4 \<longleftrightarrow> reliable L k (tick c3)" for k
    by (rule reliable_cong) (simp_all add: c4_def same_env_def)
  then have h4': "reliable L (Suc (4 + Suc n)) c4" using h4 by (simp add: c3_def)
  have e5: "reliable L k c5 \<longleftrightarrow> reliable L k (tick c4)" for k
    by (rule reliable_cong) (simp_all add: c5_def same_env_def)
  have h5: "reliable L (4 + Suc n) c5" using reliable_tick [OF h4'] by (simp add: e5)
  have "t_outbox c = t_outbox c0" using assms(3) by (simp add: started_def)
  then have out: "insert_outbox ?ob c4 = (Inr (), c5)"
    using assms(2) reliable_now [OF h4'] unfolding insert_outbox_Inr
    by (auto simp: c4_def c3_def c5_def new_execution_def outbox_entry_def)
  obtain e c6 where app: "append_on_connection L (completion_log b ?rec) c5 = (Inr e, c6)" "reliable L (Suc n) c6"
      "same_env c5 c6" "other_tables c5 c6"
    using append_on_connection_reliable [OF h5 completion_storable [OF assms(5,4)]] by metis
  have "complete_transaction L b status ct body now c3 = (Inr (Commit (completed_record L b status ct body)), c6)"
    using upd out app(1) by (simp add: complete_transaction_def Let_def bind_db_def return_db_def completed_record_def)
  then have "transaction (complete_transaction L b status ct body now) (tick (tick c)) =
      (Inr (completed_record L b status ct body), tick c6)"
    using reliable_now [OF h2] reliable_now [OF app(2)] by (intro transaction_commits) (simp_all add: c3_def)
  then have done': "complete_server_execution L b status ct body c = (Inr (completed_record L b status ct body), tick c6)"
    using reliable_now [OF h1]
    by (simp add: complete_server_execution_def with_connection_def with_connection_result_def bind_db_def utc_now_def
        now_def)
  obtain t' where r: "row_of_binding L b c = Some (intent_row L b (instance_id c0) t')"
    using started_awaits(2) [OF assms(2,3)] by blast
  have inv: "has_identity L b (?g r) = has_identity L b r" for r
    by (simp add: has_identity_def completed_row_def)
  have "t_executions (tick c6) = map ?g (t_executions c)"
    using app(4) by (simp add: other_tables_def c5_def c4_def)
  then have "row_of_binding L b (tick c6) = map_option ?g (row_of_binding L b c)"
    unfolding row_of_binding_def by (simp add: find_map_same inv)
  also have "\<dots> = Some (?f (intent_row L b (instance_id c0) t'))"
    by (simp add: r awaits_result_def has_identity_def intent_row_def)
  finally have "inspect_row b (row_of_binding L b (tick c6)) = Inr (Completed (completed_record L b status ct body))"
    using completed_row_of [OF assms(4), of "intent_row L b (instance_id c0) t'" L b ct body now]
    by (simp add: inspect_row_def) (simp add: completed_row_def intent_row_def)
  with that done' reliable_tick [OF app(2)] show ?thesis by blast
qed

end
