(* ===== verification/Progress.thy ===== *)
theory Progress
  imports Effects Reliable
begin

text \<open>
  The counterpart of the safety of the effects: a server execution that the proxy accepts, the verdict
  permits and the rate allows reaches the upstream, and its caller gets the upstream's response, once
  from the upstream and on every repetition from the ledger. Each step is a lemma of the form: on a
  reliable platform this stage leads to that one.
\<close>

section \<open>A request that is served\<close>

text \<open>What the intake and the checks of the tool call require of the request.\<close>

definition accepts_execution ::
  "lib \<Rightarrow> (string \<Rightarrow> mcp_request option) \<Rightarrow> app_state \<Rightarrow> headers \<Rightarrow> string \<Rightarrow> mcp_context \<Rightarrow>
   server_execution_binding \<Rightarrow> bool"
where
  "accepts_execution L decode A hs body cx b \<longleftrightarrow>
     cx_body cx = body \<and> cx_headers cx = hs \<and> cx_decision cx = None \<and>
     (\<exists>i. parse_server_execution_request L hs = Inr (Some i) \<and> cx_server_execution cx = Some i \<and>
        cx_correlation_id cx = show_uuid L i) \<and>
     parse_decision_request L hs = Inr None \<and>
     decode body = Some (cx_request cx) \<and> mr_method (cx_request cx) \<noteq> [] \<and>
     \<not> is_mcp_control_method (mr_method (cx_request cx)) \<and>
     is_ok (validate_request L (st_upstream_adapter A) body) \<and> is_ok (validate_callback_url L A hs) \<and>
     st_agents A \<noteq> None \<and> resolve_agent A hs = Some (cx_identity cx) \<and>
     server_binding L cx (tool_type_of (cx_request cx)) = Some (Some b)"

definition within_rate :: "app_state \<Rightarrow> instant \<Rightarrow> mcp_context \<Rightarrow> world \<Rightarrow> bool" where
  "within_rate A now cx w \<longleftrightarrow> fst (check_limiter A now cx w) = Inr Allowed"

text \<open>The posture only observes, or the verdict is green, or it asks for a review and a human approved.\<close>

definition permitted :: "lib \<Rightarrow> app_state \<Rightarrow> conn \<Rightarrow> mcp_context \<Rightarrow> verdict \<Rightarrow> bool" where
  "permitted L A c cx v \<longleftrightarrow> st_mode A = Observe \<or> vd_tier v = Green \<or>
     vd_tier v = Yellow \<and> pendings_ok L (t_pendings c) \<and> approved c (cx_correlation_id cx)"

definition call_of :: "lib \<Rightarrow> app_state \<Rightarrow> mcp_context \<Rightarrow> server_execution_binding \<Rightarrow> call" where
  "call_of L A cx b =
     \<lparr>cl_callback_url = (case validate_callback_url L A (cx_headers cx) of Inl e \<Rightarrow> None | Inr url \<Rightarrow> url),
      cl_tool_type = tool_type_of (cx_request cx), cl_binding = Some b\<rparr>"

lemma accepted_intake:
  assumes "accepts_execution L decode A hs body cx b"
  shows "intake L decode A hs body fallback = Inr cx"
proof -
  from assms obtain i x where s: "select_contracts L A hs fallback = Inr (Some i, None, cx_correlation_id cx)"
      "cx_server_execution cx = Some i" "cx_decision cx = None" "validate_request L (st_upstream_adapter A) body = Inr x"
    by (auto simp: accepts_execution_def select_contracts_def is_ok_iff)
  moreover have "check_request L decode A (cx_correlation_id cx) True body = Inr (cx_request cx)"
    using assms s(4) by (simp add: accepts_execution_def check_request_def)
  ultimately show ?thesis
    using assms by (cases cx) (simp add: intake_def accepts_execution_def)
qed

section \<open>The stages\<close>

lemma run_at:
  "n = Suc m \<Longrightarrow> advance L decode A (E m) t w = (t1, w1) \<Longrightarrow>
   run_task L decode A E n t w = run_task L decode A E m t1 w1"
  by simp

lemma arrived_step:
  assumes "accepts_execution L decode A hs body cx b"
  shows "advance L decode A E (Arrived hs body) w = (Identified cx, w\<lparr>w_conn := tick (w_conn w)\<rparr>)"
  using accepted_intake [OF assms] by (simp add: advance_def then_act_def fresh_id_def go_on_def)

lemma identified_step:
  assumes "within_rate A (re_now E) cx w"
  shows "\<exists>bs. advance L decode A E (Identified cx) w = (Admitted cx, w\<lparr>w_buckets := bs\<rparr>)"
  using assms
  by (cases "st_rate_limiter A")
     (auto simp: advance_def within_rate_def check_limiter_def then_act_def go_on_def split: prod.splits intro: exI [of _ "w_buckets w"])

lemma admitted_step:
  assumes "accepts_execution L decode A hs body cx b"
  shows "advance L decode A E (Admitted cx) w = (Replaying cx (call_of L A cx b), w)"
  using assms
  by (auto simp: advance_def accepts_execution_def then_act_def tool_call_def Let_def go_on_def call_of_def is_ok_iff)

lemma replaying_step:
  assumes "reliable L (2 + n) (w_conn w)" "row_of_binding L b (w_conn w) = None"
  shows "advance L decode A E (Replaying cx (call_of L A cx b)) w =
      (Assessing cx (call_of L A cx b), w\<lparr>w_conn := tick (tick (w_conn w))\<rparr>)"
  using assms(2) inspect_reliable(1) [OF assms(1), of b]
  by (simp add: advance_def then_act_def call_of_def replay_def on_conn_def go_on_def inspect_row_def)

lemma repeated_step:
  assumes "reliable L (2 + n) (w_conn w)" "inspect_row b (row_of_binding L b (w_conn w)) = Inr (Completed completed)"
  shows "advance L decode A E (Replaying cx (call_of L A cx b)) w =
      (Answered (Respond (server_execution_response L completed (cx_correlation_id cx) (st_mode A) True False False)),
       w\<lparr>w_conn := tick (tick (w_conn w))\<rparr>)"
  using assms(2) inspect_reliable(1) [OF assms(1), of b]
  by (simp add: advance_def then_act_def call_of_def replay_def on_conn_def answer_def)

lemma assessing_step:
  assumes "fst (judge L A E cx (tool_type_of (cx_request cx)) w) = Inr v"
  shows "\<exists>m. advance L decode A E (Assessing cx (call_of L A cx b)) w =
    (Judged cx (call_of L A cx b) v, w\<lparr>w_velocity := m\<rparr>)"
  using assms
  by (auto simp: advance_def then_act_def call_of_def judge_def Let_def go_on_def simp del: from_utf8_lossy.simps
      split: prod.splits)

lemma judged_step:
  assumes "reliable L (5 + n) (w_conn w)" "cx_server_execution cx \<noteq> None"
  shows "\<exists>c'. advance L decode A E (Judged cx cl v) w =
      ((if vd_tier v = Yellow \<and> st_mode A = Enforce then Resuming cx cl v else Reviewed cx cl v), w\<lparr>w_conn := c'\<rparr>) \<and>
    reliable L n c' \<and> other_tables (w_conn w) c'"
proof -
  obtain e c' where "append_ledger L (verdict_log cx v) (w_conn w) = (Inr e, c')" "reliable L n c'"
      "other_tables (w_conn w) c'"
    using append_ledger_reliable [OF assms(1) verdict_log_storable] by metis
  then show ?thesis
    using assms(2) by (auto simp: advance_def then_act_def on_conn_def go_on_def)
qed

lemma resuming_step:
  assumes "codec_ok L" "reliable L (2 + n) (w_conn w)" "pendings_ok L (t_pendings (w_conn w))"
    and "approved (w_conn w) (cx_correlation_id cx)"
  shows "advance L decode A E (Resuming cx cl v) w = (Reviewed cx cl v, w\<lparr>w_conn := tick (tick (w_conn w))\<rparr>)"
proof -
  from assms(4) obtain r where r: "r \<in> set (t_pendings (w_conn w))" "pr_correlation_id r = cx_correlation_id cx"
      "pr_decision r = Some ''allow''" by (auto simp: approved_def)
  have "find (\<lambda>r. pr_correlation_id r = cx_correlation_id cx) (t_pendings (w_conn w)) = Some r"
    using r assms(3) by (intro find_distinct_key) (auto simp: pendings_ok_def)
  moreover obtain p where "row_to_pending L r = Inr p"
    using pending_row_decodes [OF assms(1)] r(1) assms(3) by (auto simp: pendings_ok_def)
  moreover from this have "pd_decision p = Some ''allow''" using row_to_pending_sel r(3) by metis
  ultimately show ?thesis
    using get_pending_reliable [OF assms(2)]
    by (simp add: advance_def then_act_def approved_resume_def on_conn_def go_on_def row_option_def)
qed

lemma reviewed_step:
  assumes "st_mode A = Observe \<or> vd_tier v \<noteq> Red" "cx_decision cx = None"
  shows "advance L decode A E (Reviewed cx cl v) w = (Beginning cx cl v, w)"
  using assms by (auto simp: advance_def go_on_def)

lemma beginning_step:
  assumes "reliable L (10 + n) (w_conn w)" "new_execution L b (w_conn w)"
  shows "\<exists>c'. advance L decode A E (Beginning cx (call_of L A cx b) v) w =
      (Sending cx (call_of L A cx b) v, w\<lparr>w_conn := c'\<rparr>) \<and> reliable L n c' \<and> started L b (w_conn w) c'"
proof -
  obtain c' where "begin_server_execution L b (w_conn w) = (Inr Started, c')" "reliable L n c'"
      "started L b (w_conn w) c'"
    using begin_reliable [OF assms] by blast
  then show ?thesis by (auto simp: advance_def then_act_def start_def on_conn_def go_on_def call_of_def)
qed

definition attempt_of :: "mcp_context \<Rightarrow> server_execution_binding \<Rightarrow> verdict \<Rightarrow> upstream_request \<Rightarrow> attempt" where
  "attempt_of cx b v request = \<lparr>at_request = request, at_agent = cx_identity cx,
     at_method = mr_method (cx_request cx), at_execution = Some b, at_verdict = Some v\<rparr>"

lemma sending_step:
  assumes "forward L (st_upstream_adapter A) (re_net E) (st_upstream_url A) (st_upstream_api_key A) (cx_body cx) =
    (Some request, Inr upstream)"
  shows "advance L decode A E (Sending cx (call_of L A cx b) v) w =
    (Settling cx (call_of L A cx b) v upstream, w\<lparr>w_sent := w_sent w @ [attempt_of cx b v request]\<rparr>)"
  using assms by (simp add: advance_def then_act_def send_upstream_def go_on_def call_of_def attempt_of_def)

lemma fire_verdict_result:
  "\<exists>w'. fire_verdict L A cx cl v event intent w = (Inr (), w') \<and> w_conn w' = tick (w_conn w) \<and> w_sent w' = w_sent w"
  by (auto simp: fire_verdict_def now_rfc3339_def then_act_def wall_clock_def go_on_def maybe_fire_webhook_def
      spawn_notification_def split: option.split)

lemma settling_step:
  assumes "reliable L (11 + n) (w_conn w)" "new_execution L b c0" "started L b c0 (w_conn w)"
    and "fr_status upstream < 65536" "retainable L (fr_body upstream)"
    and completed: "completed = completed_record L b (fr_status upstream) (fr_content_type upstream) (fr_body upstream)"
  shows "\<exists>w'. advance L decode A E (Settling cx (call_of L A cx b) v upstream) w =
      (Answered (Respond (server_execution_response L completed (cx_correlation_id cx) (st_mode A) False
         (vd_tier v = Red) (vd_tier v = Yellow))), w') \<and>
    reliable L n (w_conn w') \<and> w_sent w' = w_sent w \<and>
    inspect_row b (row_of_binding L b (w_conn w')) = Inr (Completed completed)"
proof -
  have "reliable L (10 + Suc n) (w_conn w)" using assms(1) by (simp add: numeral_eq_Suc)
  from complete_reliable [OF this assms(2-5)] obtain c' where c':
    "complete_server_execution L b (fr_status upstream) (fr_content_type upstream) (fr_body upstream) (w_conn w) =
       (Inr completed, c')"
    "reliable L (Suc n) c'" "inspect_row b (row_of_binding L b c') = Inr (Completed completed)"
    unfolding completed by blast
  let ?event = "if vd_tier v = Red then ''would_deny'' else if vd_tier v = Yellow then ''would_park'' else ''allow''"
  obtain w' where w': "fire_verdict L A cx (call_of L A cx b) v ?event (hv_intent_category (vd_brain v)) (w\<lparr>w_conn := c'\<rparr>) =
      (Inr (), w')" "w_conn w' = tick c'" "w_sent w' = w_sent w"
    using fire_verdict_result [of L A cx "call_of L A cx b" v ?event _ "w\<lparr>w_conn := c'\<rparr>"] by auto
  have "cl_binding (call_of L A cx b) = Some b" by (simp add: call_of_def)
  with c'(1) w'(1) have "settle L A cx (call_of L A cx b) v upstream w =
      answer (server_execution_response L completed (cx_correlation_id cx) (st_mode A) False
        (vd_tier v = Red) (vd_tier v = Yellow)) w'"
    by (simp add: settle_def Let_def then_act_def on_conn_def)
  then have "advance L decode A E (Settling cx (call_of L A cx b) v upstream) w =
      (Answered (Respond (server_execution_response L completed (cx_correlation_id cx) (st_mode A) False
         (vd_tier v = Red) (vd_tier v = Yellow))), w')"
    by (simp add: advance_def then_act_def answer_def)
  with c' w'(2,3) reliable_tick [OF c'(2)] show ?thesis by auto
qed

section \<open>The whole request\<close>

lemma judge_world: "w_velocity w' = w_velocity w \<Longrightarrow> fst (judge L A E cx tool w') = fst (judge L A E cx tool w)"
  by (simp add: judge_def Let_def del: from_utf8_lossy.simps split: prod.splits)

lemma within_rate_world: "w_buckets w' = w_buckets w \<Longrightarrow> within_rate A now cx w' \<longleftrightarrow> within_rate A now cx w"
  by (simp add: within_rate_def check_limiter_def split: option.splits prod.splits)

lemma run_admitted:
  assumes "accepts_execution L decode A hs body cx b" "within_rate A (re_now (E 9)) cx w"
  shows "\<exists>bs. run_task L decode A E 11 (Arrived hs body) w =
    run_task L decode A E 8 (Replaying cx (call_of L A cx b)) (w\<lparr>w_conn := tick (w_conn w), w_buckets := bs\<rparr>)"
proof -
  let ?w1 = "w\<lparr>w_conn := tick (w_conn w)\<rparr>"
  have "within_rate A (re_now (E 9)) cx ?w1" using assms(2) within_rate_world [of ?w1 w] by simp
  then obtain bs where "advance L decode A (E 9) (Identified cx) ?w1 = (Admitted cx, ?w1\<lparr>w_buckets := bs\<rparr>)"
    using identified_step by blast
  note second = this
  have "run_task L decode A E 11 (Arrived hs body) w = run_task L decode A E 10 (Identified cx) ?w1"
    by (rule run_at) (simp_all add: arrived_step [OF assms(1)])
  also have "\<dots> = run_task L decode A E 9 (Admitted cx) (?w1\<lparr>w_buckets := bs\<rparr>)"
    by (rule run_at) (simp_all add: second)
  also have "\<dots> = run_task L decode A E 8 (Replaying cx (call_of L A cx b)) (?w1\<lparr>w_buckets := bs\<rparr>)"
    by (rule run_at) (simp_all add: admitted_step [OF assms(1)])
  finally show ?thesis by auto
qed

lemma run_judged:
  assumes "reliable L (7 + n) (w_conn w)" "row_of_binding L b (w_conn w) = None" "cx_server_execution cx \<noteq> None"
    and "fst (judge L A (E 6) cx (tool_type_of (cx_request cx)) w) = Inr v"
  shows "\<exists>m c'. run_task L decode A E 8 (Replaying cx (call_of L A cx b)) w =
      run_task L decode A E 5 (if vd_tier v = Yellow \<and> st_mode A = Enforce then Resuming cx (call_of L A cx b) v
        else Reviewed cx (call_of L A cx b) v) (w\<lparr>w_velocity := m, w_conn := c'\<rparr>) \<and>
    reliable L n c' \<and> other_tables (w_conn w) c'"
proof -
  let ?cl = "call_of L A cx b" and ?w1 = "w\<lparr>w_conn := tick (tick (w_conn w))\<rparr>"
  have h: "reliable L (2 + (5 + n)) (w_conn w)" using assms(1) by simp
  have "fst (judge L A (E 6) cx (tool_type_of (cx_request cx)) ?w1) = Inr v"
    using assms(4) judge_world [of ?w1 w] by simp
  then obtain m where m: "advance L decode A (E 6) (Assessing cx ?cl) ?w1 = (Judged cx ?cl v, ?w1\<lparr>w_velocity := m\<rparr>)"
    using assessing_step by blast
  let ?w2 = "?w1\<lparr>w_velocity := m\<rparr>"
  have "reliable L (5 + n) (w_conn ?w2)" using inspect_reliable(2) [OF h] by simp
  from judged_step [OF this assms(3), of decode A "E 5" ?cl v] obtain c' where c':
    "advance L decode A (E 5) (Judged cx ?cl v) ?w2 =
      ((if vd_tier v = Yellow \<and> st_mode A = Enforce then Resuming cx ?cl v else Reviewed cx ?cl v), ?w2\<lparr>w_conn := c'\<rparr>)"
    "reliable L n c'" "other_tables (w_conn ?w2) c'" by blast
  have "run_task L decode A E 8 (Replaying cx ?cl) w = run_task L decode A E 7 (Assessing cx ?cl) ?w1"
    by (rule run_at) (simp_all add: replaying_step [OF h assms(2)])
  also have "\<dots> = run_task L decode A E 6 (Judged cx ?cl v) ?w2"
    by (rule run_at) (simp_all add: m)
  also have "\<dots> = run_task L decode A E 5 (if vd_tier v = Yellow \<and> st_mode A = Enforce then Resuming cx ?cl v
      else Reviewed cx ?cl v) (?w2\<lparr>w_conn := c'\<rparr>)"
    by (rule run_at [where E = E and m = 5, OF _ c'(1)]) simp
  finally show ?thesis using c'(2,3) by (auto simp: other_tables_def)
qed

lemma run_reviewed:
  assumes "reliable L (21 + n) (w_conn w)" "new_execution L b (w_conn w)" "cx_decision cx = None"
    and "st_mode A = Observe \<or> vd_tier v \<noteq> Red"
    and "\<And>k. forward L (st_upstream_adapter A) (re_net (E k)) (st_upstream_url A) (st_upstream_api_key A) (cx_body cx) =
      (Some request, Inr upstream)"
    and "fr_status upstream < 65536" "retainable L (fr_body upstream)"
    and "completed = completed_record L b (fr_status upstream) (fr_content_type upstream) (fr_body upstream)"
  shows "\<exists>w'. run_task L decode A E (4 + k) (Reviewed cx (call_of L A cx b) v) w =
      (Answered (Respond (server_execution_response L completed (cx_correlation_id cx) (st_mode A) False
         (vd_tier v = Red) (vd_tier v = Yellow))), w') \<and>
    reliable L n (w_conn w') \<and> w_sent w' = w_sent w @ [attempt_of cx b v request] \<and>
    inspect_row b (row_of_binding L b (w_conn w')) = Inr (Completed completed)"
proof -
  let ?cl = "call_of L A cx b"
  have "reliable L (10 + (11 + n)) (w_conn w)" using assms(1) by simp
  from beginning_step [OF this assms(2), of decode A "E (2 + k)" cx v] obtain c' where c':
    "advance L decode A (E (2 + k)) (Beginning cx ?cl v) w = (Sending cx ?cl v, w\<lparr>w_conn := c'\<rparr>)"
    "reliable L (11 + n) c'" "started L b (w_conn w) c'" by blast
  let ?w2 = "w\<lparr>w_conn := c', w_sent := w_sent w @ [attempt_of cx b v request]\<rparr>"
  have "reliable L (11 + n) (w_conn ?w2)" "started L b (w_conn w) (w_conn ?w2)" using c'(2,3) by simp_all
  from settling_step [OF this(1) assms(2) this(2) assms(6-8), of decode A "E k" cx v] obtain w' where w':
    "advance L decode A (E k) (Settling cx ?cl v upstream) ?w2 =
      (Answered (Respond (server_execution_response L completed (cx_correlation_id cx) (st_mode A) False
         (vd_tier v = Red) (vd_tier v = Yellow))), w')"
    "reliable L n (w_conn w')" "w_sent w' = w_sent ?w2"
    "inspect_row b (row_of_binding L b (w_conn w')) = Inr (Completed completed)" by blast
  have "run_task L decode A E (4 + k) (Reviewed cx ?cl v) w = run_task L decode A E (3 + k) (Beginning cx ?cl v) w"
    by (rule run_at [OF _ reviewed_step [OF assms(4,3)]]) simp
  also have "\<dots> = run_task L decode A E (2 + k) (Sending cx ?cl v) (w\<lparr>w_conn := c'\<rparr>)"
    by (rule run_at [where E = E and m = "2 + k", OF _ c'(1)]) simp
  also have "\<dots> = run_task L decode A E (1 + k) (Settling cx ?cl v upstream) ?w2"
    by (rule run_at) (simp_all add: sending_step [OF assms(5)])
  also have "\<dots> = (Answered (Respond (server_execution_response L completed (cx_correlation_id cx) (st_mode A) False
         (vd_tier v = Red) (vd_tier v = Yellow))), w')"
    using w'(1) by (simp add: run_task_answered)
  finally show ?thesis using w'(2-4) by simp
qed

text \<open>The stages between the verdict and the start, with and without a human's approval.\<close>

lemma run_permitted:
  assumes "reliable L (2 + n) (w_conn w)" "permitted L A (w_conn w) cx v"
  shows "\<exists>c' k. run_task L decode A E 5 (if vd_tier v = Yellow \<and> st_mode A = Enforce then Resuming cx cl v
        else Reviewed cx cl v) w = run_task L decode A E (4 + k) (Reviewed cx cl v) (w\<lparr>w_conn := c'\<rparr>) \<and>
    reliable L n c' \<and> same_tables (w_conn w) c'"
proof (cases "vd_tier v = Yellow \<and> st_mode A = Enforce")
  case True
  then have p: "pendings_ok L (t_pendings (w_conn w))" "approved (w_conn w) (cx_correlation_id cx)"
    using assms(2) by (auto simp: permitted_def)
  have "codec_ok L" using assms(1) by (simp add: reliable_def)
  note r = resuming_step [OF this assms(1) p, of decode A "E 4" cl v]
  have "run_task L decode A E 5 (Resuming cx cl v) w =
      run_task L decode A E (4 + 0) (Reviewed cx cl v) (w\<lparr>w_conn := tick (tick (w_conn w))\<rparr>)"
    by (rule run_at) (simp_all add: r)
  moreover have "same_tables (w_conn w) (tick (tick (w_conn w)))" by (simp add: same_tables_def)
  ultimately show ?thesis using True inspect_reliable(2) [OF assms(1)] by (intro exI [of _ 0] exI [of _ "tick (tick (w_conn w))"]) simp
next
  case False
  have "run_task L decode A E 5 (Reviewed cx cl v) w = run_task L decode A E (4 + 1) (Reviewed cx cl v) (w\<lparr>w_conn := w_conn w\<rparr>)"
    by simp
  with False reliable_less [OF assms(1), of n] show ?thesis
    by (intro exI [of _ "w_conn w"] exI [of _ "1::nat"]) auto
qed

section \<open>Progress\<close>

text \<open>
  The 34 calls of the platform that a request and its repetition make: 31 for the request (its identifier,
  two for the lookup, five for the verdict's entry, two for the approval, ten each for the intent and the
  completion, the time stamp of the event) and three for the repetition.
\<close>

lemma run_execution:
  assumes "accepts_execution L decode A hs body cx b" "within_rate A (re_now (E 9)) cx w"
    and "fst (judge L A (E 6) cx (tool_type_of (cx_request cx)) w) = Inr v" "permitted L A (w_conn w) cx v"
    and "reliable L (31 + n) (w_conn w)" "new_execution L b (w_conn w)"
    and "\<And>k. forward L (st_upstream_adapter A) (re_net (E k)) (st_upstream_url A) (st_upstream_api_key A) body =
      (Some request, Inr upstream)"
    and "fr_status upstream < 65536" "retainable L (fr_body upstream)"
    and "completed = completed_record L b (fr_status upstream) (fr_content_type upstream) (fr_body upstream)"
  shows "\<exists>w'. handle_mcp L decode A E hs body w =
      (Some (Respond (server_execution_response L completed (cx_correlation_id cx) (st_mode A) False
         (vd_tier v = Red) (vd_tier v = Yellow))), w') \<and>
    reliable L n (w_conn w') \<and> w_sent w' = w_sent w @ [attempt_of cx b v request] \<and>
    inspect_row b (row_of_binding L b (w_conn w')) = Inr (Completed completed)"
proof -
  have cx: "cx_body cx = body" "cx_decision cx = None" "cx_server_execution cx \<noteq> None"
    using assms(1) by (auto simp: accepts_execution_def)
  obtain bs where bs: "run_task L decode A E 11 (Arrived hs body) w =
      run_task L decode A E 8 (Replaying cx (call_of L A cx b)) (w\<lparr>w_conn := tick (w_conn w), w_buckets := bs\<rparr>)"
    using run_admitted [where E = E, OF assms(1,2)] by blast
  let ?w1 = "w\<lparr>w_conn := tick (w_conn w), w_buckets := bs\<rparr>"
  have "reliable L (Suc (7 + (23 + n))) (w_conn w)" using assms(5) by simp
  then have h1: "reliable L (7 + (23 + n)) (w_conn ?w1)" using reliable_tick by simp
  have "row_of_binding L b (w_conn ?w1) = None" using assms(6) by (simp add: new_execution_def)
  moreover have "fst (judge L A (E 6) cx (tool_type_of (cx_request cx)) ?w1) = Inr v"
    using assms(3) judge_world [of ?w1 w] by simp
  ultimately obtain m c1 where c1: "run_task L decode A E 8 (Replaying cx (call_of L A cx b)) ?w1 =
      run_task L decode A E 5 (if vd_tier v = Yellow \<and> st_mode A = Enforce then Resuming cx (call_of L A cx b) v
        else Reviewed cx (call_of L A cx b) v) (?w1\<lparr>w_velocity := m, w_conn := c1\<rparr>)"
    "reliable L (23 + n) c1" "other_tables (w_conn ?w1) c1"
    using run_judged [OF h1] cx(3) by blast
  let ?w2 = "?w1\<lparr>w_velocity := m, w_conn := c1\<rparr>"
  have "reliable L (2 + (21 + n)) (w_conn ?w2)" using c1(2) by simp
  moreover have "permitted L A (w_conn ?w2) cx v"
    using assms(4) c1(3) by (simp add: permitted_def approved_def other_tables_def)
  ultimately obtain c2 k where c2: "run_task L decode A E 5 (if vd_tier v = Yellow \<and> st_mode A = Enforce
        then Resuming cx (call_of L A cx b) v else Reviewed cx (call_of L A cx b) v) ?w2 =
      run_task L decode A E (4 + k) (Reviewed cx (call_of L A cx b) v) (?w2\<lparr>w_conn := c2\<rparr>)"
    "reliable L (21 + n) c2" "same_tables (w_conn ?w2) c2"
    using run_permitted by blast
  let ?w3 = "?w2\<lparr>w_conn := c2\<rparr>"
  have "new_execution L b (w_conn ?w3)"
    using assms(6) c1(3) c2(3) by (simp add: new_execution_def row_of_binding_def other_tables_def same_tables_def)
  moreover have "st_mode A = Observe \<or> vd_tier v \<noteq> Red" using assms(4) by (auto simp: permitted_def)
  moreover have "reliable L (21 + n) (w_conn ?w3)" using c2(2) by simp
  ultimately obtain w' where w': "run_task L decode A E (4 + k) (Reviewed cx (call_of L A cx b) v) ?w3 =
      (Answered (Respond (server_execution_response L completed (cx_correlation_id cx) (st_mode A) False
         (vd_tier v = Red) (vd_tier v = Yellow))), w')"
    "reliable L n (w_conn w')" "w_sent w' = w_sent ?w3 @ [attempt_of cx b v request]"
    "inspect_row b (row_of_binding L b (w_conn w')) = Inr (Completed completed)"
    using run_reviewed [of L n ?w3 b cx A v E request upstream completed decode k] cx(1,2) assms(7-10) by blast
  have "handle_mcp L decode A E hs body w =
      (Some (Respond (server_execution_response L completed (cx_correlation_id cx) (st_mode A) False
         (vd_tier v = Red) (vd_tier v = Yellow))), w')"
    unfolding handle_mcp_def bs c1(1) c2(1) w'(1) by simp
  with w'(2-4) show ?thesis by simp
qed

lemma run_repetition:
  assumes "accepts_execution L decode A hs body cx b" "within_rate A (re_now (E 9)) cx w"
    and "reliable L (3 + n) (w_conn w)" "inspect_row b (row_of_binding L b (w_conn w)) = Inr (Completed completed)"
  shows "\<exists>w'. handle_mcp L decode A E hs body w =
      (Some (Respond (server_execution_response L completed (cx_correlation_id cx) (st_mode A) True False False)), w') \<and>
    w_sent w' = w_sent w"
proof -
  obtain bs where bs: "run_task L decode A E 11 (Arrived hs body) w =
      run_task L decode A E 8 (Replaying cx (call_of L A cx b)) (w\<lparr>w_conn := tick (w_conn w), w_buckets := bs\<rparr>)"
    using run_admitted [where E = E, OF assms(1,2)] by blast
  let ?w1 = "w\<lparr>w_conn := tick (w_conn w), w_buckets := bs\<rparr>"
  have "reliable L (Suc (2 + n)) (w_conn w)" using assms(3) by (simp add: numeral_eq_Suc)
  then have h: "reliable L (2 + n) (w_conn ?w1)" using reliable_tick by simp
  have "inspect_row b (row_of_binding L b (w_conn ?w1)) = Inr (Completed completed)" using assms(4) by simp
  note r = repeated_step [OF h this, of decode A "E 7" cx]
  have "run_task L decode A E 8 (Replaying cx (call_of L A cx b)) ?w1 = run_task L decode A E 7
      (Answered (Respond (server_execution_response L completed (cx_correlation_id cx) (st_mode A) True False False)))
      (?w1\<lparr>w_conn := tick (tick (w_conn ?w1))\<rparr>)"
    by (rule run_at [where E = E and m = 7, OF _ r]) simp
  with bs show ?thesis by (simp add: handle_mcp_def run_task_answered)
qed


text \<open>The hosted server of the sample run meets every condition.\<close>

lemma conn0_reliable: "n < 2 ^ 128 \<Longrightarrow> reliable (sample_lib bodies urls rules) n conn0"
proof -
  assume n: "n < 2 ^ 128"
  have ids: "next_id (sample_lib bodies urls rules) conn0 k = marks k" if "k < n" for k
    using that n by (simp add: next_id_def sample_lib_def conn0_def unat_word_ariths unsigned_of_nat take_bit_nat_eq_self)
  then have "inj_on (next_id (sample_lib bodies urls rules) conn0) {..<n}" by (intro inj_onI) simp
  then show ?thesis by (simp add: reliable_def sample_codec conn0_clock chain_ok_def)
qed

lemma accepts1: "accepts_execution hosted_lib decode1 hosted_state headers1 ''call'' cx1 binding1"
proof -
  have "is_ok (validate_callback_url hosted_lib hosted_state headers1)"
    by (simp add: validate_callback_url_def header_text_def headers1_lookup)
  moreover have "server_binding hosted_lib cx1 (tool_type_of (cx_request cx1)) = Some (Some binding1)"
    by (simp add: server_binding_def cx1_def binding1_def digest1_def wire_request_def agent1_def parse_hosted Let_def
        tool_type_of_def)
  moreover have "decode1 ''call'' = Some wire_request" "mr_method wire_request \<noteq> []"
      "\<not> is_mcp_control_method (mr_method wire_request)" "st_upstream_adapter hosted_state = McpJsonRpcV1"
    by (simp_all add: decode1_def wire_request_def is_mcp_control_method_def hosted_state_def)
  moreover note intake_Inr(4,5,8,10) [OF intake1]
  ultimately show ?thesis by (simp add: accepts_execution_def cx1_def uuid1 validated1)
qed


end
