(* ===== verification/Decisions.thy ===== *)
theory Decisions
  imports Serving
begin

text \<open>
  The decision selector, which asks for a verdict alone, and the authority of operators over the queue.
\<close>

section \<open>Decisions without effect\<close>

text \<open>The execution tables stay as they are, and the queue only grows.\<close>

definition no_effect :: "conn \<Rightarrow> conn \<Rightarrow> bool" where
  "no_effect c c' \<longleftrightarrow> same_env c c' \<and> t_executions c' = t_executions c \<and> t_outbox c' = t_outbox c \<and>
     prefix (t_pendings c) (t_pendings c')"

interpretation no_effect: db_relation no_effect
  by unfold_locales (auto simp: no_effect_def same_tables_def intro: same_env_trans)

lemma append_no_effect: "keeps no_effect (append_ledger L req)"
  unfolding append_ledger_def
  by (intro no_effect.keeps_with keepsI) (auto simp: no_effect_def other_tables_def dest: append_frame)

lemma park_no_effect: "keeps no_effect (park_pending L q)"
  unfolding park_pending_def insert_pending_def
  by (intro no_effect.keeps_with no_effect.keeps_bind no_effect.keeps_now no_effect.keeps_return no_effect.keeps_sql keepsI)
     (auto simp: no_effect_def same_env_def split: if_splits)

text \<open>A task of a request with the decision selector never gets to a stage that acts.\<close>

definition acts :: "task \<Rightarrow> bool" where
  "acts t \<longleftrightarrow> sends t \<or> (\<exists>cx cl v. t = Beginning cx cl v) \<or> (\<exists>cx cl v u. t = Settling cx cl v u)"

lemma deciding_step:
  assumes "proceed L decode A E t w = (Inr t', w')" "parse_decision_request L hs = Inr (Some i)"
    and "serves_request L decode A hs body t" "\<not> acts t"
  shows "\<not> acts t'"
proof -
  have "cx_decision cx \<noteq> None" if "context_of t = Some cx" for cx
    using assms(2,3) that intake_Inr(5) by (fastforce simp: serves_request_def)
  with assms(1,4) show ?thesis
    by (cases t) (auto simp: act_simps Let_def acts_def sends_def tool_call_def split: if_splits)
qed

lemma deciding_quiet:
  assumes "proceed L decode A E t w = (r, w')" "\<not> acts t" "clock_ok (w_conn w)"
  shows "quiet_step no_effect w w'"
proof (rule keeps_actD [OF no_effect.proceed_keeps assms(3,1)])
  show "keeps no_effect (begin_server_execution L b)" if "t = Beginning cx cl v" for cx cl v b
    using that assms(2) by (simp add: acts_def)
  show "keeps no_effect (complete_server_execution L b (fr_status u) (fr_content_type u) (fr_body u))"
    if "t = Settling cx cl v u" for cx cl v u b
    using that assms(2) by (simp add: acts_def)
qed (use assms(2) in \<open>auto simp: acts_def intro: append_no_effect park_no_effect no_effect.queries\<close>)

lemma deciding_run:
  assumes "run_task L decode A E n t w = (t', w')" "parse_decision_request L hs = Inr (Some i)"
    and "serves_request L decode A hs body t" "\<not> acts t" "clock_ok (w_conn w)"
  shows "quiet_step no_effect w w'"
  using assms(1,3,4,5)
proof (induction n arbitrary: t w)
  case 0
  then show ?case by (simp add: quiet_step_def no_effect.rel_refl)
next
  case (Suc n)
  obtain r w1 where p: "proceed L decode A (E n) t w = (r, w1)" by fastforce
  from deciding_quiet [OF p Suc.prems(3,4)] have q: "quiet_step no_effect w w1" .
  then have c: "clock_ok (w_conn w1)" using Suc.prems(4) no_effect.rel_clock by (auto simp: quiet_step_def)
  have "quiet_step no_effect w1 w'"
  proof (cases r)
    case (Inl out)
    with Suc.prems(1) p show ?thesis
      by (simp add: advance_def run_task_answered quiet_step_def no_effect.rel_refl)
  next
    case (Inr t1)
    with Suc.prems(1) p have "run_task L decode A E n t1 w1 = (t', w')" by (simp add: advance_def)
    then show ?thesis
      using Suc.IH proceed_serves deciding_step [OF _ assms(2) Suc.prems(2,3)] p Inr Suc.prems(2) c by blast
  qed
  with q show ?case by (auto simp: quiet_step_def intro: no_effect.compose)
qed

text \<open>
  C10. A request with the decision selector has no effect: whatever verdict it gets, nothing is sent to
  the upstream, no execution is started or completed, no outbox entry is written, and the review queue
  keeps its rows, with at most new ones after them.
\<close>

theorem decision_has_no_effect:
  assumes "parse_decision_request L hs = Inr (Some i)" "handle_mcp L decode A E hs body w = (out, w')"
    and "clock_ok (w_conn w)"
  shows "w_sent w' = w_sent w \<and> t_executions (w_conn w') = t_executions (w_conn w) \<and>
    t_outbox (w_conn w') = t_outbox (w_conn w) \<and> prefix (t_pendings (w_conn w)) (t_pendings (w_conn w'))"
proof -
  obtain t where "run_task L decode A E 11 (Arrived hs body) w = (t, w')"
    using assms(2) by (auto simp: handle_mcp_def split: prod.splits task.splits)
  from deciding_run [OF this assms(1) _ _ assms(3)] have "quiet_step no_effect w w'"
    by (simp add: serves_request_def acts_def sends_def)
  then show ?thesis by (simp add: quiet_step_def no_effect_def)
qed

definition decision_headers :: headers where
  "decision_headers = [(''authorization'', Text ''Bearer t''), (DECISION_CONTRACT_HEADER, Text DECISION_CONTRACT),
     (IDEMPOTENCY_ID_HEADER, Text ''xxxxx'')]"

lemma decision_selected: "parse_decision_request lib0 decision_headers = Inr (Some 5)"
proof -
  have h: "header DECISION_CONTRACT_HEADER decision_headers = Some (Text DECISION_CONTRACT)"
    "header SERVER_EXECUTION_CONTRACT_HEADER decision_headers = None"
    "header LEGACY_EXECUTION_CONTRACT_HEADER decision_headers = None"
    "header IDEMPOTENCY_ID_HEADER decision_headers = Some (Text ''xxxxx'')"
    by (simp_all add: header_def decision_headers_def SERVER_EXECUTION_CONTRACT_HEADER_def DECISION_CONTRACT_HEADER_def
        LEGACY_EXECUTION_CONTRACT_HEADER_def IDEMPOTENCY_ID_HEADER_def)
  have "canonical_id lib0 decision_headers = Some 5"
    by (simp add: canonical_id_def header_text_def h lib0_def sample_lib_def marks_5)
  with h show ?thesis by (simp add: parse_decision_request_def contains_key_def header_text_def)
qed

theorem decision_has_no_effect_witness:
  "w_sent (snd (handle_mcp lib0 (\<lambda>_. Some call_wire) state0 (\<lambda>_. env00) decision_headers ''{}'' world0)) = []"
proof -
  obtain out w' where h: "handle_mcp lib0 (\<lambda>_. Some call_wire) state0 (\<lambda>_. env00) decision_headers ''{}'' world0 = (out, w')"
    by fastforce
  have "clock_ok (w_conn world0)" by (simp add: world0_def conn0_clock)
  from decision_has_no_effect [OF decision_selected h this] h show ?thesis by (simp add: world0_def)
qed

section \<open>Operators\<close>

definition same_queue :: "conn \<Rightarrow> conn \<Rightarrow> bool" where
  "same_queue c c' \<longleftrightarrow> same_env c c' \<and> t_pendings c' = t_pendings c"

interpretation same_queue: db_relation same_queue
  by unfold_locales (auto simp: same_queue_def same_tables_def intro: same_env_trans)

lemma append_same_queue: "keeps same_queue (append_ledger L req)"
  unfolding append_ledger_def
  by (intro same_queue.keeps_with keepsI) (auto simp: same_queue_def other_tables_def dest: append_frame)

text \<open>What follows the decision leaves the queue alone, and the answer tells how the decision went.\<close>

lemma answer_act: "answer r w = (res, w') \<longleftrightarrow> res = Inl (Respond r) \<and> w' = w"
  by (auto simp: answer_def)

lemma quiet_acts_go_on:
  "\<exists>x w1. (now_rfc3339 L :: (outcome, string) act) w = (Inr x, w1)"
  "\<exists>w1. (maybe_fire_webhook A e :: (outcome, unit) act) w = (Inr (), w1)"
  "\<exists>w1. (spawn_notification n :: (outcome, unit) act) w = (Inr (), w1)"
  by (auto simp: now_rfc3339_def wall_clock_def then_act_def go_on_def maybe_fire_webhook_def spawn_notification_def
      split: option.split)

lemma decide_answer:
  assumes "handle_decide_pending L decode A i hs body w = (r, w')" "resolve_operator_tenant A hs = Inr tenant"
    and "clock_ok (w_conn w)" "decode body = Some req"
    and d: "decide_pending_scoped L i tenant (dr_decision req) (dr_note req) (tick (w_conn w)) = (res, c)"
  shows "t_pendings (w_conn w') = t_pendings c" "\<exists>resp. r = Inl (Respond resp) \<and>
    rs_status resp = (case res of Inl e \<Rightarrow> fst (decide_refusal i e) | Inr p \<Rightarrow> 200)"
proof -
  let ?decide = "decide_pending_scoped L i tenant (dr_decision req) (dr_note req)"
  have scoped: "(case tenant of Some t \<Rightarrow> decide_pending_for_tenant L i t (dr_decision req) (dr_note req)
      | None \<Rightarrow> decide_pending L i (dr_decision req) (dr_note req)) = ?decide"
    by (cases tenant) (simp_all add: decide_pending_for_tenant_def decide_pending_def fun_eq_iff)
  have "clock_ok (tick (w_conn w))" using assms(3) by (simp add: clock_ok_def)
  from keepsD [OF decide_keeps_review [of L] this d] this have "clock_ok c"
    using review.rel_clock by blast
  let ?rest = "\<lambda>corr decision. case decision of
       Inl e \<Rightarrow> answer (plain (fst (decide_refusal i e)) corr (st_mode A) (Message (snd (decide_refusal i e))))
     | Inr p \<Rightarrow>
         then_act (on_conn (append_ledger L (decide_log p))) (\<lambda>_.
         then_act (now_rfc3339 L) (\<lambda>ts.
         then_act (maybe_fire_webhook A (decide_event A p ts)) (\<lambda>_.
         then_act (case pd_callback_url p of
             None \<Rightarrow> go_on ()
           | Some url \<Rightarrow> spawn_notification
               (DecisionCallback url (st_callback_allowlist A) (callback_payload L p))) (\<lambda>_.
         answer (plain 200 corr (st_mode A) (Json (pending_view L p)))))))"
  have quiet: "keeps_act (quiet_step same_queue) (?rest corr x)" for corr and x :: "(decide_error, pending) result"
    by (intro same_queue.act_case_sum same_queue.act_rules same_queue.act_case_option append_same_queue)
  obtain corr where rest: "?rest corr res (w\<lparr>w_conn := c\<rparr>) = (r, w')"
    using assms(1,4) d
    by (auto simp: handle_decide_pending_def assms(2) scoped then_act_def [of "fresh_id L"] fresh_id_def
        then_act_def [of "on_conn ?decide"] on_conn_def [of ?decide] Let_def)
  from keeps_actD [OF quiet _ this] \<open>clock_ok c\<close> show "t_pendings (w_conn w') = t_pendings c"
    by (simp add: quiet_step_def same_queue_def)
  show "\<exists>resp. r = Inl (Respond resp) \<and> rs_status resp = (case res of Inl e \<Rightarrow> fst (decide_refusal i e) | Inr p \<Rightarrow> 200)"
  proof (cases res)
    case (Inl e)
    with rest show ?thesis by (auto simp: answer_act)
  next
    case (Inr p)
    obtain x1 w1 where 1: "on_conn (append_ledger L (decide_log p)) (w\<lparr>w_conn := c\<rparr>) = (Inr x1 :: (outcome, _) result, w1)"
      by (cases "append_ledger L (decide_log p) c") (auto simp: on_conn_def)
    obtain ts w2 where 2: "now_rfc3339 L w1 = (Inr ts :: (outcome, _) result, w2)" using quiet_acts_go_on(1) by blast
    obtain w3 where 3: "maybe_fire_webhook A (decide_event A p ts) w2 = (Inr () :: (outcome, _) result, w3)"
      using quiet_acts_go_on(2) by blast
    obtain w4 where 4: "(case pd_callback_url p of None \<Rightarrow> go_on () | Some url \<Rightarrow> spawn_notification
        (DecisionCallback url (st_callback_allowlist A) (callback_payload L p))) w3 = (Inr () :: (outcome, _) result, w4)"
      using quiet_acts_go_on(3) by (cases "pd_callback_url p") (auto simp: go_on_def)
    from rest Inr show ?thesis by (auto simp: then_act_def 1 2 3 4 answer_act)
  qed
qed

lemma decide_queue:
  assumes "handle_decide_pending L decode A i hs body w = (r, w')" "resolve_operator_tenant A hs = Inr tenant"
    and "clock_ok (w_conn w)"
  shows "t_pendings (w_conn w') = t_pendings (w_conn w) \<or>
    (\<exists>d n. t_pendings (w_conn w') = t_pendings (snd (decide_pending_scoped L i tenant d n (tick (w_conn w)))))"
proof (cases "decode body")
  case None
  with assms(1,2) show ?thesis by (auto simp: handle_decide_pending_def then_act_def fresh_id_def answer_def)
next
  case (Some req)
  obtain res c where "decide_pending_scoped L i tenant (dr_decision req) (dr_note req) (tick (w_conn w)) = (res, c)"
    by fastforce
  with decide_answer(1) [OF assms Some this] show ?thesis by (metis snd_conv)
qed

text \<open>
  C11. With a registry of operators, a decision needs the token of one of them and stays within its
  tenant: without such a token the answer is 401 and no table and no notification changes; with one,
  no row of another tenant and no row of another correlation id changes, and no row appears or goes.
\<close>

theorem operator_authority:
  assumes "st_deciders A = Some registry" "handle_decide_pending L decode A i hs body w = (r, w')"
    and "clock_ok (w_conn w)"
  shows "case Option.bind (bearer hs) (lookup_tenant registry) of
      None \<Rightarrow> (\<exists>resp. r = Inl (Respond resp) \<and> rs_status resp = 401) \<and> same_tables (w_conn w) (w_conn w') \<and>
        w_notes w' = w_notes w
    | Some tenant \<Rightarrow> map pr_correlation_id (t_pendings (w_conn w')) = map pr_correlation_id (t_pendings (w_conn w)) \<and>
        filter (\<lambda>r. pr_tenant r \<noteq> tenant \<or> pr_correlation_id r \<noteq> i) (t_pendings (w_conn w')) =
        filter (\<lambda>r. pr_tenant r \<noteq> tenant \<or> pr_correlation_id r \<noteq> i) (t_pendings (w_conn w))"
proof (cases "Option.bind (bearer hs) (lookup_tenant registry)")
  case None
  then have "resolve_operator_tenant A hs = Inl BadTenantToken"
    by (simp add: resolve_operator_tenant_def assms(1) ok_or_def)
  with assms(2) None show ?thesis
    by (auto simp: handle_decide_pending_def then_act_def fresh_id_def answer_def)
next
  case (Some tenant)
  then have t: "resolve_operator_tenant A hs = Inr (Some tenant)"
    by (simp add: resolve_operator_tenant_def assms(1) ok_or_def)
  let ?row = "\<lambda>at' d n r. if open_in_scope i (Some tenant) r then decided L at' d n r else r"
  have "t_pendings (w_conn w') = t_pendings (w_conn w) \<or>
      (\<exists>at' d n. t_pendings (w_conn w') = map (?row at' d n) (t_pendings (w_conn w)))"
    using decide_queue [OF assms(2) t assms(3)]
  proof (elim disjE exE)
    fix d n
    assume e: "t_pendings (w_conn w') =
      t_pendings (snd (decide_pending_scoped L i (Some tenant) d n (tick (w_conn w))))"
    obtain at' where "t_pendings (w_conn w') \<in> {t_pendings (tick (w_conn w)),
        map (?row at' d n) (t_pendings (tick (w_conn w)))}"
      unfolding e using decide_scoped_rows [of L i "Some tenant" d n "tick (w_conn w)"] by (elim exE)
    then show ?thesis unfolding tick_sel by blast
  qed simp
  moreover have "map pr_correlation_id (map (?row at' d n) rows) = map pr_correlation_id rows" for at' d n rows
    by (induction rows) (simp_all add: decided_def)
  moreover have "filter (\<lambda>r. pr_tenant r \<noteq> tenant \<or> pr_correlation_id r \<noteq> i) (map (?row at' d n) rows) =
      filter (\<lambda>r. pr_tenant r \<noteq> tenant \<or> pr_correlation_id r \<noteq> i) rows" for at' d n rows
    by (induction rows) (auto simp: decided_def open_in_scope_def in_scope_def)
  ultimately show ?thesis using Some by auto
qed

theorem operator_authority_witness:
  "\<exists>w'. w' = snd (handle_decide_pending lib0 (\<lambda>_. None) state0 ''x'' [] ''{}'' world0) \<and>
     same_tables (w_conn world0) (w_conn w')"
proof -
  obtain r w' where h: "handle_decide_pending lib0 (\<lambda>_. None) state0 ''x'' [] ''{}'' world0 = (r, w')" by fastforce
  have "st_deciders state0 = Some [(''op'', ''acme'')]" by (simp add: state0_def)
  from operator_authority [OF this h] have "same_tables (w_conn world0) (w_conn w')"
    by (simp add: world0_def conn0_clock bearer_def header_text_def header_def)
  with h show ?thesis by simp
qed

end
