(* ===== verification/Router.thy ===== *)
theory Router
  imports Sample_Run
begin

text \<open>
  The HTTP surface of the server: the route table of \<open>build_router\<close> (\<open>src/proxy.rs\<close>) with the route that
  \<open>start\<close> adds to it, its limit on bodies, and
  one request from its method, path and body to the handler. How axum matches a path against a pattern, and
  decodes captured segments and query strings, is an argument.
\<close>

section \<open>Routes\<close>

datatype endpoint = Health | Readiness | Mcp | List_Pendings | Get_Pending | Decide_Pending | Metrics

definition build_router :: "(string \<times> string \<times> endpoint) list" where
  "build_router =
     [(''/'', ''GET'', Health), (''/health'', ''GET'', Health), (''/readyz'', ''GET'', Readiness),
      (''/mcp'', ''POST'', Mcp), (''/pending'', ''GET'', List_Pendings), (''/pending/{id}'', ''GET'', Get_Pending),
      (''/pending/{id}/decide'', ''POST'', Decide_Pending)]"

text \<open>\<open>start\<close> adds the route of the metrics.\<close>

definition app_routes :: "(string \<times> string \<times> endpoint) list" where
  "app_routes = build_router @ [(''/metrics'', ''GET'', Metrics)]"

text \<open>The body is \<open>None\<close> when the client's transfer breaks off.\<close>

record http_request =
  hq_method :: string
  hq_path :: string
  hq_query :: string
  hq_headers :: headers
  hq_body :: "string option"

text \<open>
  \<open>ro_match pattern path\<close> is the captured segment of a matching path (\<open>None\<close> inside when the pattern captures
  nothing), \<open>ro_segment\<close> decodes a captured segment to text, and \<open>ro_query\<close> a query string to parameters;
  \<open>ro_metrics\<close> is what the recorder of the metrics renders.
\<close>

record router_env =
  ro_match :: "string \<Rightarrow> string \<Rightarrow> string option option"
  ro_segment :: "string \<Rightarrow> string option"
  ro_query :: "string \<Rightarrow> list_pending_params option"
  ro_metrics :: string

text \<open>A route for \<open>GET\<close> answers \<open>HEAD\<close> as well.\<close>

definition serves :: "string \<Rightarrow> string \<Rightarrow> bool" where
  "serves route_method request_method \<longleftrightarrow>
     request_method = route_method \<or> (route_method = ''GET'' \<and> request_method = ''HEAD'')"

definition route :: "router_env \<Rightarrow> http_request \<Rightarrow> (nat, endpoint \<times> string option) result" where
  "route R q =
     (case filter (\<lambda>(pattern, _, _). ro_match R pattern (hq_path q) \<noteq> None) app_routes of
        [] \<Rightarrow> Inl 404
      | routes \<Rightarrow>
          (case find (\<lambda>(_, m, _). serves m (hq_method q)) routes of
             None \<Rightarrow> Inl 405
           | Some (pattern, _, e) \<Rightarrow> Inr (e, the (ro_match R pattern (hq_path q)))))"

section \<open>One request\<close>

definition bare :: "nat \<Rightarrow> response" where
  "bare status = \<lparr>rs_status = status, rs_headers = [], rs_body = Raw []\<rparr>"

text \<open>The extractor of the body, under \<open>DefaultBodyLimit::max(REQUEST_BODY_BYTES)\<close>.\<close>

definition buffered :: "http_request \<Rightarrow> (nat, string) result" where
  "buffered q =
     (case hq_body q of
        None \<Rightarrow> Inl 400
      | Some body \<Rightarrow> if REQUEST_BODY_BYTES < length body then Inl 413 else Inr body)"

definition path_id :: "router_env \<Rightarrow> string option \<Rightarrow> (nat, string) result" where
  "path_id R capture = ok_or 400 (Option.bind capture (ro_segment R))"

definition outcome_of :: "(outcome, response) result \<times> world \<Rightarrow> outcome option \<times> world" where
  "outcome_of r = (case fst r of Inl out \<Rightarrow> Some out | Inr resp \<Rightarrow> Some (Respond resp), snd r)"

definition refuse :: "nat \<Rightarrow> world \<Rightarrow> outcome option \<times> world" where
  "refuse status w = (Some (Respond (bare status)), w)"

definition serve ::
  "router_env \<Rightarrow> lib \<Rightarrow> (string \<Rightarrow> mcp_request option) \<Rightarrow> (string \<Rightarrow> decide_request option) \<Rightarrow> app_state \<Rightarrow>
   (nat \<Rightarrow> request_env) \<Rightarrow> http_request \<Rightarrow> world \<Rightarrow> outcome option \<times> world"
where
  "serve R L decode decode_decide A E q w =
     (case route R q of
        Inl status \<Rightarrow> refuse status w
      | Inr (e, capture) \<Rightarrow>
     (case e of
        Health \<Rightarrow> (Some (Respond \<lparr>rs_status = 200, rs_headers = [], rs_body = Raw health\<rparr>), w)
      | Readiness \<Rightarrow> (Some (Respond \<lparr>rs_status = fst readyz, rs_headers = [], rs_body = Json (snd readyz)\<rparr>), w)
      | Mcp \<Rightarrow>
          (case buffered q of
             Inl status \<Rightarrow> refuse status w
           | Inr body \<Rightarrow> handle_mcp L decode A E (hq_headers q) body w)
      | Metrics \<Rightarrow> (Some (Respond \<lparr>rs_status = 200, rs_headers = [], rs_body = Raw (ro_metrics R)\<rparr>), w)
      | List_Pendings \<Rightarrow>
          (case ro_query R (hq_query q) of
             None \<Rightarrow> refuse 400 w
           | Some params \<Rightarrow> outcome_of (handle_list_pendings L A params (hq_headers q) w))
      | Get_Pending \<Rightarrow>
          (case path_id R capture of
             Inl status \<Rightarrow> refuse status w
           | Inr i \<Rightarrow> outcome_of (handle_get_pending L A i (hq_headers q) w))
      | Decide_Pending \<Rightarrow>
          (case and_then (path_id R capture) (\<lambda>i. map_result (Pair i) (buffered q)) of
             Inl status \<Rightarrow> refuse status w
           | Inr (i, body) \<Rightarrow>
               outcome_of (handle_decide_pending L decode_decide A i (hq_headers q) body w))))"

section \<open>Requests are runs of the server\<close>

lemma handle_mcp_runs:
  assumes "\<And>i. env_ok good (E i)"
  shows "runs L decode decode_decide A good (w, ts) (snd (handle_mcp L decode A E hs body w), ts)"
proof -
  obtain t' w' where r: "run_task L decode A E 11 (Arrived hs body) w = (t', w')" by fastforce
  have "sys_step L decode decode_decide A good (w, ts) (w, ts @ Arrived hs body # [])"
    using sys_step.arrive by simp
  moreover have "runs L decode decode_decide A good (w, ts @ Arrived hs body # []) (w', ts @ t' # [])"
    using r assms by (rule run_task_runs)
  moreover have "sys_step L decode decode_decide A good (w', ts @ t' # []) (w', ts)"
    using sys_step.cancel [of _ _ _ _ _ w' ts t' "[]"] by simp
  moreover have "snd (handle_mcp L decode A E hs body w) = w'"
    by (simp add: handle_mcp_def r split: task.split)
  ultimately show ?thesis
    by (metis converse_rtranclp_into_rtranclp rtranclp.rtrancl_into_rtrancl)
qed

lemma outcome_of_world [simp]: "snd (outcome_of r) = snd r"
  by (simp add: outcome_of_def)

lemma refuse_world [simp]: "snd (refuse status w) = w"
  by (simp add: refuse_def)

lemma operator_runs:
  "runs L decode decode_decide A good (w, ts) (snd (handle_list_pendings L A params hs w), ts)"
  "runs L decode decode_decide A good (w, ts) (snd (handle_get_pending L A i hs w), ts)"
  "runs L decode decode_decide A good (w, ts) (snd (handle_decide_pending L decode_decide A i hs body w), ts)"
proof -
  show "runs L decode decode_decide A good (w, ts) (snd (handle_list_pendings L A params hs w), ts)"
    using sys_step.listing [OF prod.collapse [symmetric]] by (rule r_into_rtranclp)
  show "runs L decode decode_decide A good (w, ts) (snd (handle_get_pending L A i hs w), ts)"
    using sys_step.poll [OF prod.collapse [symmetric]] by (rule r_into_rtranclp)
  show "runs L decode decode_decide A good (w, ts) (snd (handle_decide_pending L decode_decide A i hs body w), ts)"
    using sys_step.decide [OF prod.collapse [symmetric]] by (rule r_into_rtranclp)
qed

lemma serve_runs:
  assumes "\<And>i. env_ok good (E i)"
  shows "runs L decode decode_decide A good (w, ts) (snd (serve R L decode decode_decide A E q w), ts)"
  using assms operator_runs handle_mcp_runs [of good E]
  by (auto simp: serve_def split: sum.split prod.split endpoint.split option.split)

text \<open>Requests one after the other, each with the environment of its steps.\<close>

fun serve_all ::
  "router_env \<Rightarrow> lib \<Rightarrow> (string \<Rightarrow> mcp_request option) \<Rightarrow> (string \<Rightarrow> decide_request option) \<Rightarrow> app_state \<Rightarrow>
   ((nat \<Rightarrow> request_env) \<times> http_request) list \<Rightarrow> world \<Rightarrow> outcome option list \<times> world"
where
  "serve_all R L decode decode_decide A [] w = ([], w)"
| "serve_all R L decode decode_decide A ((E, q) # qs) w =
     (let (out, w1) = serve R L decode decode_decide A E q w;
          (outs, w2) = serve_all R L decode decode_decide A qs w1
      in (out # outs, w2))"


section \<open>Only one route has effects on the upstream\<close>

definition reads :: "conn \<Rightarrow> conn \<Rightarrow> bool" where
  "reads c c' \<longleftrightarrow> same_tables c c' \<and> same_env c c'"

interpretation reads: db_relation reads
  by unfold_locales (auto simp: reads_def intro: same_tables_trans same_env_trans)

lemma route_Inr:
  assumes "route R q = Inr (e, capture)"
  shows "\<exists>pattern m. (pattern, m, e) \<in> set app_routes \<and> serves m (hq_method q) \<and>
    ro_match R pattern (hq_path q) = Some capture"
proof -
  let ?routes = "filter (\<lambda>(pattern, _, _). ro_match R pattern (hq_path q) \<noteq> None) app_routes"
  obtain pattern m where f: "find (\<lambda>(_, m, _). serves m (hq_method q)) ?routes = Some (pattern, m, e)"
      "capture = the (ro_match R pattern (hq_path q))"
    using assms by (auto simp: route_def split: list.splits option.splits)
  from f(1) have "(pattern, m, e) \<in> set ?routes" by (metis find_Some_iff nth_mem)
  moreover from f(1) have "serves m (hq_method q)" by (auto simp: find_Some_iff)
  ultimately have "(pattern, m, e) \<in> set ?routes" "serves m (hq_method q)" by simp_all
  with f(2) show ?thesis by auto
qed

lemma route_method:
  assumes "route R q = Inr (e, capture)"
  shows "hq_method q = ''POST'' \<longleftrightarrow> e = Mcp \<or> e = Decide_Pending"
    "e = Mcp \<Longrightarrow> ro_match R ''/mcp'' (hq_path q) \<noteq> None"
  using route_Inr [OF assms] by (auto simp: app_routes_def build_router_def serves_def)

lemma buffered_long: "buffered q = Inr body \<Longrightarrow> length body \<le> 1048576 \<and> hq_body q = Some body"
  by (auto simp: buffered_def REQUEST_BODY_BYTES_def split: option.splits if_splits)

lemma same_world: "same_tables c c" "reads c c"
  by (simp_all add: reads_def)

text \<open>The routes for \<open>GET\<close> only read; the decision route sends nothing.\<close>

lemma serve_reads:
  assumes "clock_ok (w_conn w)" "route R q = Inr (e, capture)" "e \<noteq> Mcp" "e \<noteq> Decide_Pending"
  shows "quiet_step reads w (snd (serve R L decode decode_decide A E q w))"
proof -
  have "quiet_step reads w w" by (simp add: quiet_step_def same_world)
  moreover have "quiet_step reads w (snd (handle_list_pendings L A params hs w))"
      "quiet_step reads w (snd (handle_get_pending L A i hs w))" for params hs i
    using keeps_actD [OF reads.listing_quiet assms(1) prod.collapse [symmetric]]
      keeps_actD [OF reads.poll_quiet assms(1) prod.collapse [symmetric]] by blast+
  ultimately show ?thesis using assms(2-4)
    by (cases e) (auto simp: serve_def split: option.split sum.split)
qed

lemma serve_decision:
  assumes "clock_ok (w_conn w)" "route R q = Inr (Decide_Pending, capture)"
  shows "w_sent (snd (serve R L decode decode_decide A E q w)) = w_sent w"
proof -
  have "w_sent (snd (handle_decide_pending L decode_decide A i hs body w)) = w_sent w" for i hs body
    using keeps_actD [OF exec_ledger.decide_quiet assms(1) prod.collapse [symmetric]]
    by (simp add: quiet_step_def)
  with assms(2) show ?thesis by (simp add: serve_def split: sum.split prod.split)
qed

text \<open>
  C8. Only a POST to \<open>/mcp\<close> can reach the upstream. Requests with another method than POST change no table of
  the ledger, whoever sends them, and neither does a body above one mebibyte.
\<close>

theorem only_mcp_reaches_upstream:
  assumes "clock_ok (w_conn w)" "serve R L decode decode_decide A E q w = (out, w')"
  shows "(w_sent w' \<noteq> w_sent w \<longrightarrow> hq_method q = ''POST'' \<and> ro_match R ''/mcp'' (hq_path q) \<noteq> None) \<and>
    (hq_method q \<noteq> ''POST'' \<longrightarrow> same_tables (w_conn w) (w_conn w')) \<and>
    (\<forall>body. hq_body q = Some body \<and> 1048576 < length body \<longrightarrow> same_tables (w_conn w) (w_conn w') \<and> w_sent w' = w_sent w)"
proof (cases "route R q")
  case (Inl status)
  with assms(2) show ?thesis by (auto simp: serve_def refuse_def same_world)
next
  case (Inr r)
  obtain e capture where r: "route R q = Inr (e, capture)" using Inr by (cases r) simp
  note by_post = route_method [OF r]
  have too_long: "w' = w" if "e = Mcp \<or> e = Decide_Pending" "hq_body q = Some body" "1048576 < length body" for body
    using that assms(2) r
    by (auto simp: serve_def refuse_def buffered_def REQUEST_BODY_BYTES_def ok_or_def path_id_def split: option.splits)
  show ?thesis
  proof (cases "e = Mcp \<or> e = Decide_Pending")
    case True
    then show ?thesis
      using by_post too_long serve_decision [OF assms(1), of R q capture L decode decode_decide A E] r assms(2)
      by (auto simp: same_world)
  next
    case False
    with serve_reads [OF assms(1) r, of L decode decode_decide A E] assms(2)
    have "same_tables (w_conn w) (w_conn w')" "w_sent w' = w_sent w"
      by (simp_all add: quiet_step_def reads_def)
    then show ?thesis by simp
  qed
qed

section \<open>Examples\<close>

definition router0 :: router_env where
  "router0 = \<lparr>ro_match = (\<lambda>pattern path. if path = pattern then Some None
       else if pattern = ''/pending/{id}'' \<and> path = ''/pending/x'' then Some (Some ''x'') else None),
     ro_segment = Some, ro_query = (\<lambda>_. None), ro_metrics = []\<rparr>"

definition poll0 :: http_request where
  "poll0 = \<lparr>hq_method = ''GET'', hq_path = ''/pending/x'', hq_query = [], hq_headers = [], hq_body = Some []\<rparr>"

definition post0 :: http_request where
  "post0 = \<lparr>hq_method = ''POST'', hq_path = ''/mcp'', hq_query = [], hq_headers = headers1, hq_body = Some ''call''\<rparr>"

lemma route_examples:
  "route router0 poll0 = Inr (Get_Pending, Some ''x'')" "route router0 post0 = Inr (Mcp, None)"
  "route router0 (poll0\<lparr>hq_method := ''PUT''\<rparr>) = Inl 405" "route router0 (poll0\<lparr>hq_path := ''/admin''\<rparr>) = Inl 404"
  by (simp_all add: route_def router0_def poll0_def post0_def app_routes_def build_router_def serves_def)


lemma only_mcp_reaches_upstream_witness:
  "w_sent (snd (serve router0 hosted_lib decode1 (\<lambda>_. None) hosted_state (\<lambda>_. env1) poll0 world0)) = [] \<and>
   same_tables conn0 (w_conn (snd (serve router0 hosted_lib decode1 (\<lambda>_. None) hosted_state (\<lambda>_. env1) poll0 world0)))"
proof -
  let ?r = "serve router0 hosted_lib decode1 (\<lambda>_. None) hosted_state (\<lambda>_. env1) poll0 world0"
  have "hq_method poll0 \<noteq> ''POST''" by (simp add: poll0_def)
  moreover have "clock_ok (w_conn world0)" by (simp add: conn0_clock)
  ultimately show ?thesis
    using only_mcp_reaches_upstream [of world0 router0 hosted_lib decode1 "\<lambda>_. None" hosted_state "\<lambda>_. env1" poll0
        "fst ?r" "snd ?r"] by simp
qed

end
