(* ===== verification/Forensics.thy ===== *)
theory Forensics
  imports Sample_Run
begin

text \<open>
  The background task of \<open>src/ledger.rs\<close>: \<open>spawn_server_execution_reconciler\<close> and the gauges of
  \<open>refresh_forensic_metrics\<close>. SQLite's \<open>julianday\<close> is an argument: \<open>julian\<close> reads a text and is \<open>None\<close> on
  one that is no date, \<open>day\<close> is \<open>julianday('now', '-300 seconds')\<close>.
\<close>

section \<open>The gauges\<close>

record forensic_metrics =
  fm_ready :: nat
  fm_oldest_age :: int
  fm_pending :: nat
  fm_missing :: nat

definition min_text :: "string list \<Rightarrow> string option" where
  "min_text xs = (case xs of [] \<Rightarrow> None | x # rest \<Rightarrow> Some (foldl min x rest))"

definition undelivered :: "conn \<Rightarrow> outbox_row list" where
  "undelivered c = filter (\<lambda>o'. ob_delivered_at o' = None) (t_outbox c)"

definition overdue :: "(string \<Rightarrow> rat option) \<Rightarrow> rat \<Rightarrow> execution_row \<Rightarrow> bool" where
  "overdue julian day r \<longleftrightarrow>
     xr_reconciliation_state r = ''pending'' \<and>
     (case julian (xr_created_at r) of None \<Rightarrow> False | Some d \<Rightarrow> d \<le> day)"

definition pending_executions :: "conn \<Rightarrow> execution_row list" where
  "pending_executions c = filter (\<lambda>r. xr_reconciliation_state r = ''pending'') (t_executions c)"

definition refresh_forensic_metrics ::
  "lib \<Rightarrow> (string \<Rightarrow> rat option) \<Rightarrow> rat \<Rightarrow> (sql_error, forensic_metrics) db"
where
  "refresh_forensic_metrics L julian day =
     bind_db (with_connection
       (bind_db (select (\<lambda>c. (length (undelivered c), min_text (map ob_created_at (undelivered c))))) (\<lambda>(ready, oldest).
        bind_db (select (\<lambda>c. (length (pending_executions c), length (filter (overdue julian day) (t_executions c)))))
          (\<lambda>(pending, missing). return_db (ready, oldest, pending, missing)))))
     (\<lambda>(ready, oldest, pending, missing).
      bind_db (case Option.bind oldest (parse_time L) of
          None \<Rightarrow> return_db 0
        | Some value \<Rightarrow> bind_db utc_now (\<lambda>now. return_db (max 0 ((now - value) div 1000000000))))
      (\<lambda>age. return_db
        \<lparr>fm_ready = ready, fm_oldest_age = age, fm_pending = pending, fm_missing = missing\<rparr>))"

section \<open>The background task\<close>

text \<open>
  One round of the loop, after which it sleeps five seconds: an error of either part is only logged, and the
  counter counts the executions that were classified as uncertain.
\<close>

record telemetry =
  tm_uncertain :: nat
  tm_gauges :: "forensic_metrics option"

definition reconciler_round ::
  "lib \<Rightarrow> (string \<Rightarrow> rat option) \<Rightarrow> rat \<Rightarrow> telemetry \<times> conn \<Rightarrow> telemetry \<times> conn"
where
  "reconciler_round L julian day = (\<lambda>(tm, c).
     let (changed, c1) = reconcile_server_executions_once L c;
         (metrics, c2) = refresh_forensic_metrics L julian day c1
     in (tm\<lparr>tm_uncertain := tm_uncertain tm + (case changed of Inl _ \<Rightarrow> 0 | Inr n \<Rightarrow> n),
            tm_gauges := (case metrics of Inl _ \<Rightarrow> tm_gauges tm | Inr m \<Rightarrow> Some m)\<rparr>, c2))"

section \<open>The gauges are accurate\<close>

definition classified :: "execution_row \<Rightarrow> bool" where
  "classified r \<longleftrightarrow>
     xr_state r = ''in_flight'' \<and> xr_reconciliation_state r \<in> {''pending'', ''uncertain''} \<or>
     xr_state r = ''completed'' \<and> xr_reconciliation_state r = ''resolved''"

definition forensic_ok :: "conn \<Rightarrow> bool" where
  "forensic_ok c \<longleftrightarrow> (\<forall>o' \<in> set (t_outbox c). ob_delivered_at o' \<noteq> None) \<and> (\<forall>r \<in> set (t_executions c). classified r)"

definition forensic_step :: "conn \<Rightarrow> conn \<Rightarrow> bool" where
  "forensic_step c c' \<longleftrightarrow> same_env c c' \<and> (forensic_ok c \<longrightarrow> forensic_ok c')"

interpretation forensic: db_relation forensic_step
proof unfold_locales
  show "forensic_step c c'" if "same_tables c c'" "same_env c c'" for c c'
    using that by (simp add: forensic_step_def forensic_ok_def same_tables_def)
  show "same_env c c'" if "forensic_step c c'" for c c'
    using that by (simp add: forensic_step_def)
  show "forensic_step a c" if "forensic_step a b" "forensic_step b c" for a b c
    using that same_env_trans [of a b c] by (simp add: forensic_step_def)
qed

lemma same_rows_forensic:
  "same_env c c' \<Longrightarrow> t_executions c' = t_executions c \<Longrightarrow> t_outbox c' = t_outbox c \<Longrightarrow> forensic_step c c'"
  by (simp add: forensic_step_def forensic_ok_def)

lemma statements_keep_forensic:
  "keeps forensic_step (append_on_connection L req)" "keeps forensic_step (insert_pending p)"
  "keeps forensic_step (update_pendings q f)"
  by (auto intro!: keepsI same_rows_forensic simp: other_tables_def dest: append_frame pending_frame)

lemma insert_execution_forensic: "classified r \<Longrightarrow> keeps forensic_step (insert_execution r)"
  unfolding insert_execution_def
  by (intro forensic.keeps_sql keepsI)
    (auto simp: forensic_step_def forensic_ok_def same_env_def split: if_splits)

lemma insert_outbox_forensic: "keeps forensic_step (insert_outbox (outbox_entry L e x p n))"
  unfolding insert_outbox_def
  by (intro forensic.keeps_sql keepsI)
    (auto simp: forensic_step_def forensic_ok_def same_env_def outbox_entry_def split: if_splits)

lemma update_executions_forensic:
  assumes "\<And>r. p r \<Longrightarrow> classified r \<Longrightarrow> classified (f r)"
  shows "keeps forensic_step (update_executions p f)"
  unfolding update_executions_def using assms
  by (intro forensic.keeps_sql keepsI) (auto simp: forensic_step_def forensic_ok_def same_env_def)

interpretation forensic_ledger: ledger_relation forensic_step L good for L good
proof unfold_locales
  show "keeps forensic_step (append_ledger L req)" for req
    unfolding append_ledger_def by (intro forensic.keeps_with statements_keep_forensic)
  show "keeps forensic_step (begin_server_execution L b)" for b
    by (intro forensic.begin_keeps statements_keep_forensic insert_execution_forensic)
      (simp add: classified_def intent_row_def)
  show "keeps forensic_step (complete_server_execution L b status ct body)" for b status ct body
    by (intro forensic.complete_keeps statements_keep_forensic insert_outbox_forensic update_executions_forensic)
      (simp add: classified_def completed_row_def)
  show "keeps forensic_step (reconcile_server_executions_at L now)" for now
    by (intro forensic.reconcile_keeps statements_keep_forensic insert_outbox_forensic update_executions_forensic)
      (simp add: classified_def uncertain_row_def still_pending_def)
  show "keeps forensic_step (park_pending L q)" for q
    unfolding park_pending_def by (auto intro!: forensic.keeps_rules statements_keep_forensic)
  show "keeps forensic_step (decide_pending_scoped L i tenant d n)" for i tenant d n
    unfolding decide_pending_scoped_def decide_on_connection_def
    by (auto intro!: forensic.keeps_rules statements_keep_forensic)
qed

lemma classified_pending: "classified r \<Longrightarrow> xr_reconciliation_state r = ''pending'' \<longleftrightarrow>
    xr_state r = ''in_flight'' \<and> xr_reconciliation_state r \<noteq> ''uncertain''"
  by (auto simp: classified_def)

lemma refresh_ok:
  assumes "forensic_ok c" "refresh_forensic_metrics L julian day c = (Inr m, c')"
  shows "fm_ready m = 0 \<and> fm_oldest_age m = 0 \<and>
    fm_pending m = length (filter (\<lambda>r. xr_state r = ''in_flight'' \<and> xr_reconciliation_state r \<noteq> ''uncertain'') (t_executions c)) \<and>
    fm_missing m \<le> fm_pending m \<and> same_tables c c'"
proof -
  have "undelivered c = []" using assms(1) by (auto simp: undelivered_def forensic_ok_def filter_empty_conv)
  moreover have "pending_executions c =
      filter (\<lambda>r. xr_state r = ''in_flight'' \<and> xr_reconciliation_state r \<noteq> ''uncertain'') (t_executions c)"
    using assms(1) classified_pending unfolding pending_executions_def forensic_ok_def by (intro filter_cong) auto
  moreover have "filter (overdue julian day) (t_executions c) = filter (overdue julian day) (pending_executions c)"
    unfolding pending_executions_def filter_filter by (intro filter_cong) (auto simp: overdue_def)
  then have "length (filter (overdue julian day) (t_executions c)) \<le> length (pending_executions c)"
    by (metis length_filter_le)
  ultimately show ?thesis using assms(2)
    by (auto simp: refresh_forensic_metrics_def bind_db_def with_connection_def with_connection_result_def select_def
        sql_def return_db_def tick_def undelivered_def min_text_def pending_executions_def same_tables_def split: if_splits)
qed


lemma runs_env:
  assumes "runs L decode decode_decide A good (w, []) (w', ts)" "clock_ok (w_conn w)"
  shows "fault (w_conn w') = fault (w_conn w)"
proof -
  have "fault (w_conn (fst (w', ts))) = fault (w_conn w)"
  proof (rule runs_invariant [OF assms(1)])
    fix s s'
    assume step: "sys_step L decode decode_decide A good s s'" and b: "base_ok good s"
      and p: "fault (w_conn (fst s)) = fault (w_conn w)"
    obtain w1 ts1 w2 ts2 where s: "s = (w1, ts1)" "s' = (w2, ts2)" by fastforce
    from forensic_ledger.sys_step_keeps [of L decode decode_decide A good w1 ts1 w2 ts2] step b s
    have "forensic_step (w_conn w1) (w_conn w2) \<or> (\<exists>i. w_conn w2 = (w_conn w1)\<lparr>instance_id := i\<rparr>)" by simp
    then show "fault (w_conn (fst s')) = fault (w_conn w)" using p by (auto simp: s forensic_step_def same_env_def)
  qed (use assms(2) in \<open>auto simp: base_ok_def\<close>)
  then show ?thesis by simp
qed

lemma refresh_total:
  assumes "fault c = (\<lambda>_. False)"
  shows "\<exists>m c'. refresh_forensic_metrics L julian day c = (Inr m, c')"
  using assms
  by (auto simp: refresh_forensic_metrics_def bind_db_def with_connection_def with_connection_result_def select_def
      sql_def return_db_def utc_now_def tick_def split: prod.split option.split)


section \<open>The backlog is worked off\<close>

text \<open>The intents of other processes that were abandoned by the time \<open>t\<close>.\<close>

definition backlog :: "lib \<Rightarrow> time \<Rightarrow> conn \<Rightarrow> execution_row list" where
  "backlog L t c = filter (abandoned (show_time L (t - 300 * 1000000000)) (instance_id c)) (t_executions c)"

text \<open>Rounds at the times \<open>ts\<close>: how many of them succeeded, and the connection at the end.\<close>

fun rounds :: "lib \<Rightarrow> time list \<Rightarrow> conn \<Rightarrow> nat \<times> conn" where
  "rounds L [] c = (0, c)"
| "rounds L (t # ts) c =
     (let (r, c1) = reconcile_server_executions_at L t c;
          (n, c2) = rounds L ts c1
      in ((if is_ok r then Suc n else n), c2))"

lemma sorted_prefix:
  fixes f :: "'a \<Rightarrow> 'b::linorder"
  shows "sorted (map f xs) \<Longrightarrow> filter (\<lambda>x. f x \<le> a) xs = takeWhile (\<lambda>x. f x \<le> a) xs"
proof (induction xs)
  case (Cons x xs)
  show ?case
  proof (cases "f x \<le> a")
    case False
    then have "filter (\<lambda>x. f x \<le> a) (x # xs) = []" using Cons.prems by (auto simp: filter_empty_conv)
    with False show ?thesis by simp
  qed (use Cons in simp)
qed simp

text \<open>A round takes the oldest rows first, so rows that were abandoned later do not hold up earlier ones.\<close>

lemma oldest_first:
  fixes f :: "'a \<Rightarrow> 'b::linorder"
  assumes "\<And>x. q x \<longleftrightarrow> p x \<and> f x \<le> a"
  shows "length (filter (\<lambda>x. q x \<and> g x \<notin> g ` set (take n (sort_key f (filter p xs)))) xs) \<le> length (filter q xs) - n"
proof -
  let ?S = "sort_key f (filter p xs)"
  let ?ids = "g ` set (take n ?S)"
  let ?P = "takeWhile (\<lambda>x. f x \<le> a) ?S"
  have q: "filter q xs = filter (\<lambda>x. f x \<le> a) (filter p xs)"
    using assms by (auto intro: filter_cong)
  have P: "mset ?P = mset (filter q xs)"
    unfolding q sorted_prefix [OF sorted_sort_key, symmetric] by (simp only: mset_filter mset_sort)
  have size: "length (filter h xs') = size (filter_mset h (mset xs'))" for h and xs' :: "'a list"
    by (simp only: size_mset flip: mset_filter)
  have "length (filter (\<lambda>x. g x \<notin> ?ids) (filter q xs)) = length (filter (\<lambda>x. g x \<notin> ?ids) ?P)"
    by (simp only: size P)
  then have "length (filter (\<lambda>x. q x \<and> g x \<notin> ?ids) xs) = length (filter (\<lambda>x. g x \<notin> ?ids) ?P)"
    by (simp only: filter_filter)
  moreover have "filter (\<lambda>x. g x \<notin> ?ids) (take n ?P) = []"
  proof -
    have "set (take n ?P) \<subseteq> set (take n ?S)"
      using takeWhile_dropWhile_id [of "\<lambda>x. f x \<le> a" ?S] by (metis set_append sup_ge1 take_append)
    then show ?thesis by (auto simp: filter_empty_conv)
  qed
  then have "length (filter (\<lambda>x. g x \<notin> ?ids) ?P) \<le> length (drop n ?P)"
    by (metis append_Nil append_take_drop_id filter_append length_filter_le)
  moreover have "length ?P = length (filter q xs)" using P by (metis size_mset)
  ultimately show ?thesis by simp
qed

abbreviation cutoff :: "lib \<Rightarrow> time \<Rightarrow> string" where
  "cutoff L t \<equiv> show_time L (t - 300 * 1000000000)"

lemma abandoned_marked: "abandoned limit this (marked now ids x) \<longleftrightarrow> abandoned limit this x \<and> xr_execution_id x \<notin> ids"
  by (auto simp: abandoned_def marked_def still_pending_def uncertain_row_def)

lemma round_env:
  assumes "reconcile_server_executions_at L t c = (r, c')" "clock_ok c"
  shows "instance_id c' = instance_id c" "clock_ok c'"
  using keepsD [OF forensic_ledger.reconciles assms(2,1)] assms(2) forensic.rel_clock
  by (auto simp: forensic_step_def same_env_def)

lemma round_backlog:
  assumes "reconcile_server_executions_at L t c = (r, c')" "clock_ok c" "cutoff L t0 \<le> cutoff L t"
  shows "length (backlog L t0 c') \<le> length (backlog L t0 c) - (if is_ok r then 256 else 0)"
  using reconcile_cases [OF assms(1)]
proof (elim disjE exE conjE)
  fix e
  assume "r = Inl e" "same_tables c c'"
  then show ?thesis using round_env(1) [OF assms(1,2)] by (simp add: backlog_def same_tables_def)
next
  fix rows es
  assume r: "r = Inr (length rows)" and rows: "rows = abandoned_rows (cutoff L t) (instance_id c) c"
    and ex: "t_executions c' = map (marked (show_time L t) (set (map xr_execution_id rows))) (t_executions c)"
  let ?q = "abandoned (cutoff L t0) (instance_id c)"
  have "?q x \<longleftrightarrow> abandoned (cutoff L t) (instance_id c) x \<and> xr_created_at x \<le> cutoff L t0" for x
    using assms(3) by (auto simp: abandoned_def)
  note oldest = oldest_first [of ?q "abandoned (cutoff L t) (instance_id c)" xr_created_at "cutoff L t0" xr_execution_id 256,
      OF this]
  have "backlog L t0 c' = map (marked (show_time L t) (set (map xr_execution_id rows)))
      (filter (\<lambda>x. ?q x \<and> xr_execution_id x \<notin> set (map xr_execution_id rows)) (t_executions c))"
    unfolding backlog_def ex round_env(1) [OF assms(1,2)] by (simp add: filter_map comp_def abandoned_marked)
  then have "length (backlog L t0 c') = length (filter (\<lambda>x. ?q x \<and> xr_execution_id x \<notin>
      xr_execution_id ` set (take 256 (sort_key xr_created_at (filter (abandoned (cutoff L t) (instance_id c)) (t_executions c)))))
      (t_executions c))"
    by (simp add: rows abandoned_rows_def)
  then show ?thesis using oldest [of "t_executions c"] by (simp add: r backlog_def)
qed

text \<open>
  C26. The reconciler gets done: when \<open>n\<close> rounds at or after a time \<open>t\<close> succeed, at most the part of the backlog
  of \<open>t\<close> beyond 256 rows per round is left, however many rounds fail in between and however many intents
  are abandoned after \<open>t\<close>; each round takes the oldest rows first.
\<close>

theorem reconciler_drains_backlog:
  assumes "time_order_ok L" "clock_ok c" "\<forall>s \<in> set ts. t \<le> s \<and> time_ok (s - 300 * 1000000000)"
    and "time_ok (t - 300 * 1000000000)" "rounds L ts c = (n, c')"
  shows "length (backlog L t c') \<le> length (backlog L t c) - 256 * n"
  using assms(2,3,5)
proof (induction ts arbitrary: c n)
  case (Cons s ts)
  obtain r c1 where r: "reconcile_server_executions_at L s c = (r, c1)" by fastforce
  obtain m where m: "rounds L ts c1 = (m, c')" "n = (if is_ok r then Suc m else m)"
    using Cons.prems(3) r by (auto split: prod.splits)
  have "cutoff L t \<le> cutoff L s"
    using Cons.prems(2) assms(1,4) unfolding time_order_ok_def by (simp add: not_less [symmetric])
  from round_backlog [OF r Cons.prems(1) this]
  have "length (backlog L t c1) \<le> length (backlog L t c) - (if is_ok r then 256 else 0)" .
  moreover have "length (backlog L t c') \<le> length (backlog L t c1) - 256 * m"
    using Cons.IH [OF round_env(2) [OF r Cons.prems(1)] _ m(1)] Cons.prems(2) by simp
  ultimately show ?case by (auto simp: m(2) split: if_splits)
qed simp

theorem reconciler_drains_backlog_witness:
  "\<exists>c'. rounds lib0 [400 * 1000000000] conn_abandoned = (1, c') \<and>
     length (backlog lib0 (400 * 1000000000) conn_abandoned) = 1 \<and> backlog lib0 (400 * 1000000000) c' = []"
proof -
  obtain c1 where c1: "reconcile_server_executions_at lib0 (400 * 1000000000) conn_abandoned = (Inr 1, c1)"
    using run_abandoned by blast
  then have r: "rounds lib0 [400 * 1000000000] conn_abandoned = (1, c1)" by simp
  have "length (backlog lib0 (400 * 1000000000) conn_abandoned) = 1"
    by (simp add: run_simps conn_abandoned_def backlog_def abandoned_def marks_le year_zero_def)
  moreover have "clock_ok conn_abandoned" using conn0_clock by (simp add: conn_abandoned_def clock_ok_def)
  moreover have "time_order_ok lib0" by (simp add: lib0_def sample_time_order)
  ultimately show ?thesis
    using reconciler_drains_backlog [OF _ _ _ _ r, of "400 * 1000000000"] r by (auto simp: time_ok_def)
qed

end
