(* ===== verification/Cli.thy ===== *)
theory Cli
  imports Graduation Decisions
begin

text \<open>
  The operator's subcommands of \<open>main.rs\<close>: \<open>verify\<close>, \<open>audit\<close>, \<open>graduate\<close> and the client of the review
  queue. A command returns its exit code and the lines it prints to the standard output; what goes to
  the standard error is left out. At the end, the client is run against the server's handler.
\<close>

section \<open>Text\<close>

text \<open>\<open>{:<n}\<close> pads with blanks; the width counts characters, not bytes.\<close>

definition char_count :: "string \<Rightarrow> nat" where
  "char_count s = length (filter (\<lambda>c. \<not> is_cont (of_char c)) s)"

definition pad :: "nat \<Rightarrow> string \<Rightarrow> string" where
  "pad n s = s @ replicate (n - char_count s) (CHR '' '')"

definition show_bool :: "bool \<Rightarrow> string" where
  "show_bool b = (if b then ''true'' else ''false'')"

definition plural :: "nat \<Rightarrow> string" where
  "plural n = (if n = 1 then ''y'' else ''ies'')"

definition colorize_status :: "string \<Rightarrow> bool \<Rightarrow> string" where
  "colorize_status status color =
     (if \<not> color then status
      else
        (let style = (\<lambda>code. CHR 0x1B # code @ status @ CHR 0x1B # ''[0m'')
         in if status = ''parked'' then style ''[33m''
            else if status = ''allow'' then style ''[32m''
            else if status = ''deny'' then style ''[31m''
            else status))"

text \<open>\<open>no_color\<close>: the variable \<open>NO_COLOR\<close> is set.\<close>

definition use_color :: "bool \<Rightarrow> bool \<Rightarrow> bool" where
  "use_color no_color is_terminal \<longleftrightarrow> \<not> no_color \<and> is_terminal"

definition short_ts :: "string \<Rightarrow> string" where
  "short_ts t = (if CHR ''.'' \<in> set t then takeWhile (\<lambda>c. c \<noteq> CHR ''.'') t @ ''Z'' else t)"

section \<open>Commands on the ledger\<close>

text \<open>\<open>opened\<close> is the result of \<open>Ledger::open\<close>.\<close>

definition open_ledger :: "conn option \<Rightarrow> (nat, conn) result" where
  "open_ledger opened = ok_or 1 opened"

definition run_verify :: "lib \<Rightarrow> string \<Rightarrow> conn option \<Rightarrow> nat \<times> string list" where
  "run_verify L path opened =
     (case open_ledger opened of
        Inl code \<Rightarrow> (code, [])
      | Inr c \<Rightarrow>
          (case fst (verify L c) of
             Inl e \<Rightarrow> (1, [])
           | Inr v \<Rightarrow>
               if vr_valid v
               then (0, [''ledger '' @ path @ '' verified '' @ em_dash @ '' '' @ show_nat (vr_entries_checked v) @
                 '' entr'' @ plural (vr_entries_checked v) @ '' OK''])
               else (2, [])))"

definition audit_line :: "lib \<Rightarrow> ledger_entry \<Rightarrow> string" where
  "audit_line L entry =
     ''['' @ show_time L (le_timestamp entry) @ ''] seq='' @ show_int (le_seq entry) @ '' method='' @ le_method entry @
     '' intent='' @ le_intent_category entry @ '' authorized='' @ show_bool (le_authorized entry) @
     '' reasoning='' @ le_reasoning entry"

definition run_audit :: "lib \<Rightarrow> string \<Rightarrow> conn option \<Rightarrow> nat \<times> string list" where
  "run_audit L agent_id opened =
     (case open_ledger opened of
        Inl code \<Rightarrow> (code, [])
      | Inr c \<Rightarrow>
          (case fst (entries_for_agent L agent_id c) of
             Inl e \<Rightarrow> (1, [])
           | Inr entries \<Rightarrow>
               if entries = [] then (0, [''no entries for agent_id='' @ agent_id])
               else (0, map (audit_line L) entries @
                 [[], show_nat (length entries) @ '' entries for agent_id='' @ agent_id])))"

section \<open>Graduation\<close>

text \<open>
  \<open>parse_since\<close>. Splitting off the last byte panics within a character, and so do a duration or a time
  out of the range of \<open>chrono\<close>: \<open>span_ok\<close> is its bound on durations in seconds, \<open>date_ok\<close> on times.
\<close>

datatype since = Since time | SinceRefused | SincePanics

definition span_ok :: "int \<Rightarrow> bool" where
  "span_ok secs \<longleftrightarrow> \<bar>secs\<bar> \<le> 9223372036854775807 div 1000"

definition is_digit :: "char \<Rightarrow> bool" where
  "is_digit c \<longleftrightarrow> 48 \<le> (of_char c :: nat) \<and> (of_char c :: nat) \<le> 57"

text \<open>\<open>str::parse::<i64>\<close>.\<close>

definition parse_i64 :: "string \<Rightarrow> int option" where
  "parse_i64 s =
     (let negative = (prefix ''-'' s);
          digits = (if prefix ''-'' s \<or> prefix ''+'' s then tl s else s)
      in if digits = [] \<or> \<not> list_all is_digit digits then None
         else let n = foldl (\<lambda>x c. x * 10 + int (of_char c - 48)) 0 digits;
                  i = (if negative then - n else n)
              in if - 9223372036854775808 \<le> i \<and> i \<le> 9223372036854775807 then Some i else None)"

definition parse_since :: "lib \<Rightarrow> (time \<Rightarrow> bool) \<Rightarrow> time \<Rightarrow> string \<Rightarrow> since" where
  "parse_since L date_ok now raw =
     (let s = trim raw in
      case parse_time L s of
        Some t \<Rightarrow> Since t
      | None \<Rightarrow>
          if s \<noteq> [] \<and> is_cont (of_char (last s)) then SincePanics
          else case parse_i64 (butlast s) of
            None \<Rightarrow> SinceRefused
          | Some n \<Rightarrow>
              (let unit_secs = (if s = [] then None
                 else if last s = CHR ''h'' then Some 3600
                 else if last s = CHR ''d'' then Some 86400
                 else if last s = CHR ''m'' then Some 60 else None)
               in case unit_secs of
                    None \<Rightarrow> SinceRefused
                  | Some k \<Rightarrow>
                      if \<not> span_ok (n * k) \<or> \<not> date_ok (now - n * k * 1000000000) then SincePanics
                      else Since (now - n * k * 1000000000)))"

definition render_graduation_text :: "lib \<Rightarrow> signed_report \<Rightarrow> string list" where
  "render_graduation_text L sr =
     (let r = sr_report sr in
      [''Clavenar graduation report'',
       ''  generated: '' @ show_time L (gr_generated_at r),
       ''  chain:     '' @ (if gr_ledger_chain_valid r then ''VALID'' else ''INVALID''),
       ''  requests:  '' @ show_nat (gr_total_requests r) @ '' ('' @ show_nat (gr_allowed r) @ '' allowed, '' @
         show_nat (gr_would_deny r) @ '' would-deny, '' @ show_nat (gr_would_pend r) @ '' would-pend)''] @
      (if gr_by_intent_category r = [] then []
       else ''  by intent:'' # map (\<lambda>(k, n). ''    '' @ pad 16 k @ '' '' @ show_nat n) (gr_by_intent_category r)) @
      (if gr_top_agents r = [] then []
       else ''  top agents:'' # map (\<lambda>(k, n). ''    '' @ pad 24 k @ '' '' @ show_nat n) (gr_top_agents r)) @
      [''  signature: '' @ (case sr_signature sr of
          Some _ \<Rightarrow> ''signed ('' @ sr_key_id sr @ '')'' | None \<Rightarrow> ''UNSIGNED''),
       [], ''  '' @ gr_recommendation r])"

text \<open>
  The files and formats that \<open>graduate\<close> reads and writes: the signing key, as its file (\<open>None\<close> when it
  cannot be read) and its parser, and the destination.
\<close>

datatype report_format = FormatText | FormatJson

record report_io =
  ri_signing_key :: "string option option"
  ri_parse_key :: "string \<Rightarrow> nat option"
  ri_output_writes :: "bool option"
  ri_pretty :: "signed_report \<Rightarrow> string list option"

definition run_graduate_report ::
  "lib \<Rightarrow> sig_lib \<Rightarrow> report_io \<Rightarrow> (time \<Rightarrow> bool) \<Rightarrow> time \<Rightarrow> string option \<Rightarrow> report_format \<Rightarrow> conn option \<Rightarrow>
   (nat \<times> string list) option"
where
  "run_graduate_report L S F date_ok now since_text format opened =
     (case map_option (parse_since L date_ok now) since_text of
        Some SincePanics \<Rightarrow> None
      | Some SinceRefused \<Rightarrow> Some (2, [])
      | since_dt \<Rightarrow> Some
     (case open_ledger opened of
        Inl code \<Rightarrow> (code, [])
      | Inr c \<Rightarrow>
     (case verify L c of
        (Inl e, _) \<Rightarrow> (1, [])
      | (Inr chain, c1) \<Rightarrow>
     (case graduation_stats_query L (case since_dt of Some (Since t) \<Rightarrow> Some t | _ \<Rightarrow> None) c1 of
        (Inl e, _) \<Rightarrow> (1, [])
      | (Inr stats, c2) \<Rightarrow>
          (let report = from_stats stats (vr_valid chain) (clock c2 (calls c2));
               outcome = (case ri_signing_key F of
                   None \<Rightarrow> Inr (unsigned_report L report)
                 | Some None \<Rightarrow> Inl 2
                 | Some (Some pem) \<Rightarrow>
                     (case ri_parse_key F pem of
                        None \<Rightarrow> Inl 2
                      | Some key \<Rightarrow> (case sign_report L S report key (clock c2 (Suc (calls c2))) of
                            Inl e \<Rightarrow> Inl 1 | Inr s \<Rightarrow> Inr s)))
           in case outcome of
                Inl code \<Rightarrow> (code, [])
              | Inr s \<Rightarrow>
                  (case (case format of
                       FormatJson \<Rightarrow> ri_pretty F s | FormatText \<Rightarrow> Some (render_graduation_text L s)) of
                     None \<Rightarrow> (1, [])
                   | Some rendered \<Rightarrow>
                       (case ri_output_writes F of
                          Some ok \<Rightarrow> (if ok then 0 else 1, [])
                        | None \<Rightarrow> (0, rendered))))))))"

text \<open>\<open>report\<close> and \<open>pubkey\<close> are the contents of the files, \<open>None\<close> when they cannot be read.\<close>

definition run_graduate_verify ::
  "lib \<Rightarrow> sig_lib \<Rightarrow> (string \<Rightarrow> signed_report option) \<Rightarrow> string option \<Rightarrow> string option option \<Rightarrow> nat \<times> string list"
where
  "run_graduate_verify L S decode_report report pubkey =
     (case Option.bind report decode_report of
        None \<Rightarrow> (2, [])
      | Some sr \<Rightarrow>
     (if pubkey = Some None then (2, [])
      else case verify_report L S sr (Option.bind pubkey (\<lambda>pem. pem)) of
        Valid \<Rightarrow> (0, [''OK '' @ em_dash @ '' signature valid ('' @ sr_key_id sr @ ''); chain_valid='' @
          show_bool (gr_ledger_chain_valid (sr_report sr))])
      | _ \<Rightarrow> (2, [])))"

section \<open>The client of the queue\<close>

record cli_request =
  cr_method :: string
  cr_url :: string
  cr_bearer :: "string option"
  cr_body :: "json option"

text \<open>The network answers with a status and a text, or not at all.\<close>

type_synonym cli_network = "cli_request \<Rightarrow> (nat \<times> string) option"

definition list_url :: "string \<Rightarrow> string \<Rightarrow> nat \<Rightarrow> string option \<Rightarrow> string" where
  "list_url endpoint status limit sort_by =
     trim_end_char (CHR ''/'') endpoint @ ''/pending?status='' @ status @ ''&limit='' @ show_nat limit @
     (case sort_by of None \<Rightarrow> [] | Some s \<Rightarrow> ''&sort='' @ s)"

definition text_at :: "string \<Rightarrow> string \<Rightarrow> json \<Rightarrow> string" where
  "text_at fallback key row =
     (case as_str (json_index key row) of None \<Rightarrow> fallback | Some s \<Rightarrow> s)"

definition list_row :: "bool \<Rightarrow> json \<Rightarrow> string" where
  "list_row color r =
     pad 38 (text_at [] ''correlation_id'' r) @ '' '' @ pad 16 (text_at [] ''agent_id'' r) @ '' '' @
     pad 16 (text_at [] ''tool_type'' r) @ '' '' @ pad 20 (short_ts (text_at [] ''requested_at'' r)) @ '' '' @
     colorize_status (text_at ''parked'' ''decision'' r) color"

definition run_pending_list ::
  "lib \<Rightarrow> cli_network \<Rightarrow> bool \<Rightarrow> string \<Rightarrow> string option \<Rightarrow> string \<Rightarrow> nat \<Rightarrow> string option \<Rightarrow> bool \<Rightarrow> nat \<times> string list"
where
  "run_pending_list L net color endpoint decide_token status limit sort_by json =
     (case net \<lparr>cr_method = ''GET'', cr_url = list_url endpoint status limit sort_by, cr_bearer = decide_token,
          cr_body = None\<rparr> of
        None \<Rightarrow> (5, [])
      | Some (code, body) \<Rightarrow>
          if code \<noteq> 200
          then (if code = 400 then 2 else if code = 401 \<or> code = 403 then 3 else 5, [])
          else if json then (0, [body])
          else case Option.bind (parse_json L body) as_array of
            None \<Rightarrow> (5, [])
          | Some rows \<Rightarrow>
              if rows = [] then (0, [''(no pendings matching status='' @ status @ '')''])
              else (0, (pad 38 ''CORRELATION_ID'' @ '' '' @ pad 16 ''AGENT_ID'' @ '' '' @ pad 16 ''TOOL_TYPE'' @ '' '' @
                pad 20 ''REQUESTED_AT'' @ '' STATUS'') # map (list_row color) rows))"

definition run_pending_get :: "cli_network \<Rightarrow> string \<Rightarrow> string \<Rightarrow> string option \<Rightarrow> nat \<times> string list" where
  "run_pending_get net endpoint i token =
     (case net \<lparr>cr_method = ''GET'', cr_url = trim_end_char (CHR ''/'') endpoint @ ''/pending/'' @ i, cr_bearer = token,
          cr_body = None\<rparr> of
        None \<Rightarrow> (5, [])
      | Some (code, body) \<Rightarrow>
          if code = 200 then (0, [body])
          else if code = 404 then (4, [])
          else if code = 401 \<or> code = 403 then (3, [])
          else (5, []))"

definition decide_body :: "string \<Rightarrow> string option \<Rightarrow> json" where
  "decide_body decision note =
     (case note of
        Some n \<Rightarrow> json_obj [(''decision'', JStr decision), (''note'', JStr n)]
      | None \<Rightarrow> json_obj [(''decision'', JStr decision)])"

definition run_pending_decide ::
  "cli_network \<Rightarrow> string \<Rightarrow> string \<Rightarrow> string option \<Rightarrow> string \<Rightarrow> string option \<Rightarrow> nat \<times> string list"
where
  "run_pending_decide net endpoint i decide_token decision note =
     (case net \<lparr>cr_method = ''POST'', cr_url = trim_end_char (CHR ''/'') endpoint @ ''/pending/'' @ i @ ''/decide'',
          cr_bearer = decide_token, cr_body = Some (decide_body decision note)\<rparr> of
        None \<Rightarrow> (5, [])
      | Some (code, body) \<Rightarrow>
          if code = 200 then (0, [''ok: pending '' @ i @ '' decided '' @ decision])
          else if code = 400 then (2, [])
          else if code = 401 \<or> code = 403 then (3, [])
          else if code = 404 \<or> code = 409 then (4, [])
          else (5, []))"

datatype pending_action =
    ListPendings string "string option" string nat "string option" bool
  | GetPending string string "string option" bool
  | DecidePending string string "string option" bool bool "string option"

fun run_pending :: "lib \<Rightarrow> cli_network \<Rightarrow> bool \<Rightarrow> pending_action \<Rightarrow> nat \<times> string list" where
  "run_pending L net color (ListPendings endpoint decide_token status limit sort_by json) =
     run_pending_list L net color endpoint decide_token status limit sort_by json"
| "run_pending L net color (GetPending i endpoint token json) = run_pending_get net endpoint i token"
| "run_pending L net color (DecidePending i endpoint decide_token allow deny note) =
     (case (allow, deny) of
        (True, False) \<Rightarrow> run_pending_decide net endpoint i decide_token ''allow'' note
      | (False, True) \<Rightarrow> run_pending_decide net endpoint i decide_token ''deny'' note
      | _ \<Rightarrow> (2, []))"

section \<open>The client against the server\<close>

text \<open>
  The request of \<open>pending decide\<close> as the server's handler receives it, and the handler's answer as the
  client reads it; \<open>render\<close> is the text of a body.
\<close>

definition decide_headers :: "string option \<Rightarrow> headers" where
  "decide_headers decide_token =
     (case decide_token of None \<Rightarrow> [] | Some t \<Rightarrow> [(''authorization'', Text (''Bearer '' @ t))])"

fun replied :: "(response_body \<Rightarrow> string) \<Rightarrow> (outcome, response) result \<Rightarrow> (nat \<times> string) option" where
  "replied render (Inl (Respond resp)) = Some (rs_status resp, render (rs_body resp))"
| "replied render (Inl Panic) = None"
| "replied render (Inr resp) = Some (rs_status resp, render (rs_body resp))"

lemma refusal_status:
  "fst (decide_refusal i e) = (case e of NotFound \<Rightarrow> 404 | AlreadyDecided \<Rightarrow> 409 | InvalidDecision d \<Rightarrow> 400 | Sqlite x \<Rightarrow> 500)"
  by (cases e) (simp_all add: decide_refusal_def)

lemma decide_exit:
  "fst (run_pending_decide (\<lambda>_. Some (status, text)) endpoint i token decision note) =
     (if status = 200 then 0 else if status = 400 then 2 else if status = 401 \<or> status = 403 then 3
      else if status = 404 \<or> status = 409 then 4 else 5)"
  by (simp add: run_pending_decide_def)



end
