(* ===== verification/Snapshot.thy ===== *)
theory Snapshot
  imports Cli Paths
begin

text \<open>
  The subcommands \<open>backup\<close> and \<open>restore\<close> of \<open>main.rs\<close> over a disk. A disk maps paths to the bytes of
  files, SQLite's journals among them; paths are UTF-8 texts. SQLite itself is an argument: what opening
  a database and dropping its connection do to the disk, and the online backup.
\<close>

section \<open>The disk\<close>

type_synonym disk = "string \<rightharpoonup> string"

record sqlite =
  sq_open :: "disk \<Rightarrow> string \<Rightarrow> conn option \<times> disk"
  sq_close :: "disk \<Rightarrow> string \<Rightarrow> conn \<Rightarrow> disk"
  sq_backup :: "conn \<Rightarrow> disk \<Rightarrow> string \<Rightarrow> nat option \<times> disk"

text \<open>Which calls of \<open>std::fs\<close> fail, and what a failed copy leaves behind.\<close>

record fs_env =
  fe_copy_fails :: bool
  fe_partial_copy :: "string option"
  fe_rename_fails :: bool
  fe_remove_fails :: "string \<Rightarrow> bool"

definition remove_file :: "fs_env \<Rightarrow> string \<Rightarrow> disk \<Rightarrow> disk" where
  "remove_file F p d = (if fe_remove_fails F p then d else d(p := None))"

text \<open>\<open>std::fs::copy\<close> truncates a file that is copied onto itself.\<close>

definition copy_file :: "fs_env \<Rightarrow> string \<Rightarrow> string \<Rightarrow> disk \<Rightarrow> bool \<times> disk" where
  "copy_file F from_path to_path d =
     (case d from_path of
        None \<Rightarrow> (False, d)
      | Some bytes \<Rightarrow>
          if fe_copy_fails F then (False, d(to_path := fe_partial_copy F))
          else (True, d(to_path := Some (if from_path = to_path then [] else bytes))))"

definition rename_file :: "fs_env \<Rightarrow> string \<Rightarrow> string \<Rightarrow> disk \<Rightarrow> bool \<times> disk" where
  "rename_file F from_path to_path d =
     (if fe_rename_fails F \<or> d from_path = None then (False, d)
      else (True, d(from_path := None, to_path := d from_path)))"

section \<open>Paths\<close>

definition restore_tmp :: "string \<Rightarrow> string" where
  "restore_tmp ledger_path =
     path_join (case path_parent ledger_path of None \<Rightarrow> ''.'' | Some p \<Rightarrow> p)
       (''.'' @ (case path_file_name ledger_path of None \<Rightarrow> ''clavenar-lite.db'' | Some n \<Rightarrow> n) @ ''.restore-tmp'')"

section \<open>Backup\<close>

text \<open>
  \<open>Ledger::backup_to\<close>: what is at the destination is removed first; \<open>sq_backup\<close> opens the destination and copies the
  pages.
\<close>

definition backup_to :: "sqlite \<Rightarrow> fs_env \<Rightarrow> conn \<Rightarrow> string \<Rightarrow> disk \<Rightarrow> nat option \<times> disk" where
  "backup_to S F ledger dest_path d =
     (if fault ledger (calls ledger) then (None, d)
      else sq_backup S ledger (remove_file F dest_path d) dest_path)"

definition run_backup :: "lib \<Rightarrow> sqlite \<Rightarrow> fs_env \<Rightarrow> string \<Rightarrow> string \<Rightarrow> disk \<Rightarrow> nat \<times> disk" where
  "run_backup L S F ledger_path output d =
     (if d ledger_path = None then (1, d)
      else case sq_open S d ledger_path of
        (None, d1) \<Rightarrow> (1, d1)
      | (Some ledger, d1) \<Rightarrow>
     (case backup_to S F ledger output d1 of
        (None, d2) \<Rightarrow> (1, sq_close S (remove_file F output d2) ledger_path ledger)
      | (Some pages, d2) \<Rightarrow>
     (case sq_open S d2 output of
        (None, d3) \<Rightarrow> (2, sq_close S d3 ledger_path ledger)
      | (Some snapshot, d3) \<Rightarrow>
          (let (code, d4) = (case verify L snapshot of
                 (Inr v, c) \<Rightarrow> if vr_valid v then (0, d3) else (2, remove_file F output d3)
               | (Inl e, c) \<Rightarrow> (1, d3))
           in (code, sq_close S (sq_close S d4 output snapshot) ledger_path ledger)))))"

text \<open>A backup that is reported as done opened and verified.\<close>

lemma backup_verified:
  assumes "run_backup L S F ledger_path output d = (0, d')"
  shows "\<exists>ledger d1 pages d2 snapshot d3 v c. sq_open S d ledger_path = (Some ledger, d1) \<and>
    backup_to S F ledger output d1 = (Some pages, d2) \<and> sq_open S d2 output = (Some snapshot, d3) \<and>
    verify L snapshot = (Inr v, c) \<and> vr_valid v"
  using assms by (auto simp: run_backup_def Let_def split: if_splits option.splits prod.splits sum.splits)

section \<open>Restore\<close>

text \<open>The check of a ledger file: its exit code when the chain verifies, is broken, or cannot be read.\<close>

definition verify_code :: "lib \<Rightarrow> conn \<Rightarrow> nat \<times> conn" where
  "verify_code L c =
     (case verify L c of
        (Inr v, c') \<Rightarrow> (if vr_valid v then 0 else 2, c')
      | (Inl e, c') \<Rightarrow> (1, c'))"

definition run_restore ::
  "lib \<Rightarrow> sqlite \<Rightarrow> fs_env \<Rightarrow> string \<Rightarrow> string \<Rightarrow> bool \<Rightarrow> disk \<Rightarrow> nat \<times> disk"
where
  "run_restore L S F input_path ledger_path force d =
     (if d input_path = None then (1, d)
      else case sq_open S d input_path of
        (None, d1) \<Rightarrow> (1, d1)
      | (Some snapshot, d1) \<Rightarrow>
     (case verify_code L snapshot of (code, c1) \<Rightarrow>
       let d2 = sq_close S d1 input_path c1 in
       if code \<noteq> 0 then (code, d2)
       else if d2 ledger_path \<noteq> None \<and> \<not> force then (1, d2)
       else case copy_file F input_path (restore_tmp ledger_path) d2 of
         (False, d3) \<Rightarrow> (1, remove_file F (restore_tmp ledger_path) d3)
       | (True, d3) \<Rightarrow>
      (case rename_file F (restore_tmp ledger_path) ledger_path
          (remove_file F (ledger_path @ ''-shm'') (remove_file F (ledger_path @ ''-wal'') d3)) of
         (False, d4) \<Rightarrow> (1, remove_file F (restore_tmp ledger_path) d4)
       | (True, d4) \<Rightarrow>
      (case sq_open S d4 ledger_path of
         (None, d5) \<Rightarrow> (2, d5)
       | (Some restored, d5) \<Rightarrow>
          (case verify_code L restored of (code', c2) \<Rightarrow> (code', sq_close S d5 ledger_path c2))))))"

section \<open>An invalid snapshot never lands on the disk\<close>

text \<open>SQLite touches the database and its two journals only.\<close>

definition family :: "string \<Rightarrow> string set" where
  "family p = {p, p @ ''-wal'', p @ ''-shm''}"

definition sqlite_local :: "sqlite \<Rightarrow> bool" where
  "sqlite_local S \<longleftrightarrow>
     (\<forall>d p q. q \<notin> family p \<longrightarrow> snd (sq_open S d p) q = d q \<and> (\<forall>c. sq_close S d p c q = d q))"

lemma sqlite_localD:
  assumes "sqlite_local S" "q \<notin> family p"
  shows "sq_open S d p = (r, d') \<Longrightarrow> d' q = d q" "sq_close S d p c q = d q"
  using assms by (auto simp: sqlite_local_def) (metis snd_conv)

lemma path_join_append: "path_join p (x @ s) = path_join p x @ s"
  by (simp add: path_join_def)

lemma restore_tmp_suffix: "suffix ''.restore-tmp'' (restore_tmp p)"
  unfolding restore_tmp_def append_assoc [symmetric] path_join_append by (rule suffixI) (rule refl)

lemma journal_not_tmp: "restore_tmp p \<noteq> q @ ''-wal''" "restore_tmp p \<noteq> q @ ''-shm''"
  using restore_tmp_suffix [of p] by (auto simp: suffix_def append_eq_append_conv2 Cons_eq_append_conv)

lemma verify_code_0: "verify_code L c = (0, c') \<longleftrightarrow> (\<exists>v. verify L c = (Inr v, c') \<and> vr_valid v)"
  by (auto simp: verify_code_def split: prod.splits sum.splits if_splits)

lemma remove_other: "p \<noteq> q \<Longrightarrow> remove_file F p d q = d q"
  by (simp add: remove_file_def)

lemma copy_file_result:
  assumes "copy_file F a b d = (ok, d')"
  shows "q \<noteq> b \<Longrightarrow> d' q = d q" "ok \<Longrightarrow> a \<noteq> b \<Longrightarrow> d' b = d a \<and> d a \<noteq> None"
  using assms by (auto simp: copy_file_def split: option.splits if_splits)

lemma rename_file_result:
  assumes "rename_file F a b d = (ok, d')" "a \<noteq> b"
  shows "\<not> ok \<Longrightarrow> d' = d" "ok \<Longrightarrow> d' b = d a"
  using assms by (auto simp: rename_file_def split: if_splits)

text \<open>The run on a snapshot that opens, with its copy and its rename.\<close>

lemma restore_opened:
  assumes "d input_path \<noteq> None" "sq_open S d input_path = (Some c, d1)" "verify_code L c = (k, c1)"
    and "d2 = sq_close S d1 input_path c1" "copy_file F input_path (restore_tmp ledger_path) d2 = (copied, d3)"
    and "rename_file F (restore_tmp ledger_path) ledger_path
      (remove_file F (ledger_path @ ''-shm'') (remove_file F (ledger_path @ ''-wal'') d3)) = (renamed, d4)"
  shows "run_restore L S F input_path ledger_path force d =
    (if k \<noteq> 0 then (k, d2) else if d2 ledger_path \<noteq> None \<and> \<not> force then (1, d2)
     else if \<not> copied then (1, remove_file F (restore_tmp ledger_path) d3)
     else if \<not> renamed then (1, remove_file F (restore_tmp ledger_path) d4)
     else case sq_open S d4 ledger_path of (None, d5) \<Rightarrow> (2, d5)
     | (Some restored, d5) \<Rightarrow> (case verify_code L restored of (code', c2) \<Rightarrow> (code', sq_close S d5 ledger_path c2)))"
  using assms by (simp add: run_restore_def Let_def del: not_None_eq split: bool.split)

lemma moved_over:
  assumes "copy_file F input_path tmp d2 = (ok3, d3)" "rename_file F tmp ledger_path clean = (ok4, d4)"
    and "clean tmp = d3 tmp" "tmp \<notin> {ledger_path, input_path}" "ok3" "ok4"
  shows "d4 ledger_path = d2 input_path" "d4 ledger_path \<noteq> None"
proof -
  have "d4 ledger_path = d3 tmp" using rename_file_result(2) [OF assms(2)] assms by auto
  moreover have "d3 tmp = d2 input_path" "d2 input_path \<noteq> None"
    using copy_file_result(2) [OF assms(1,5)] assms(4) by auto
  ultimately show "d4 ledger_path = d2 input_path" "d4 ledger_path \<noteq> None" by simp_all
qed


text \<open>A disk on which every database opens as the empty ledger.\<close>

definition sqlite0 :: sqlite where
  "sqlite0 = \<lparr>sq_open = (\<lambda>d p. (map_option (\<lambda>_. conn0) (d p), d)), sq_close = (\<lambda>d p c. d),
     sq_backup = (\<lambda>c d p. (Some 1, d(p \<mapsto> ''s'')))\<rparr>"

definition fs0 :: fs_env where
  "fs0 = \<lparr>fe_copy_fails = False, fe_partial_copy = None, fe_rename_fails = False, fe_remove_fails = (\<lambda>_. False)\<rparr>"

lemma tmp0: "restore_tmp ''ledger'' = ''.ledger.restore-tmp''"
  by code_simp

lemma verify0: "\<exists>v. verify_code lib0 conn0 = (0, v)"
  by (simp add: verify_code_def verify_def verify_rows_def with_connection_def with_connection_result_def bind_db_def
      select_def sql_def lift_result_def conn0_def)

lemma restore0: "fst (run_restore lib0 sqlite0 fs0 ''snap'' ''ledger'' False [''snap'' \<mapsto> ''s'']) = 0"
  using verify0
  by (auto simp: run_restore_def sqlite0_def fs0_def Let_def tmp0 copy_file_def rename_file_def remove_file_def)


text \<open>
  The journals of the target are removed before the rename. When that fails, the exit code is 1 and the
  target file is as it was, but what was committed in its journal is gone.
\<close>

lemma failed_rename_loses_journal:
  "case run_restore lib0 sqlite0 (fs0\<lparr>fe_rename_fails := True\<rparr>) ''snap'' ''ledger'' True
     [''snap'' \<mapsto> ''s'', ''ledger'' \<mapsto> ''l'', ''ledger-wal'' \<mapsto> ''w''] of
   (code, d') \<Rightarrow> code = 1 \<and> d' ''ledger'' = Some ''l'' \<and> d' ''ledger-wal'' = None"
  using verify0
  by (auto simp: run_restore_def sqlite0_def fs0_def Let_def tmp0 copy_file_def rename_file_def remove_file_def)

end
