(* ===== verification/Command.thy ===== *)
theory Command
  imports Snapshot Startup
begin

text \<open>
  The command line of \<open>main.rs\<close>: the subcommands with their options as \<open>main\<close> receives them from the parser,
  their defaults, the end of \<open>run_start\<close> once the state of the server is built, and the exit code of every
  invocation; \<open>None\<close> is a panic. The standard output of the commands is in \<open>Cli\<close>, and what \<open>backup\<close> and
  \<open>restore\<close> do to the disk in \<open>Snapshot\<close>.
\<close>

section \<open>Subcommands\<close>

datatype graduate_action =
    GraduateReport "string option" "string option" "string option" "string option" report_format
  | GraduateVerify string "string option"

datatype command =
    Start start_options
  | Verify "string option"
  | Audit "string option" string
  | Pending pending_action
  | Backup "string option" string
  | Restore string "string option" bool
  | Graduate graduate_action

section \<open>The host\<close>

text \<open>
  What serving depends on: whether the metrics recorder installs, whether the listener binds, and whether the
  server ends by an error rather than by a signal.
\<close>

record serve_env =
  sv_recorder :: bool
  sv_binds :: "ip_addr \<Rightarrow> nat \<Rightarrow> bool"
  sv_fails :: bool

record cli_host =
  ho_lib :: lib
  ho_sig :: sig_lib
  ho_boot :: boot_env
  ho_serve :: serve_env
  ho_verbose_env :: "string option"
  ho_sqlite :: sqlite
  ho_fs :: fs_env
  ho_disk :: disk
  ho_net :: cli_network
  ho_color :: bool
  ho_now :: time
  ho_date_ok :: "time \<Rightarrow> bool"
  ho_parse_key :: "string \<Rightarrow> nat option"
  ho_writes :: "string \<Rightarrow> bool"
  ho_pretty :: "signed_report \<Rightarrow> string list option"
  ho_decode_report :: "string \<Rightarrow> signed_report option"

definition DEFAULT_LEDGER :: string where
  "DEFAULT_LEDGER = ''./clavenar-lite.db''"

definition ledger_or_default :: "string option \<Rightarrow> string" where
  "ledger_or_default ledger = unwrap_or DEFAULT_LEDGER ledger"

definition opened :: "cli_host \<Rightarrow> string \<Rightarrow> conn option" where
  "opened H path = fst (sq_open (ho_sqlite H) (ho_disk H) path)"

text \<open>\<open>run_start\<close> after the state is built: the recorder, the listener, and serving until a signal.\<close>

definition start_exit :: "lib \<Rightarrow> boot_env \<Rightarrow> serve_env \<Rightarrow> start_config \<Rightarrow> nat" where
  "start_exit L B V cfg =
     (case run_start L B cfg of
        Inl e \<Rightarrow> 1
      | Inr state \<Rightarrow>
          if \<not> sv_recorder V then 1
          else if \<not> sv_binds V (sc_bind cfg) (sc_port cfg) then 1
          else if sv_fails V then 1 else 0)"

definition report_io_of :: "cli_host \<Rightarrow> string option \<Rightarrow> string option \<Rightarrow> report_io" where
  "report_io_of H signing_key output =
     \<lparr>ri_signing_key = map_option (ho_disk H) signing_key, ri_parse_key = ho_parse_key H,
      ri_output_writes = map_option (ho_writes H) output, ri_pretty = ho_pretty H\<rparr>"

fun run_graduate :: "cli_host \<Rightarrow> graduate_action \<Rightarrow> (nat \<times> string list) option" where
  "run_graduate H (GraduateReport ledger since_text signing_key output format) =
     run_graduate_report (ho_lib H) (ho_sig H) (report_io_of H signing_key output) (ho_date_ok H) (ho_now H)
       since_text format (opened H (ledger_or_default ledger))"
| "run_graduate H (GraduateVerify report pubkey) =
     Some (run_graduate_verify (ho_lib H) (ho_sig H) (ho_decode_report H) (ho_disk H report)
       (map_option (ho_disk H) pubkey))"

fun main_exit :: "cli_host \<Rightarrow> command \<Rightarrow> nat option" where
  "main_exit H (Start options) =
     Some (start_exit (ho_lib H) (ho_boot H) (ho_serve H) (start_config_of options (ho_verbose_env H)))"
| "main_exit H (Verify ledger) =
     (let path = ledger_or_default ledger in Some (fst (run_verify (ho_lib H) path (opened H path))))"
| "main_exit H (Audit ledger agent_id) =
     (let path = ledger_or_default ledger in Some (fst (run_audit (ho_lib H) agent_id (opened H path))))"
| "main_exit H (Pending action) = Some (fst (run_pending (ho_lib H) (ho_net H) (ho_color H) action))"
| "main_exit H (Backup ledger output) =
     Some (fst (run_backup (ho_lib H) (ho_sqlite H) (ho_fs H) (ledger_or_default ledger) output (ho_disk H)))"
| "main_exit H (Restore input ledger force) =
     Some (fst (run_restore (ho_lib H) (ho_sqlite H) (ho_fs H) input (ledger_or_default ledger) force (ho_disk H)))"
| "main_exit H (Graduate action) = map_option fst (run_graduate H action)"

section \<open>Exit codes\<close>

lemmas exit_cases = run_verify_def run_audit_def open_ledger_def ok_or_def run_pending_list_def run_pending_get_def
  run_pending_decide_def run_graduate_report_def run_graduate_verify_def start_exit_def Let_def

lemma run_pending_codes: "fst (run_pending L net color action) \<in> {0, 2, 3, 4, 5}"
  by (cases action) (auto simp: exit_cases split: option.split prod.split bool.split)

lemma run_backup_codes: "fst (run_backup L S F path output d) \<in> {0, 1, 2}"
  by (auto simp: run_backup_def Let_def split: option.split prod.split sum.split if_split)

lemma run_restore_codes: "fst (run_restore L S F input path force d) \<in> {0, 1, 2}"
  by (auto simp: run_restore_def verify_code_def Let_def split: option.split prod.split sum.split if_split bool.split)

lemma graduate_report_codes:
  "run_graduate_report L S F date_ok now since_text format c = Some r \<Longrightarrow> fst r \<in> {0, 1, 2}"
  by (auto simp: exit_cases split: option.splits prod.splits sum.splits since.splits if_splits report_format.splits)

lemma graduate_report_panics:
  "run_graduate_report L S F date_ok now since_text format c = None \<Longrightarrow>
   \<exists>s. since_text = Some s \<and> parse_since L date_ok now s = SincePanics"
  by (auto simp: run_graduate_report_def split: option.splits since.splits)

lemma graduate_verify_codes: "fst (run_graduate_verify L S decode_report report pubkey) \<in> {0, 2}"
  by (auto simp: run_graduate_verify_def split: option.split verify_outcome.split)

text \<open>
  The exit code of every subcommand means one thing. It lies between 0 and 5; only a relative \<open>--since\<close> can
  panic; \<open>verify\<close> exits with 0 exactly on a ledger that opens and verifies, and with 2 exactly on one that opens
  and is broken; \<open>start\<close> exits with 0 only after serving with a configuration that passed every check.
\<close>

theorem exit_codes_mean:
  "(case main_exit H cmd of
      None \<Rightarrow> (\<exists>ledger s key output format. cmd = Graduate (GraduateReport ledger (Some s) key output format) \<and>
        parse_since (ho_lib H) (ho_date_ok H) (ho_now H) s = SincePanics)
    | Some code \<Rightarrow> code \<le> 5) \<and>
   (main_exit H (Verify ledger) = Some 0 \<longleftrightarrow>
     (\<exists>c v. opened H (ledger_or_default ledger) = Some c \<and> fst (verify (ho_lib H) c) = Inr v \<and> vr_valid v)) \<and>
   (main_exit H (Verify ledger) = Some 2 \<longleftrightarrow>
     (\<exists>c v. opened H (ledger_or_default ledger) = Some c \<and> fst (verify (ho_lib H) c) = Inr v \<and> \<not> vr_valid v)) \<and>
   (main_exit H (Start options) = Some 0 \<longrightarrow>
     is_ok (run_start (ho_lib H) (ho_boot H) (start_config_of options (ho_verbose_env H))) \<and>
     sv_binds (ho_serve H) (unwrap_or (V4 [0, 0, 0, 0]) (so_bind options)) (unwrap_or 8088 (so_port options)))"
proof (intro conjI)
  show "case main_exit H cmd of
      None \<Rightarrow> (\<exists>ledger s key output format. cmd = Graduate (GraduateReport ledger (Some s) key output format) \<and>
        parse_since (ho_lib H) (ho_date_ok H) (ho_now H) s = SincePanics)
    | Some code \<Rightarrow> code \<le> 5"
  proof (cases cmd)
    case (Start options)
    then show ?thesis by (auto simp: start_exit_def split: sum.split)
  next
    case (Verify ledger)
    then show ?thesis by (auto simp: exit_cases split: option.split sum.split)
  next
    case (Audit ledger agent)
    then show ?thesis by (auto simp: exit_cases split: option.split sum.split)
  next
    case (Pending action)
    then show ?thesis using run_pending_codes [of "ho_lib H" "ho_net H" "ho_color H" action] by auto
  next
    case (Backup ledger dest)
    then show ?thesis
      using run_backup_codes [of "ho_lib H" "ho_sqlite H" "ho_fs H" "ledger_or_default ledger" dest "ho_disk H"] by auto
  next
    case (Restore input ledger force)
    then show ?thesis
      using run_restore_codes [of "ho_lib H" "ho_sqlite H" "ho_fs H" input "ledger_or_default ledger" force "ho_disk H"]
      by auto
  next
    case (Graduate action)
    show ?thesis
    proof (cases action)
      case (GraduateReport ledger since key dest format)
      then show ?thesis using Graduate
        by (auto split: option.split dest: graduate_report_panics graduate_report_codes)
    next
      case (GraduateVerify report pubkey)
      then show ?thesis using Graduate
          graduate_verify_codes [of "ho_lib H" "ho_sig H" "ho_decode_report H" "ho_disk H report" "map_option (ho_disk H) pubkey"]
        by auto
    qed
  qed
qed (auto simp: exit_cases start_config_of_def split: option.splits sum.splits if_splits)

definition host0 :: cli_host where
  "host0 = \<lparr>ho_lib = lib0, ho_sig = sig0, ho_boot = boot0,
     ho_serve = \<lparr>sv_recorder = True, sv_binds = \<lambda>_ _. True, sv_fails = False\<rparr>, ho_verbose_env = None,
     ho_sqlite = sqlite0, ho_fs = fs0, ho_disk = [''ledger'' \<mapsto> ''l''], ho_net = \<lambda>_. None, ho_color = False,
     ho_now = 0, ho_date_ok = \<lambda>_. True, ho_parse_key = \<lambda>_. None, ho_writes = \<lambda>_. True, ho_pretty = \<lambda>_. None,
     ho_decode_report = \<lambda>_. None\<rparr>"

theorem exit_codes_mean_witness:
  "main_exit host0 (Verify (Some ''ledger'')) = Some 0"
proof -
  obtain v c where "verify lib0 conn0 = (Inr v, c)" "vr_valid v"
    using verify0 by (auto simp: verify_code_def split: prod.splits sum.splits if_splits)
  then have "\<exists>c v. opened host0 (ledger_or_default (Some ''ledger'')) = Some c \<and> fst (verify (ho_lib host0) c) = Inr v \<and> vr_valid v"
    by (simp add: opened_def host0_def sqlite0_def ledger_or_default_def unwrap_or_def)
  then show ?thesis using exit_codes_mean [where H = host0 and ledger = "Some ''ledger''"] by blast
qed

end
