(* ===== verification/Schema_Entries.thy ===== *)
theory Schema_Entries
  imports Schema
begin

text \<open>
  The rows of the table \<open>entries\<close> of a database file as the records on which the ledger's operations work: which
  entries a ledger of an earlier release has after it was opened.
\<close>

section \<open>Reading a row by the names of its columns\<close>

fun as_text :: "sql_value option \<Rightarrow> string option" where
  "as_text (Some (SqlText s)) = Some s"
| "as_text _ = None"

fun as_integer :: "sql_value option \<Rightarrow> int option" where
  "as_integer (Some (SqlInteger i)) = Some i"
| "as_integer _ = None"

fun as_nullable :: "sql_value option \<Rightarrow> string option option" where
  "as_nullable (Some SqlNull) = Some None"
| "as_nullable (Some (SqlText s)) = Some (Some s)"
| "as_nullable _ = None"

text \<open>\<open>SELECT id, seq, \<dots> FROM entries\<close> and the typed reads of its columns.\<close>

definition entry_of_fields :: "(string \<Rightarrow> sql_value option) \<Rightarrow> entry_row option" where
  "entry_of_fields f =
     Option.bind (as_text (f ''id'')) (\<lambda>id. Option.bind (as_integer (f ''seq'')) (\<lambda>seq.
     Option.bind (as_text (f ''timestamp'')) (\<lambda>timestamp. Option.bind (as_text (f ''agent_id'')) (\<lambda>agent_id.
     Option.bind (as_text (f ''method'')) (\<lambda>method. Option.bind (as_text (f ''intent_category'')) (\<lambda>intent.
     Option.bind (as_integer (f ''authorized'')) (\<lambda>authorized. Option.bind (as_text (f ''reasoning'')) (\<lambda>reasoning.
     Option.bind (as_nullable (f ''policy_decision'')) (\<lambda>policy. Option.bind (as_text (f ''prev_hash'')) (\<lambda>prev.
     Option.bind (as_text (f ''entry_hash'')) (\<lambda>hash. Option.bind (as_integer (f ''chain_version'')) (\<lambda>version.
     Option.bind (as_nullable (f ''correlation_id'')) (\<lambda>correlation.
       Some \<lparr>er_id = id, er_seq = seq, er_timestamp = timestamp, er_agent_id = agent_id, er_method = method,
         er_intent_category = intent, er_authorized = authorized, er_reasoning = reasoning,
         er_policy_decision = policy, er_prev_hash = prev, er_entry_hash = hash, er_chain_version = version,
         er_correlation_id = correlation\<rparr>)))))))))))))"

definition select_entries :: "sql_table \<Rightarrow> entry_row option list" where
  "select_entries T = map (\<lambda>r. entry_of_fields (field T r)) (tb_rows T)"

section \<open>Columns that a migration adds\<close>

fun step_columns :: "schema_step \<Rightarrow> (string \<times> column) list" where
  "step_columns (Run ss) = []"
| "step_columns (Unless_Column t c ss) = [(t, c)]"

definition added_columns :: "(string \<times> column) list" where
  "added_columns = concat (map step_columns schema_steps)"

definition adds_known :: "sql_stmt \<Rightarrow> bool" where
  "adds_known s \<longleftrightarrow> (case s of AddColumn t c \<Rightarrow> (t, c) \<in> set added_columns | _ \<Rightarrow> True)"

definition migrates :: "database \<Rightarrow> database \<Rightarrow> bool" where
  "migrates db db' \<longleftrightarrow>
     (\<forall>t T. db_tables db t = Some T \<longrightarrow>
        (\<exists>cs. db_tables db' t = Some (add_columns cs T) \<and> (\<forall>c \<in> set cs. (t, c) \<in> set added_columns)))"

lemma no_columns_added [simp]: "\<exists>cs. T = add_columns cs T \<and> (\<forall>c \<in> set cs. P c)"
  by (rule exI [of _ "[]"]) simp

lemma migrates_refl [simp]: "migrates db db" "migrates db (tick_db db)"
  by (simp_all add: migrates_def)

lemma migrates_trans:
  assumes "migrates a b" "migrates b c"
  shows "migrates a c"
  unfolding migrates_def
proof (intro allI impI)
  fix t T
  assume "db_tables a t = Some T"
  then obtain cs where cs: "db_tables b t = Some (add_columns cs T)" "\<forall>c \<in> set cs. (t, c) \<in> set added_columns"
    using assms(1) unfolding migrates_def by blast
  then obtain ds where "db_tables c t = Some (add_columns ds (add_columns cs T))" "\<forall>d \<in> set ds. (t, d) \<in> set added_columns"
    using assms(2) unfolding migrates_def by blast
  with cs(2) show "\<exists>es. db_tables c t = Some (add_columns es T) \<and> (\<forall>c \<in> set es. (t, c) \<in> set added_columns)"
    by (intro exI [of _ "cs @ ds"]) (auto simp: add_columns_append)
qed

lemma apply_stmt_migrates:
  assumes "adds_known s" "apply_stmt s db = Inr db'"
  shows "migrates db db'"
proof (cases s)
  case (AddColumn t c)
  with assms obtain T where T: "db_tables db t = Some T" "db' = db\<lparr>db_tables := (db_tables db)(t \<mapsto> add_columns [c] T)\<rparr>"
      "(t, c) \<in> set added_columns"
    by (auto simp: adds_known_def split: option.splits if_splits)
  then show ?thesis
    unfolding migrates_def by (auto intro: exI [of _ "[c]"])
next
  case (CreateTable t T)
  with assms show ?thesis unfolding migrates_def by (auto split: if_splits)
next
  case (CreateIndex n t cs)
  with assms show ?thesis unfolding migrates_def by (auto split: if_splits option.splits)
qed

interpretation migrating: preserved migrates adds_known
  by unfold_locales (auto intro: migrates_trans apply_stmt_migrates)

lemma open_db_migrates: "migrates db (snd (open_db instance db))"
  unfolding open_db_def init_schema_def
proof (intro migrating.seq_keeps allI migrating.run_steps_keep)
  show "list_all (\<lambda>s. list_all adds_known (step_stmts s)) schema_steps"
    by (simp add: schema_steps_def schema_batch_def added_columns_def step_stmts_def adds_known_def
        correlation_index_def tenant_agent_index_def reconciliation_columns_def)
qed simp_all

section \<open>The entries of a ledger of an earlier release\<close>

abbreviation entry_defaults :: "(string \<times> sql_value) list" where
  "entry_defaults \<equiv> [(''chain_version'', SqlInteger 1), (''correlation_id'', SqlNull)]"

text \<open>A column that the table did not have reads as version 1, or as no correlation id.\<close>

definition earlier_field :: "sql_table \<Rightarrow> sql_value list \<Rightarrow> string \<Rightarrow> sql_value option" where
  "earlier_field T r name =
     (if name \<in> set (column_names T) then field T r name
      else map_of entry_defaults name)"

lemma field_added:
  assumes "length r = length (tb_columns T)" "name \<notin> set (column_names T)"
  shows "field (add_columns cs T) (r @ map co_default cs) name = map_of (map (\<lambda>c. (co_name c, co_default c)) cs) name"
proof -
  have none: "map_of (zip (map co_name (tb_columns T)) r) name = None"
    using assms(2) unfolding column_names_def map_of_eq_None_iff by (auto dest: set_zip_leftD)
  have "zip (map co_name cs) (map co_default cs) = map (\<lambda>c. (co_name c, co_default c)) cs"
    by (simp add: zip_map1 zip_map2 zip_same_conv_map)
  with assms(1) show ?thesis
    by (simp add: field_def column_names_def add_columns_def map_add_def none)
qed

lemma added_to_entries:
  "(''entries'', c) \<in> set added_columns \<longleftrightarrow> c = chain_version_column \<or> c = col ''correlation_id'' ''TEXT''"
  by (auto simp: added_columns_def schema_steps_def reconciliation_columns_def)

lemma default_of_added:
  "(''entries'', c) \<in> set added_columns \<Longrightarrow> map_of entry_defaults (co_name c) = Some (co_default c)"
  by (auto simp: added_to_entries chain_version_column_def col_def default_to_def not_null_def)

lemma defaults_of_added:
  assumes "\<forall>c \<in> set cs. (''entries'', c) \<in> set added_columns"
    and "name \<in> fst ` set entry_defaults \<longrightarrow> name \<in> set (map co_name cs)"
  shows "map_of (map (\<lambda>c. (co_name c, co_default c)) cs) name = map_of entry_defaults name"
proof (cases "name \<in> set (map co_name cs)")
  case True
  then obtain d where d: "map_of (map (\<lambda>c. (co_name c, co_default c)) cs) name = Some d"
    by (cases "map_of (map (\<lambda>c. (co_name c, co_default c)) cs) name") (auto simp: map_of_eq_None_iff image_image)
  then obtain c where "c \<in> set cs" "co_name c = name" "co_default c = d" by (auto dest!: map_of_SomeD)
  with d default_of_added [of c] assms(1) show ?thesis by simp
next
  case False
  then have "map_of (map (\<lambda>c. (co_name c, co_default c)) cs) name = None"
    by (auto simp: map_of_eq_None_iff)
  moreover have "map_of entry_defaults name = None"
    using False assms(2) unfolding map_of_eq_None_iff by blast
  ultimately show ?thesis by simp
qed

text \<open>
  C16. A ledger of an earlier release that opens keeps its entries: reading them after the migration gives, in the
  same order, what their rows said before, with chain version 1 and no correlation id where the table did
  not have these columns.
\<close>

theorem earlier_entries_are_version_1:
  assumes "well_formed db" "open_db instance db = (Inr i, db')" "db_tables db ''entries'' = Some T"
  shows "\<exists>T'. db_tables db' ''entries'' = Some T' \<and>
    select_entries T' = map (\<lambda>r. entry_of_fields (earlier_field T r)) (tb_rows T)"
proof -
  have migrated: "migrates db db'" using open_db_migrates [of db "instance"] assms(2) by simp
  obtain cs where cs: "db_tables db' ''entries'' = Some (add_columns cs T)" "\<forall>c \<in> set cs. (''entries'', c) \<in> set added_columns"
    using migrated assms(3) unfolding migrates_def by blast
  have "step_present (Unless_Column ''entries'' chain_version_column []) db'"
      "step_present (Unless_Column ''entries'' (col ''correlation_id'' ''TEXT'') [correlation_index]) db'"
    by (rule open_db_Inr [OF assms(2)], simp add: schema_steps_def)+
  then have present: "name \<in> set (map co_name cs)"
    if "name \<notin> set (column_names T)" "name \<in> {''chain_version'', ''correlation_id''}" for name
    using that cs(1) by (auto simp: chain_version_column_def col_def default_to_def not_null_def)
  have "field (add_columns cs T) (r @ map co_default cs) = earlier_field T r" if "r \<in> set (tb_rows T)" for r
  proof
    fix name
    have len: "length r = length (tb_columns T)"
      using that assms(1,3) by (auto simp: well_formed_def well_formed_table_def list_all_iff)
    show "field (add_columns cs T) (r @ map co_default cs) name = earlier_field T r name"
    proof (cases "name \<in> set (column_names T)")
      case True
      then show ?thesis using len by (simp add: field_add_columns earlier_field_def)
    next
      case False
      then show ?thesis using len present [OF False] defaults_of_added [OF cs(2), of name]
        by (simp add: field_added earlier_field_def del: map_of.simps)
    qed
  qed
  then show ?thesis using cs(1) by (auto simp: select_entries_def add_columns_def comp_def)
qed

definition earlier_db :: database where
  "earlier_db = fresh_db\<lparr>db_tables := [''entries'' \<mapsto> entries_table\<lparr>
     tb_columns := filter (\<lambda>c. co_name c \<noteq> ''chain_version'') (tb_columns entries_table),
     tb_rows := [[SqlText ''e1'', SqlInteger 1, SqlText ''t'', SqlText ''a'', SqlText ''m'', SqlText ''Ok'',
       SqlInteger 1, SqlText ''r'', SqlNull, SqlText ''p'', SqlText ''h'', SqlNull]]\<rparr>]\<rparr>"

theorem earlier_entries_are_version_1_witness:
  "\<exists>T' e. db_tables (snd (open_db ''i'' earlier_db)) ''entries'' = Some T' \<and> select_entries T' = [Some e] \<and>
     er_chain_version e = 1 \<and> er_entry_hash e = ''h''"
proof -
  have w: "well_formed earlier_db"
    by (simp add: well_formed_def earlier_db_def well_formed_table_def column_names_def table_defs)
  have h: "healthy earlier_db" by (simp add: earlier_db_def fresh_db_def healthy_def)
  have "is_ok (fst (init_schema (tick_db (tick_db (tick_db earlier_db)))))"
    by (subst init_schema_opens_iff)
      (simp_all add: h, simp add: schema_indexes_def index_possible_def earlier_db_def column_names_def table_defs)
  then obtain db' where o: "open_db ''i'' earlier_db = (Inr ''i'', db')"
    using h by (auto simp: open_db_healthy Let_def is_ok_iff)
  obtain T where T: "db_tables earlier_db ''entries'' = Some T" by (simp add: earlier_db_def)
  from earlier_entries_are_version_1 [OF w o T] o T show ?thesis
    by (auto simp: earlier_db_def entry_of_fields_def earlier_field_def field_def column_names_def table_defs)
qed

end
