(* ===== verification/Spec2Isabelle.thy ===== *)
theory Spec2Isabelle
  imports Heuristics Ledger_Tamper Exec_Contract Graduation Governance Rate_Limit Supply_Chain
    Upstream_Adapter Outbound_Callback Hosted_Server Traffic Progress Decisions Router Forensics Command
    Schema_Entries
begin

text \<open>
  Clavenar Lite is a proxy between agents and a tool server. It inspects every tool call with a
  heuristic scan and a Rego policy, records the verdict in a hash-chained SQLite ledger, parks calls
  that need a human review, forwards what is authorized, and keeps durable records of server executions
  so that a repeated request is answered from the record and not sent again.

  What is outside the sources is an argument. The record \<open>lib\<close> of \<open>Platform\<close> holds SHA-256, serde_json,
  UUIDs, RFC 3339 times, URLs and the Rego engine; \<open>codec_ok\<close>, \<open>time_order_ok\<close>, \<open>print_inj\<close> and \<open>hex_digest\<close>
  are the documented facts about them that single properties assume, and \<open>Sample\<close> satisfies all of them.
  The network is a function from requests to replies; clocks, random identifiers and storage failures
  are functions of the number of calls made so far, so that the properties hold for all of them.

  The theories, in the order of the program's layers:

  \<^item> \<open>Prelude\<close>, \<open>Platform\<close>, \<open>Http\<close>: results, strings as bytes, JSON, URLs, headers.
  \<^item> \<open>Heuristics\<close> (\<open>src/heuristics.rs\<close>), \<open>Policy\<close> and \<open>Governance\<close> (\<open>src/policy.rs\<close> and the embedded
    \<open>policies/governance.rego\<close>): the scan, the velocity tracker, the evaluation of the rules, and the
    tier of a request in closed form.
  \<^item> \<open>Db\<close>, \<open>Ledger\<close>, \<open>Ledger_Chain\<close>, \<open>Ledger_Tamper\<close> (\<open>src/ledger.rs\<close>): the connection with its
    tables, constraints, transactions and failures; append, verify and audit of the chain. \<open>Schema\<close>: the
    statements that create and migrate the tables when a database file is opened, and \<open>Schema_Entries\<close> what a ledger of an
    earlier release reads as afterwards.
  \<^item> \<open>Ledger_Pending\<close>: the review queue. \<open>Ledger_Exec\<close>, \<open>Exec_Steps\<close>, \<open>Exec_Contract\<close>: intents,
    completions and the reconciler, and the relations between connections that every operation keeps.
  \<^item> \<open>Graduation\<close> (\<open>src/report.rs\<close>), \<open>Rate_Limit\<close> (\<open>src/rate_limit.rs\<close>), \<open>Supply_Chain\<close>
    (\<open>src/supply_chain.rs\<close>), \<open>Target_Validation\<close>, \<open>Outbound_Callback\<close>, \<open>Upstream_Adapter\<close>: one theory
    for each of these files, and for the contract checks that go with them.
  \<^item> \<open>Registry\<close> (bearer tokens of \<open>src/proxy.rs\<close>), \<open>Hosted_Safety\<close> (\<open>src/hosted_safety.rs\<close>), \<open>Startup\<close>
    (\<open>start\<close> of \<open>src/main.rs\<close>), \<open>Paths\<close> and \<open>Policy_Load\<close> (\<open>PolicyEngine::from_dir\<close>): from options, files and
    database to the state of a server.
  \<^item> \<open>World\<close>, \<open>Proxy\<close>: \<open>AppState\<close>, responses, notifications (\<open>src/webhook.rs\<close>, \<open>src/slack.rs\<close>), the
    contract selectors, and the handlers of \<open>/pending\<close>.
  \<^item> \<open>Mcp_Handler\<close>: the handler of \<open>POST /mcp\<close> as a state machine, one \<open>task\<close> constructor for each await
    point; \<open>advance\<close> runs a task to its next await point. Eleven steps are enough for any request.
  \<^item> \<open>Serving\<close>: the running server as a step relation over tasks and world; \<open>Sample_Run\<close> is a concrete
    run. \<open>Effects\<close> and \<open>Decisions\<close> show what holds in every reachable state, \<open>Progress\<close> that a permitted
    execution is sent and answered, on a platform that \<open>Reliable\<close> describes; \<open>Hosted_Server\<close> puts the
    configuration, the shipped rules and the reachable states together. \<open>Traffic\<close> adds a clock to the runs, and
    bounds what the rate limiter lets through to the upstream. \<open>Router\<close> is the route table of
    \<open>build_router\<close>: every HTTP request is a run of the step relation. \<open>Forensics\<close>: the background task around
    the reconciler, its gauges, and that it works off its backlog.
  \<^item> \<open>Cli\<close>, \<open>Snapshot\<close>, \<open>Command\<close>: the operator's subcommands of \<open>src/main.rs\<close>, their exit codes and output, the
    client of the queue against the handler it calls, backup and restore over a disk, and \<open>main\<close>.

  The main results. Nothing reaches the upstream that was not authorized, and an agent and idempotency
  id reach it at most once, across interleavings, cancellations and restarts; what is permitted does reach it, and
  its caller gets the upstream's response, again and again; the ledger of a running
  server stays sound and two ledgers with one head have the same content; a completed execution is
  replayed byte for byte; what leaves a hosted server with the shipped rules is authenticated, harmless and,
  for a wire transfer, approved by a human; a decision is final and stays within the tenant of the operator; the decision
  selector has no effects; an agent reaches the upstream within the budget of the
  limiter; callbacks stay within the allowlist and on
  public addresses; a hosted server starts only with a safe configuration; restore fails closed. Opening a
  ledger keeps its data, and fails on tables of earlier releases that lack an indexed column.

  Interfaces are locales, interpreted on the model where it is provided: \<open>db_relation\<close> (relations
  between connections, for the chain, the queue, the executions, and for single handlers),
  \<open>ledger_relation\<close> (what lifts such a relation to the server), \<open>preserved\<close> (what a migration keeps),
  \<open>token_registry\<close> and \<open>rate_limiter\<close> (the account of an agent's tokens, on which \<open>Traffic\<close> rests) among them.

  Simplifications. Rates and scores are exact rationals for finite \<open>f64\<close> values. Plain-text messages
  are kept by their kind when they quote errors of third-party code. Logging and the counters of requests
  are left out.
  An operation on the connection is one step, since its worker admits one at a time. The field
  \<open>w_sent\<close> of the world records what was sent, for the properties; no operation reads it.

  \<open>Progress\<close> counts the calls of the platform: 31 for an execution and three for its repetition, so that a platform
  reliable for 34 calls is enough. The answer of \<open>GET /metrics\<close> is an argument of the router.

  The rows of \<open>Schema\<close> are lists of values by position, those of \<open>Db\<close> records of the current columns;
  \<open>Schema_Entries\<close> relates the two for the entries.

  Not modelled: the parsing of arguments by clap, the standard error, log lines, the counters of requests and
  verdicts, and how axum matches paths and decodes queries, SQLite copies pages in a backup, and regorus parses
  policies (arguments).
\<close>

end
